theory Spec2Isabelle
  imports Main "HOL-Library.Word"
begin

section \<open>JavaScript values and the text formats of the database driver\<close>

text \<open>
  The route handlers receive JSON bodies and path parameters and hand their values to
  parameterised SQL statements. A field of a JSON object is modelled by \<open>jsval\<close>:
  \<open>JUndefined\<close> is an absent field, \<open>JStr\<close> carries a string, and \<open>JNum\<close> a
  number that is an integer of at most 53 bits and a sign, read by \<open>sint\<close>: up to there
  every integer is a number of JavaScript, its text is its decimal digits, and
  \<open>parseInt\<close> reads it back. (Fractions and larger numbers are outside the model.)
  Strings are lists of 8-bit characters, read as the code units 0..255.
\<close>

datatype jsval = JUndefined | JNull | JBool bool | JNum "54 word" | JStr string

text \<open>Truthiness, as \<open>if (v)\<close>, \<open>v && ...\<close> and \<open>v || ...\<close> test it.\<close>

fun js_truthy :: "jsval \<Rightarrow> bool" where
  "js_truthy JUndefined = False"
| "js_truthy JNull = False"
| "js_truthy (JBool b) = b"
| "js_truthy (JNum n) = (n \<noteq> 0)"
| "js_truthy (JStr s) = (s \<noteq> [])"

definition js_or :: "jsval \<Rightarrow> jsval \<Rightarrow> jsval" where
  "js_or a b = (if js_truthy a then a else b)"

text \<open>\<open>typeof v === 'string' && v.startsWith('new-')\<close>\<close>

fun starts_with :: "string \<Rightarrow> string \<Rightarrow> bool" where
  "starts_with [] s = True"
| "starts_with (p # ps) [] = False"
| "starts_with (p # ps) (c # cs) = (p = c \<and> starts_with ps cs)"

fun is_new_marker :: "jsval \<Rightarrow> bool" where
  "is_new_marker (JStr s) = starts_with ''new-'' s"
| "is_new_marker _ = False"

subsection \<open>Decimal numerals\<close>

definition digit_char :: "nat \<Rightarrow> char" where
  "digit_char d = ''0123456789'' ! d"

text \<open>The decimal text of a non-negative number, as a template string renders a counter.\<close>

function show_nat :: "nat \<Rightarrow> string" where
  "show_nat n = (if n < 10 then [digit_char n] else show_nat (n div 10) @ [digit_char (n mod 10)])"
  by pat_completeness auto
termination
  by (relation "measure id") auto

declare show_nat.simps [simp del]

definition digit_val :: "char \<Rightarrow> nat option" where
  "digit_val c = map_of (zip ''0123456789'' [0, 1, 2, 3, 4, 5, 6, 7, 8, 9]) c"

definition hex_val :: "char \<Rightarrow> nat option" where
  "hex_val c = map_of (zip ''0123456789abcdefABCDEF''
       [0, 1, 2, 3, 4, 5, 6, 7, 8, 9, 10, 11, 12, 13, 14, 15, 10, 11, 12, 13, 14, 15]) c"

text \<open>The value of a digit string in a radix, most significant digit first.\<close>

definition digits_value :: "nat \<Rightarrow> nat list \<Rightarrow> nat" where
  "digits_value radix ds = foldl (\<lambda>acc d. acc * radix + d) 0 ds"

text \<open>The longest prefix of digits of a string, as their values.\<close>

fun take_digits :: "(char \<Rightarrow> nat option) \<Rightarrow> string \<Rightarrow> nat list" where
  "take_digits dv [] = []"
| "take_digits dv (c # cs) = (case dv c of None \<Rightarrow> [] | Some d \<Rightarrow> d # take_digits dv cs)"

subsection \<open>parseInt\<close>

text \<open>
  White space that \<open>parseInt\<close> and the regular expression class \<open>\s\<close> skip, in the
  range of the model's characters: TAB, LF, VT, FF, CR, SPACE and NBSP.
\<close>

definition js_whitespace :: "char \<Rightarrow> bool" where
  "js_whitespace c = ((of_char c :: nat) \<in> {9, 10, 11, 12, 13, 32, 160})"

text \<open>
  \<open>parseInt(s)\<close> without a radix: leading white space is skipped, a sign is read, a
  prefix \<open>0x\<close> or \<open>0X\<close> selects radix 16, and the longest prefix of digits is the
  result; \<open>None\<close> is NaN (no digit).
\<close>

definition js_parseInt_str :: "string \<Rightarrow> int option" where
  "js_parseInt_str s =
     (let s1 = dropWhile js_whitespace s;
          neg = starts_with ''-'' s1;
          s2 = (if starts_with ''-'' s1 \<or> starts_with ''+'' s1 then tl s1 else s1);
          hex = (starts_with ''0x'' s2 \<or> starts_with ''0X'' s2);
          ds = (if hex then take_digits hex_val (drop 2 s2) else take_digits digit_val s2);
          v = int (digits_value (if hex then 16 else 10) ds)
      in if ds = [] then None else Some (if neg then - v else v))"

text \<open>\<open>parseInt(v)\<close> first converts \<open>v\<close> to a string: \<open>'true'\<close>, \<open>'null'\<close> and
  \<open>'undefined'\<close> hold no digit.\<close>

fun js_parseInt :: "jsval \<Rightarrow> int option" where
  "js_parseInt (JStr s) = js_parseInt_str s"
| "js_parseInt (JNum n) = Some (sint n)"
| "js_parseInt _ = None"

subsection \<open>Query parameters of type INTEGER\<close>

datatype failure =
    CharacterNotInRepertoire
  | InvalidTextRepresentation
  | NumericValueOutOfRange
  | NotNullViolation
  | CheckViolation
  | StringDataRightTruncation
  | UniqueViolation
  | ForeignKeyViolation
  | IndeterminateDatatype
  | BindParameterMismatch
  | SyntaxError
  | TypeError

definition int4_range :: "int \<Rightarrow> bool" where
  "int4_range n = (- 2147483648 \<le> n \<and> n \<le> 2147483647)"

definition pg_space :: "char \<Rightarrow> bool" where
  "pg_space c = ((of_char c :: nat) \<in> {9, 10, 11, 12, 13, 32})"

text \<open>
  A parameter travels as a text, and the server first checks the text against its
  encoding: the character 0 is in no text (error 22021), whatever the parameter's type.
\<close>

definition has_nul :: "string \<Rightarrow> bool" where
  "has_nul s = list_ex (\<lambda>c. (of_char c :: nat) = 0) s"

text \<open>
  The database's reading of a text parameter as an INTEGER: after the check of the
  encoding, optional white space, an optional sign, one or more decimal digits, optional
  white space, and the value within 32 bits. (The decimal syntax only: the prefixed
  literals and digit separators that later server releases also read are rejected here.)
\<close>

definition pg_int4_in :: "string \<Rightarrow> failure + int" where
  "pg_int4_in s =
     (if has_nul s then Inl CharacterNotInRepertoire else
      let s1 = dropWhile pg_space s;
          neg = starts_with ''-'' s1;
          s2 = (if starts_with ''-'' s1 \<or> starts_with ''+'' s1 then tl s1 else s1);
          ds = take_digits digit_val s2;
          rest = drop (length ds) s2;
          v = int (digits_value 10 ds);
          n = (if neg then - v else v)
      in if ds = [] \<or> \<not> list_all pg_space rest then Inl InvalidTextRepresentation
         else if \<not> int4_range n then Inl NumericValueOutOfRange
         else Inr n)"

text \<open>
  A number that \<open>parseInt\<close> has read from a digit string is the double nearest to the
  digits' value. From 1e21 on (the doubles that the values from \<open>10^21 - 65536\<close> on are
  rounded to) the driver sends it with an exponent, as in \<open>1e+21\<close>, which is no integer
  text; below that it sends the digits.
\<close>

definition exponent_text :: "int \<Rightarrow> bool" where
  "exponent_text n = (10 ^ 21 - 65536 \<le> \<bar>n\<bar>)"

definition int4_failure :: "int \<Rightarrow> failure" where
  "int4_failure n =
     (if exponent_text n then InvalidTextRepresentation else NumericValueOutOfRange)"

definition pg_int_of_number :: "int \<Rightarrow> failure + int" where
  "pg_int_of_number n = (if int4_range n then Inr n else Inl (int4_failure n))"

text \<open>
  A JavaScript value bound to an INTEGER parameter: the driver sends \<open>null\<close> and
  \<open>undefined\<close> as NULL, a number as its decimal text, a boolean as \<open>'true'\<close> or
  \<open>'false'\<close>, and a string as it is.
\<close>

fun pg_int_param :: "jsval \<Rightarrow> failure + int option" where
  "pg_int_param JUndefined = Inr None"
| "pg_int_param JNull = Inr None"
| "pg_int_param (JBool b) = Inl InvalidTextRepresentation"
| "pg_int_param (JNum n) =
     (if int4_range (sint n) then Inr (Some (sint n)) else Inl NumericValueOutOfRange)"
| "pg_int_param (JStr s) = (case pg_int4_in s of Inl f \<Rightarrow> Inl f | Inr n \<Rightarrow> Inr (Some n))"

section \<open>Slugs\<close>

text \<open>
  \<^verbatim>\<open>
  function generateSlug(title) {
    return title
      .toLowerCase()
      .replace(/[^a-z0-9 -]/g, '')
      .replace(/\s+/g, '-')
      .replace(/-+/g, '-')
      .replace(/^-|-$/g, '');
  }
  \<close>
\<close>

definition toLowerCase_char :: "char \<Rightarrow> char" where
  "toLowerCase_char c =
     (let n = (of_char c :: nat)
      in if (65 \<le> n \<and> n \<le> 90) \<or> (192 \<le> n \<and> n \<le> 222 \<and> n \<noteq> 215)
         then (case c of Char b0 b1 b2 b3 b4 b5 b6 b7 \<Rightarrow> Char b0 b1 b2 b3 b4 True b6 b7)
         else c)"

definition toLowerCase :: "string \<Rightarrow> string" where
  "toLowerCase s = map toLowerCase_char s"

definition slug_char :: "char \<Rightarrow> bool" where
  "slug_char c = (c \<in> set ''abcdefghijklmnopqrstuvwxyz0123456789 -'')"

definition is_hyphen :: "char \<Rightarrow> bool" where
  "is_hyphen c = (c = CHR ''-'')"

text \<open>\<open>s.replace(/P+/g, '-')\<close>: every maximal run of characters of the class \<open>P\<close>
  becomes one hyphen. The flag says that the previous character was of the class.\<close>

fun replace_runs :: "(char \<Rightarrow> bool) \<Rightarrow> bool \<Rightarrow> string \<Rightarrow> string" where
  "replace_runs P inrun [] = []"
| "replace_runs P inrun (c # cs) =
     (if P c then (if inrun then replace_runs P True cs else CHR ''-'' # replace_runs P True cs)
      else c # replace_runs P False cs)"

text \<open>\<open>s.replace(/^-|-$/g, '')\<close>: one hyphen at the start and one at the end are
  removed.\<close>

definition trim_one_hyphen :: "string \<Rightarrow> string" where
  "trim_one_hyphen s =
     (let s1 = (if starts_with ''-'' s then tl s else s)
      in if s1 \<noteq> [] \<and> last s1 = CHR ''-'' then butlast s1 else s1)"

definition generateSlug :: "string \<Rightarrow> string" where
  "generateSlug title =
     trim_one_hyphen
       (replace_runs is_hyphen False
          (replace_runs js_whitespace False
             (filter slug_char (toLowerCase title))))"

text \<open>
  The algorithm in the words of the specification: lowercase, strip what is outside
  \<open>[a-z0-9 -]\<close>, collapse white space to single hyphens, collapse repeated hyphens,
  trim the leading and trailing hyphens (all of them).
\<close>

definition trim_hyphens :: "string \<Rightarrow> string" where
  "trim_hyphens s = rev (dropWhile is_hyphen (rev (dropWhile is_hyphen s)))"

definition spec_base_slug :: "string \<Rightarrow> string" where
  "spec_base_slug title =
     trim_hyphens
       (replace_runs is_hyphen False
          (replace_runs js_whitespace False
             (filter slug_char (toLowerCase title))))"

subsection \<open>The trimming step against the specification's wording\<close>

fun no_double_hyphen :: "string \<Rightarrow> bool" where
  "no_double_hyphen (a # b # cs) = (\<not> (is_hyphen a \<and> is_hyphen b) \<and> no_double_hyphen (b # cs))"
| "no_double_hyphen _ = True"

lemma replace_runs_hyphen_shape:
  "no_double_hyphen (replace_runs is_hyphen r s) \<and>
   (r \<longrightarrow> replace_runs is_hyphen r s = [] \<or> \<not> is_hyphen (hd (replace_runs is_hyphen r s)))"
proof (induction s arbitrary: r)
  case Nil
  show ?case by simp
next
  case (Cons c cs)
  show ?case
  proof (cases "is_hyphen c")
    case True
    note hy = this
    show ?thesis
    proof (cases r)
      case True
      with hy Cons [of True] show ?thesis by simp
    next
      case False
      have "no_double_hyphen (CHR ''-'' # replace_runs is_hyphen True cs)"
        using Cons [of True] by (cases "replace_runs is_hyphen True cs") simp_all
      with hy False show ?thesis by simp
    qed
  next
    case False
    have "no_double_hyphen (c # replace_runs is_hyphen False cs)"
      using Cons [of False] False by (cases "replace_runs is_hyphen False cs") simp_all
    with False show ?thesis by simp
  qed
qed

lemma no_double_hyphen_tl: "no_double_hyphen s \<Longrightarrow> no_double_hyphen (tl s)"
  by (cases s rule: no_double_hyphen.cases) simp_all

lemma dropWhile_hyphen_once:
  "no_double_hyphen s \<Longrightarrow> dropWhile is_hyphen s = (if starts_with ''-'' s then tl s else s)"
  by (cases s rule: no_double_hyphen.cases) (auto simp: is_hyphen_def)

lemma no_double_hyphen_snoc2:
  "no_double_hyphen (u @ [b, a]) \<Longrightarrow> \<not> (is_hyphen b \<and> is_hyphen a)"
  by (induction u rule: no_double_hyphen.induct) auto

lemma dropWhile_hyphen_end_once:
  assumes "no_double_hyphen s"
  shows "rev (dropWhile is_hyphen (rev s)) = (if s \<noteq> [] \<and> last s = CHR ''-'' then butlast s else s)"
proof (cases s rule: rev_cases)
  case Nil
  then show ?thesis by simp
next
  case (snoc t a)
  show ?thesis
  proof (cases "is_hyphen a")
    case False
    with snoc show ?thesis by (simp add: is_hyphen_def)
  next
    case True
    show ?thesis
    proof (cases t rule: rev_cases)
      case Nil
      with snoc True show ?thesis by (simp add: is_hyphen_def)
    next
      case (snoc u b)
      with assms \<open>s = t @ [a]\<close> True have "\<not> is_hyphen b"
        using no_double_hyphen_snoc2 [of u b a] by simp
      with snoc \<open>s = t @ [a]\<close> True show ?thesis
        by (simp add: is_hyphen_def butlast_append)
    qed
  qed
qed

lemma trim_one_hyphen_all:
  "no_double_hyphen s \<Longrightarrow> trim_one_hyphen s = trim_hyphens s"
  unfolding trim_one_hyphen_def trim_hyphens_def Let_def
  by (simp add: dropWhile_hyphen_once dropWhile_hyphen_end_once no_double_hyphen_tl)

lemma generateSlug_refines_spec: "generateSlug title = spec_base_slug title"
  unfolding generateSlug_def spec_base_slug_def
  by (rule trim_one_hyphen_all) (simp add: replace_runs_hyphen_shape)

lemma digit_val_digit_char: "d < 10 \<Longrightarrow> digit_val (digit_char d) = Some d"
proof -
  assume "d < 10"
  then consider "d = 0" | "d = 1" | "d = 2" | "d = 3" | "d = 4" | "d = 5" | "d = 6"
    | "d = 7" | "d = 8" | "d = 9" by (auto simp: less_Suc_eq numeral_eq_Suc)
  then show ?thesis by cases (simp_all add: digit_val_def digit_char_def)
qed

definition read_digits :: "string \<Rightarrow> nat" where
  "read_digits s = foldl (\<lambda>acc c. acc * 10 + the (digit_val c)) 0 s"

lemma read_digits_show_nat: "read_digits (show_nat n) = n"
proof (induction n rule: show_nat.induct)
  case (1 n)
  show ?case
  proof (cases "n < 10")
    case True
    then show ?thesis by (simp add: show_nat.simps [of n] read_digits_def digit_val_digit_char)
  next
    case False
    with 1 have "read_digits (show_nat (n div 10)) = n div 10" by simp
    with False show ?thesis
      by (simp add: show_nat.simps [of n] read_digits_def digit_val_digit_char)
  qed
qed

lemma show_nat_inj: "show_nat a = show_nat b \<Longrightarrow> a = b"
  by (metis read_digits_show_nat)

subsection \<open>The uniqueness loop\<close>

text \<open>
  \<^verbatim>\<open>
  const baseSlug = generateSlug(title);
  let slug = baseSlug;
  let counter = 1;
  while (true) {
    const existing = await req.pool.query('SELECT id FROM topics WHERE slug = $1', [slug]);
    if (existing.rows.length === 0) break;
    slug = `${baseSlug}-${counter}`;
    counter++;
  }
  \<close>
  The argument \<open>taken\<close> is the list of slugs the query compares with: its rows do not
  change while one request runs its loop.
\<close>

definition slug_candidate :: "string \<Rightarrow> nat \<Rightarrow> string" where
  "slug_candidate baseSlug counter = baseSlug @ ''-'' @ show_nat counter"

lemma slug_candidate_inj: "slug_candidate b i = slug_candidate b j \<Longrightarrow> i = j"
  by (simp add: slug_candidate_def show_nat_inj)

lemma finite_taken_candidates: "finite {k. slug_candidate b k \<in> set taken}"
proof -
  have "inj (slug_candidate b)"
    by (rule injI) (rule slug_candidate_inj)
  then have "finite (slug_candidate b -` set taken)"
    by (rule finite_vimageI [OF finite_set])
  then show ?thesis by (simp add: vimage_def)
qed

definition taken_from :: "string list \<Rightarrow> string \<Rightarrow> nat \<Rightarrow> nat set" where
  "taken_from taken b c = {k. c \<le> k \<and> slug_candidate b k \<in> set taken}"

lemma finite_taken_from: "finite (taken_from taken b c)"
  unfolding taken_from_def using finite_taken_candidates [of b taken] by simp

lemma taken_from_Suc: "taken_from taken b (Suc c) = taken_from taken b c - {c}"
  unfolding taken_from_def by auto

lemma slug_loop_measure_decreases:
  "2 * card (taken_from taken b (Suc c)) + (if slug_candidate b c \<in> set taken then 1 else 0)
     < 2 * card (taken_from taken b c) + 1"
proof (cases "slug_candidate b c \<in> set taken")
  case True
  then have "c \<in> taken_from taken b c" by (simp add: taken_from_def)
  then have "card (taken_from taken b c - {c}) < card (taken_from taken b c)"
    by (rule card_Diff1_less [OF finite_taken_from])
  then have "card (taken_from taken b (Suc c)) < card (taken_from taken b c)"
    by (simp only: taken_from_Suc)
  with True show ?thesis by simp
next
  case False
  then have "c \<notin> taken_from taken b c" by (simp add: taken_from_def)
  then have "taken_from taken b (Suc c) = taken_from taken b c"
    unfolding taken_from_Suc by simp
  with False show ?thesis by simp
qed

function slug_loop :: "string list \<Rightarrow> string \<Rightarrow> string \<Rightarrow> nat \<Rightarrow> string" where
  "slug_loop taken baseSlug slug counter =
     (if slug \<notin> set taken then slug
      else slug_loop taken baseSlug (slug_candidate baseSlug counter) (counter + 1))"
  by pat_completeness auto
termination
proof (relation "measure (\<lambda>(taken, b, slug, c).
         2 * card (taken_from taken b c) + (if slug \<in> set taken then 1 else 0))")
  show "wf (measure (\<lambda>(taken, b, slug, c).
         2 * card (taken_from taken b c) + (if slug \<in> set taken then 1 else 0)))"
    by simp
next
  fix taken :: "string list" and baseSlug slug :: string and counter :: nat
  assume "\<not> slug \<notin> set taken"
  then show "((taken, baseSlug, slug_candidate baseSlug counter, counter + 1),
              (taken, baseSlug, slug, counter))
     \<in> measure (\<lambda>(taken, b, slug, c).
         2 * card (taken_from taken b c) + (if slug \<in> set taken then 1 else 0))"
    using slug_loop_measure_decreases [of taken baseSlug counter] by simp
qed

declare slug_loop.simps [simp del]


lemma slug_loop_unused: "slug_loop taken b s c \<notin> set taken"
  by (induction taken b s c rule: slug_loop.induct) (simp add: slug_loop.simps)

lemma slug_loop_first_free:
  "slug_loop taken b s c = s \<and> s \<notin> set taken \<or>
   (\<exists>k\<ge>c. slug_loop taken b s c = slug_candidate b k \<and> s \<in> set taken \<and>
      (\<forall>j. c \<le> j \<and> j < k \<longrightarrow> slug_candidate b j \<in> set taken))"
proof (induction taken b s c rule: slug_loop.induct)
  case (1 taken b s c)
  show ?case
  proof (cases "s \<in> set taken")
    case False
    then show ?thesis by (simp add: slug_loop.simps)
  next
    case True
    then have eq: "slug_loop taken b s c = slug_loop taken b (slug_candidate b c) (c + 1)"
      by (subst slug_loop.simps) simp
    from 1 True have "slug_loop taken b (slug_candidate b c) (c + 1) = slug_candidate b c
        \<and> slug_candidate b c \<notin> set taken \<or>
      (\<exists>k\<ge>c + 1. slug_loop taken b (slug_candidate b c) (c + 1) = slug_candidate b k
        \<and> slug_candidate b c \<in> set taken
        \<and> (\<forall>j. c + 1 \<le> j \<and> j < k \<longrightarrow> slug_candidate b j \<in> set taken))"
      by simp
    then show ?thesis
    proof
      assume "slug_loop taken b (slug_candidate b c) (c + 1) = slug_candidate b c
        \<and> slug_candidate b c \<notin> set taken"
      with eq True show ?thesis by auto
    next
      assume "\<exists>k\<ge>c + 1. slug_loop taken b (slug_candidate b c) (c + 1) = slug_candidate b k
        \<and> slug_candidate b c \<in> set taken
        \<and> (\<forall>j. c + 1 \<le> j \<and> j < k \<longrightarrow> slug_candidate b j \<in> set taken)"
      then obtain k where k: "c + 1 \<le> k"
        "slug_loop taken b (slug_candidate b c) (c + 1) = slug_candidate b k"
        "slug_candidate b c \<in> set taken"
        "\<forall>j. c + 1 \<le> j \<and> j < k \<longrightarrow> slug_candidate b j \<in> set taken" by blast
      have "\<forall>j. c \<le> j \<and> j < k \<longrightarrow> slug_candidate b j \<in> set taken"
      proof (intro allI impI)
        fix j assume "c \<le> j \<and> j < k"
        then have "j = c \<or> (c + 1 \<le> j \<and> j < k)" by auto
        with k show "slug_candidate b j \<in> set taken" by auto
      qed
      with eq True k have "c \<le> k \<and> slug_loop taken b s c = slug_candidate b k \<and> s \<in> set taken \<and>
          (\<forall>j. c \<le> j \<and> j < k \<longrightarrow> slug_candidate b j \<in> set taken)"
        by simp
      then show ?thesis by blast
    qed
  qed
qed

section \<open>The database\<close>

text \<open>
  The tables \<open>topics\<close>, \<open>topic_modules\<close> and \<open>topic_videos\<close> of the topics
  migration, each a list of rows in insertion order, with the columns that the modelled
  statements read or that a property speaks of. A nullable column is an \<open>option\<close>
  (\<open>None\<close> is NULL). Titles of modules and videos, descriptions, URLs, flags and the
  \<open>updated_at\<close> stamps are projected away, and so is the \<open>uploads\<close> table. Each
  \<open>id\<close> is a SERIAL column: its sequence holds the last value it gave out.
  \<^verbatim>\<open>
  CREATE TABLE IF NOT EXISTS topics (
      id SERIAL PRIMARY KEY,
      title VARCHAR(255) NOT NULL,
      slug VARCHAR(255) UNIQUE NOT NULL,
      status VARCHAR(20) DEFAULT 'draft' CHECK (status IN ('draft', 'published', 'archived')),
      duration_minutes INTEGER DEFAULT 0,
      published_at TIMESTAMP, ... );
  CREATE TABLE IF NOT EXISTS topic_modules (
      id SERIAL PRIMARY KEY,
      topic_id INTEGER REFERENCES topics(id) ON DELETE CASCADE,
      order_index INTEGER DEFAULT 1,
      duration_minutes INTEGER DEFAULT 0, ... );
  CREATE TABLE IF NOT EXISTS topic_videos (
      id SERIAL PRIMARY KEY,
      topic_id INTEGER REFERENCES topics(id) ON DELETE CASCADE,
      module_id INTEGER REFERENCES topic_modules(id) ON DELETE CASCADE,
      duration_seconds INTEGER DEFAULT 0,
      order_index INTEGER DEFAULT 1, ... );
  \<close>
\<close>

record topic =
  t_id :: int
  t_title :: string
  t_slug :: string
  t_status :: "string option"
  t_duration_minutes :: "int option"
  t_published_at :: "nat option"

record topic_module =
  m_id :: int
  m_topic_id :: "int option"
  m_order_index :: "int option"
  m_duration_minutes :: "int option"

record topic_video =
  v_id :: int
  v_topic_id :: "int option"
  v_module_id :: "int option"
  v_duration_seconds :: "int option"
  v_order_index :: "int option"

record db =
  topics :: "topic list"
  topic_modules :: "topic_module list"
  topic_videos :: "topic_video list"
  topics_id_seq :: int
  topic_modules_id_seq :: int
  topic_videos_id_seq :: int

text \<open>
  A statement either fails, with the error and the state at that moment, or is done, with
  its result and the new state. ROLLBACK restores the tables of the snapshot taken at
  BEGIN; a sequence keeps the values it gave out.
\<close>

datatype 'a outcome = Failed failure db | Done 'a db

definition rollback :: "db \<Rightarrow> db \<Rightarrow> db" where
  "rollback snapshot at_failure =
     snapshot\<lparr>topics_id_seq := topics_id_seq at_failure,
              topic_modules_id_seq := topic_modules_id_seq at_failure,
              topic_videos_id_seq := topic_videos_id_seq at_failure\<rparr>"

text \<open>
  What a handler answers: a success with its status code, an error the handler words
  itself (status code and the \<open>error\<close> text), the 500 of a \<open>catch\<close> block with the
  error it caught, the answer of a \<open>catch\<close> block that sends another status code, or
  nothing at all when an exception escapes the handler.
\<close>

datatype response =
    Success nat
  | ClientError nat string
  | ServerError failure
  | CaughtError nat failure
  | NoResponse

fun status_code :: "response \<Rightarrow> nat option" where
  "status_code (Success c) = Some c"
| "status_code (ClientError c msg) = Some c"
| "status_code (ServerError f) = Some 500"
| "status_code (CaughtError c f) = Some c"
| "status_code NoResponse = None"

text \<open>A JavaScript value bound to a text parameter.\<close>

definition show_int :: "int \<Rightarrow> string" where
  "show_int n = (if n < 0 then CHR ''-'' # show_nat (nat (- n)) else show_nat (nat n))"

fun pg_text_param :: "jsval \<Rightarrow> string option" where
  "pg_text_param JUndefined = None"
| "pg_text_param JNull = None"
| "pg_text_param (JBool b) = Some (if b then ''true'' else ''false'')"
| "pg_text_param (JNum n) = Some (show_int (sint n))"
| "pg_text_param (JStr s) = Some s"

text \<open>A JavaScript value bound to a parameter of a text type (TEXT, VARCHAR): \<open>None\<close> is
  NULL.\<close>

definition pg_param_text :: "jsval \<Rightarrow> failure + string option" where
  "pg_param_text v =
     (case pg_text_param v of
        None \<Rightarrow> Inr None
      | Some s \<Rightarrow> if has_nul s then Inl CharacterNotInRepertoire else Inr (Some s))"

text \<open>
  The database's reading of a text as a BOOLEAN: white space around it is skipped, and
  \<open>true\<close>, \<open>false\<close>, \<open>yes\<close>, \<open>no\<close> and their prefixes, \<open>on\<close>, \<open>off\<close>, \<open>of\<close>,
  \<open>1\<close> and \<open>0\<close> are read without regard to case.
\<close>

definition pg_bool_in :: "string \<Rightarrow> failure + bool" where
  "pg_bool_in s =
     (let w = toLowerCase (rev (dropWhile pg_space (rev (dropWhile pg_space s))))
      in if w \<in> set [''t'', ''tr'', ''tru'', ''true'', ''y'', ''ye'', ''yes'', ''on'', ''1'']
           then Inr True
         else if w \<in> set [''f'', ''fa'', ''fal'', ''fals'', ''false'', ''n'', ''no'', ''of'',
                           ''off'', ''0'']
           then Inr False
         else Inl InvalidTextRepresentation)"

definition pg_param_bool :: "jsval \<Rightarrow> failure + bool option" where
  "pg_param_bool v =
     (case pg_param_text v of
        Inl f \<Rightarrow> Inl f
      | Inr None \<Rightarrow> Inr None
      | Inr (Some s) \<Rightarrow> (case pg_bool_in s of Inl f \<Rightarrow> Inl f | Inr b \<Rightarrow> Inr (Some b)))"

text \<open>Assignment to a VARCHAR(n) column: a longer value is an error unless the excess is
  spaces, which are cut. The statement's parameters are known when it is planned, and the
  error is raised there, before any row or sequence is touched.\<close>

definition pg_varchar :: "nat \<Rightarrow> string \<Rightarrow> failure + string" where
  "pg_varchar n s =
     (if length s \<le> n then Inr s
      else if list_all (\<lambda>c. c = CHR '' '') (drop n s) then Inr (take n s)
      else Inl StringDataRightTruncation)"

text \<open>\<open>s.trim()\<close>\<close>

definition js_trim :: "string \<Rightarrow> string" where
  "js_trim s = rev (dropWhile js_whitespace (rev (dropWhile js_whitespace s)))"

definition topic_statuses :: "string list" where
  "topic_statuses = [''draft'', ''published'', ''archived'']"

text \<open>
  \<open>INSERT INTO topics (title, ..., slug, ..., status, ..., duration_minutes, ...) VALUES
  (...) RETURNING *\<close>, for parameters that have been bound: first the column lengths;
  then the sequence gives the id, and the CHECK on \<open>status\<close>, the primary key and the
  UNIQUE constraint on \<open>slug\<close> are enforced.
\<close>

definition insert_topic :: "string \<Rightarrow> string \<Rightarrow> string option \<Rightarrow> int option \<Rightarrow> db \<Rightarrow> topic outcome" where
  "insert_topic title slug status duration db =
     (case pg_varchar 255 title of Inl f \<Rightarrow> Failed f db | Inr title' \<Rightarrow>
      (case pg_varchar 255 slug of Inl f \<Rightarrow> Failed f db | Inr slug' \<Rightarrow>
      (case (case status of None \<Rightarrow> Inr None
             | Some s \<Rightarrow> (case pg_varchar 20 s of Inl f \<Rightarrow> Inl f | Inr s' \<Rightarrow> Inr (Some s')))
       of Inl f \<Rightarrow> Failed f db | Inr status' \<Rightarrow>
         (let new_id = topics_id_seq db + 1;
              db1 = db\<lparr>topics_id_seq := new_id\<rparr>
          in if (case status' of None \<Rightarrow> False | Some s \<Rightarrow> s \<notin> set topic_statuses)
               then Failed CheckViolation db1
             else if new_id \<in> set (map t_id (topics db1)) then Failed UniqueViolation db1
             else if slug' \<in> set (map t_slug (topics db1)) then Failed UniqueViolation db1
             else
               (let row = \<lparr>t_id = new_id, t_title = title', t_slug = slug', t_status = status',
                           t_duration_minutes = duration, t_published_at = None\<rparr>
                in Done row (db1\<lparr>topics := topics db1 @ [row]\<rparr>))))))"

subsection \<open>POST /api/topics\<close>

text \<open>
  The handler for a body that holds \<open>title\<close>, \<open>status\<close> and \<open>durationMinutes\<close> and no
  other field: the title check, the slug loop and the INSERT inside BEGIN ... COMMIT, with
  ROLLBACK and a 500 when it throws. The parameters are bound in their order (the title,
  the status, the duration) before the statement runs.
  \<^verbatim>\<open>
  const { title, ..., status = 'draft', ..., durationMinutes = 0, ... } = req.body;
  if (!title || title.trim() === '') {
    return res.status(400).json({ success: false, error: 'Title is required' });
  }
  ...
  const baseSlug = generateSlug(title);   // and the loop above
  ...
  await client.query('BEGIN');
  const topicResult = await client.query(`INSERT INTO topics (...) VALUES (...) RETURNING *`,
    [title.trim(), ..., slug, ..., status, ..., parseInt(finalDurationMinutes || 0), ...]);
  ...
  await client.query('COMMIT');
  res.status(201).json({ success: true, data: {...} });
  \<close>
\<close>

record topic_post_body =
  pb_title :: jsval
  pb_status :: jsval
  pb_durationMinutes :: jsval

definition create_topic :: "topic_post_body \<Rightarrow> db \<Rightarrow> response \<times> db" where
  "create_topic body db =
     (if \<not> js_truthy (pb_title body) then (ClientError 400 ''Title is required'', db)
      else case pb_title body of
        JStr title \<Rightarrow>
          if js_trim title = [] then (ClientError 400 ''Title is required'', db)
          else
            (let baseSlug = generateSlug title;
                 slug = slug_loop (map t_slug (topics db)) baseSlug baseSlug 1;
                 status = (if pb_status body = JUndefined then JStr ''draft'' else pb_status body);
                 durationMinutes = (if pb_durationMinutes body = JUndefined then JNum 0
                                    else pb_durationMinutes body)
             in if has_nul (js_trim title) then (ServerError CharacterNotInRepertoire, db)
                else
                  (case pg_param_text status of
                     Inl f \<Rightarrow> (ServerError f, db)
                   | Inr status' \<Rightarrow>
                       (case js_parseInt (js_or durationMinutes (JNum 0)) of
                          None \<Rightarrow> (ServerError InvalidTextRepresentation, db)
                        | Some n \<Rightarrow>
                            (case pg_int_of_number n of
                               Inl f \<Rightarrow> (ServerError f, db)
                             | Inr d \<Rightarrow>
                                 (case insert_topic (js_trim title) slug status' (Some d) db of
                                    Failed f db' \<Rightarrow> (ServerError f, rollback db db')
                                  | Done row db' \<Rightarrow> (Success 201, db'))))))
      | _ \<Rightarrow> (ServerError TypeError, db))"


lemma set_replace_runs: "set (replace_runs P r s) \<subseteq> insert CHR ''-'' {c \<in> set s. \<not> P c}"
  by (induction s arbitrary: r) auto

lemma set_trim_one_hyphen: "set (trim_one_hyphen s) \<subseteq> set s"
proof -
  have a: "set (tl s) \<subseteq> set s" by (cases s) auto
  have b: "\<And>u :: string. set (butlast u) \<subseteq> set u" by (auto dest: in_set_butlastD)
  show ?thesis
    unfolding trim_one_hyphen_def Let_def using a b [of s] b [of "tl s"] by auto
qed

lemma generateSlug_chars:
  "c \<in> set (generateSlug title) \<Longrightarrow> slug_char c \<and> c \<noteq> CHR '' ''"
proof -
  assume c: "c \<in> set (generateSlug title)"
  let ?f = "filter slug_char (toLowerCase title)"
  let ?w = "replace_runs js_whitespace False ?f"
  let ?h = "replace_runs is_hyphen False ?w"
  have hy: "slug_char CHR ''-''" by (simp add: slug_char_def)
  have sp: "js_whitespace CHR '' ''" by (simp add: js_whitespace_def)
  from c have "c \<in> set ?h"
    unfolding generateSlug_def using set_trim_one_hyphen [of ?h] by blast
  then have "c = CHR ''-'' \<or> c \<in> set ?w"
    using set_replace_runs [of is_hyphen False ?w] by blast
  then have "c = CHR ''-'' \<or> (c \<in> set ?f \<and> \<not> js_whitespace c)"
    using set_replace_runs [of js_whitespace False ?f] by blast
  then show ?thesis
  proof
    assume "c = CHR ''-''"
    with hy show ?thesis by simp
  next
    assume "c \<in> set ?f \<and> \<not> js_whitespace c"
    with sp show ?thesis by auto
  qed
qed

lemma set_show_nat: "set (show_nat n) \<subseteq> set ''0123456789''"
proof (induction n rule: show_nat.induct)
  case (1 n)
  have d: "\<And>k. k < 10 \<Longrightarrow> digit_char k \<in> set ''0123456789''"
    unfolding digit_char_def by (rule nth_mem) simp
  show ?case
  proof (cases "n < 10")
    case True
    then show ?thesis using d [of n] by (simp add: show_nat.simps [of n])
  next
    case False
    with 1 have "set (show_nat (n div 10)) \<subseteq> set ''0123456789''" by simp
    moreover have "digit_char (n mod 10) \<in> set ''0123456789''" by (rule d) simp
    ultimately show ?thesis using False by (simp add: show_nat.simps [of n])
  qed
qed

lemma slug_loop_no_space:
  "CHR '' '' \<notin> set (slug_loop taken (generateSlug title) (generateSlug title) c)"
proof -
  let ?b = "generateSlug title"
  have b: "CHR '' '' \<notin> set ?b" using generateSlug_chars [of "CHR '' ''" title] by blast
  have "CHR '' '' \<notin> set ''0123456789''" by simp
  then have n: "\<And>k. CHR '' '' \<notin> set (show_nat k)" using set_show_nat by blast
  have "slug_loop taken ?b ?b c = ?b \<or> (\<exists>k. slug_loop taken ?b ?b c = slug_candidate ?b k)"
    using slug_loop_first_free [of taken ?b ?b c] by blast
  with b n show ?thesis by (auto simp: slug_candidate_def)
qed

lemma pg_varchar_no_space:
  assumes "pg_varchar n s = Inr s'" and "CHR '' '' \<notin> set s"
  shows "s' = s"
proof (cases "length s \<le> n")
  case True
  with assms(1) show ?thesis by (simp add: pg_varchar_def)
next
  case False
  then have "drop n s \<noteq> []" by simp
  then obtain c where c: "c \<in> set (drop n s)" by (cases "drop n s") auto
  then have "c \<in> set s" by (rule in_set_dropD)
  with assms(2) have "c \<noteq> CHR '' ''" by blast
  with c have "\<not> list_all (\<lambda>c. c = CHR '' '') (drop n s)"
    unfolding list_all_iff by blast
  with False have "pg_varchar n s = Inl StringDataRightTruncation"
    by (simp add: pg_varchar_def)
  with assms(1) show ?thesis by simp
qed

lemma insert_topic_Done:
  assumes "insert_topic title slug status duration db = Done row db'"
  shows "topics db' = topics db @ [row] \<and> pg_varchar 255 slug = Inr (t_slug row)
         \<and> t_slug row \<notin> set (map t_slug (topics db))"
  using assms unfolding insert_topic_def Let_def
  by (auto split: sum.splits option.splits if_splits)

lemma insert_topic_Failed:
  "insert_topic title slug status duration db = Failed f db' \<Longrightarrow> topics db' = topics db"
  unfolding insert_topic_def Let_def
  by (auto split: sum.splits option.splits if_splits)

lemma create_topic_created:
  assumes "create_topic body db = (Success 201, db')"
  shows "\<exists>title row. pb_title body = JStr title \<and> topics db' = topics db @ [row]
     \<and> t_slug row = slug_loop (map t_slug (topics db)) (generateSlug title) (generateSlug title) 1"
proof -
  from assms obtain title where t: "pb_title body = JStr title"
    unfolding create_topic_def by (cases "pb_title body") (auto split: if_splits)
  let ?slug = "slug_loop (map t_slug (topics db)) (generateSlug title) (generateSlug title) 1"
  from assms t obtain st d row where "insert_topic (js_trim title) ?slug st d db = Done row db'"
    unfolding create_topic_def Let_def
    by (auto split: if_splits option.splits sum.splits outcome.splits)
  then have "topics db' = topics db @ [row]" "pg_varchar 255 ?slug = Inr (t_slug row)"
    using insert_topic_Done by blast+
  moreover from this have "t_slug row = ?slug"
    using pg_varchar_no_space [OF _ slug_loop_no_space] by blast
  ultimately show ?thesis using t by blast
qed

lemma create_topic_slugs_distinct:
  assumes "create_topic body db = (r, db')" and "distinct (map t_slug (topics db))"
  shows "distinct (map t_slug (topics db'))"
proof -
  have "topics db' = topics db \<or>
      (\<exists>row. topics db' = topics db @ [row] \<and> t_slug row \<notin> set (map t_slug (topics db)))"
    using assms(1) unfolding create_topic_def Let_def
    by (auto split: if_splits option.splits sum.splits outcome.splits jsval.splits
             simp: rollback_def dest: insert_topic_Done insert_topic_Failed)
  with assms(2) show ?thesis by auto
qed

lemma create_topic_twice:
  assumes t: "pb_title body = JStr title"
    and c1: "create_topic body db = (Success 201, db1)"
    and c2: "create_topic body db1 = (Success 201, db2)"
    and f0: "generateSlug title \<notin> set (map t_slug (topics db))"
    and f1: "slug_candidate (generateSlug title) 1 \<notin> set (map t_slug (topics db))"
  shows "map t_slug (topics db2)
       = map t_slug (topics db) @ [generateSlug title, slug_candidate (generateSlug title) 1]"
proof -
  let ?b = "generateSlug title"
  from create_topic_created [OF c1] t obtain row1 where r1: "topics db1 = topics db @ [row1]"
    "t_slug row1 = slug_loop (map t_slug (topics db)) ?b ?b 1" by auto
  from f0 have "t_slug row1 = ?b" unfolding r1(2) by (subst slug_loop.simps) simp
  with r1 have s1: "map t_slug (topics db1) = map t_slug (topics db) @ [?b]" by simp
  from create_topic_created [OF c2] t obtain row2 where r2: "topics db2 = topics db1 @ [row2]"
    "t_slug row2 = slug_loop (map t_slug (topics db1)) ?b ?b 1" by auto
  have ne: "slug_candidate ?b 1 \<noteq> ?b" by (simp add: slug_candidate_def)
  have "slug_loop (map t_slug (topics db1)) ?b ?b 1
      = slug_loop (map t_slug (topics db1)) ?b (slug_candidate ?b 1) (1 + 1)"
    by (subst slug_loop.simps) (simp add: s1)
  also have "\<dots> = slug_candidate ?b 1"
    using f1 ne by (subst slug_loop.simps) (simp add: s1)
  finally have "t_slug row2 = slug_candidate ?b 1" using r2(2) by simp
  with r2 s1 show ?thesis by simp
qed

subsection \<open>Claim C5: slug allocation\<close>

definition ex_db_empty :: db where
  "ex_db_empty = \<lparr>topics = [], topic_modules = [], topic_videos = [],
     topics_id_seq = 0, topic_modules_id_seq = 0, topic_videos_id_seq = 0\<rparr>"

definition ex_post_body :: topic_post_body where
  "ex_post_body = \<lparr>pb_title = JStr ''Intro to  Crypto!'', pb_status = JUndefined,
     pb_durationMinutes = JUndefined\<rparr>"

definition ex_db_one :: db where
  "ex_db_one = \<lparr>topics = [\<lparr>t_id = 1, t_title = ''Intro to  Crypto!'',
       t_slug = ''intro-to-crypto'', t_status = Some ''draft'',
       t_duration_minutes = Some 0, t_published_at = None\<rparr>],
     topic_modules = [], topic_videos = [],
     topics_id_seq = 1, topic_modules_id_seq = 0, topic_videos_id_seq = 0\<rparr>"

definition ex_db_two :: db where
  "ex_db_two = \<lparr>topics = [\<lparr>t_id = 1, t_title = ''Intro to  Crypto!'',
       t_slug = ''intro-to-crypto'', t_status = Some ''draft'',
       t_duration_minutes = Some 0, t_published_at = None\<rparr>,
      \<lparr>t_id = 2, t_title = ''Intro to  Crypto!'',
       t_slug = ''intro-to-crypto-1'', t_status = Some ''draft'',
       t_duration_minutes = Some 0, t_published_at = None\<rparr>],
     topic_modules = [], topic_videos = [],
     topics_id_seq = 2, topic_modules_id_seq = 0, topic_videos_id_seq = 0\<rparr>"

lemmas slug_eval_simps =
  generateSlug_def toLowerCase_def toLowerCase_char_def slug_char_def js_whitespace_def
  is_hyphen_def trim_one_hyphen_def slug_loop.simps slug_candidate_def show_nat.simps
  digit_char_def

lemmas create_topic_eval_simps =
  create_topic_def insert_topic_def js_trim_def js_or_def int4_range_def pg_varchar_def
  pg_param_text_def pg_int_of_number_def has_nul_def topic_statuses_def rollback_def Let_def

lemma ex_create_first: "create_topic ex_post_body ex_db_empty = (Success 201, ex_db_one)"
  by (simp add: ex_post_body_def ex_db_empty_def ex_db_one_def create_topic_eval_simps
      slug_eval_simps)

lemma ex_create_second: "create_topic ex_post_body ex_db_one = (Success 201, ex_db_two)"
  by (simp add: ex_post_body_def ex_db_one_def ex_db_two_def create_topic_eval_simps
      slug_eval_simps)

text \<open>
  Claim C5. (1) \<open>generateSlug\<close> computes the base slug of the specification's wording:
  lowercase, strip what is outside \<open>[a-z0-9 -]\<close>, collapse white space runs to single
  hyphens, collapse repeated hyphens, trim leading and trailing hyphens. (2) The loop ends,
  and its result is not among the slugs in use: it is the base slug when that is free, and
  otherwise the first free one of base-1, base-2, ... (3) A topic that POST /api/topics
  creates is stored under the loop's result, and the slugs of the table stay pairwise
  distinct whatever the request's outcome. (4) Creating two topics with the same title,
  when neither the base slug t nor t-1 is in use before, stores the slugs t and t-1.
\<close>

theorem slug_allocation:
  "generateSlug title = spec_base_slug title
   \<and> slug_loop taken b b 1 \<notin> set taken
   \<and> (slug_loop taken b b 1 = b \<and> b \<notin> set taken
        \<or> (\<exists>k\<ge>1. slug_loop taken b b 1 = slug_candidate b k \<and> b \<in> set taken
              \<and> (\<forall>j. 1 \<le> j \<and> j < k \<longrightarrow> slug_candidate b j \<in> set taken)))
   \<and> (create_topic body db = (Success 201, db') \<longrightarrow>
        (\<exists>t row. pb_title body = JStr t \<and> topics db' = topics db @ [row]
           \<and> t_slug row = slug_loop (map t_slug (topics db)) (generateSlug t) (generateSlug t) 1))
   \<and> (create_topic body db = (r, db') \<and> distinct (map t_slug (topics db)) \<longrightarrow>
        distinct (map t_slug (topics db')))
   \<and> (pb_title body = JStr title
        \<and> create_topic body db = (Success 201, db1)
        \<and> create_topic body db1 = (Success 201, db2)
        \<and> generateSlug title \<notin> set (map t_slug (topics db))
        \<and> slug_candidate (generateSlug title) 1 \<notin> set (map t_slug (topics db)) \<longrightarrow>
        map t_slug (topics db2)
          = map t_slug (topics db) @ [generateSlug title, slug_candidate (generateSlug title) 1])"
proof (intro conjI impI)
  show "generateSlug title = spec_base_slug title"
    by (rule generateSlug_refines_spec)
  show "slug_loop taken b b 1 \<notin> set taken"
    by (rule slug_loop_unused)
  show "slug_loop taken b b 1 = b \<and> b \<notin> set taken
        \<or> (\<exists>k\<ge>1. slug_loop taken b b 1 = slug_candidate b k \<and> b \<in> set taken
              \<and> (\<forall>j. 1 \<le> j \<and> j < k \<longrightarrow> slug_candidate b j \<in> set taken))"
    by (rule slug_loop_first_free)
next
  assume "create_topic body db = (Success 201, db')"
  then show "\<exists>t row. pb_title body = JStr t \<and> topics db' = topics db @ [row]
           \<and> t_slug row = slug_loop (map t_slug (topics db)) (generateSlug t) (generateSlug t) 1"
    by (rule create_topic_created)
next
  assume "create_topic body db = (r, db') \<and> distinct (map t_slug (topics db))"
  then show "distinct (map t_slug (topics db'))"
    using create_topic_slugs_distinct by blast
next
  assume "pb_title body = JStr title
        \<and> create_topic body db = (Success 201, db1)
        \<and> create_topic body db1 = (Success 201, db2)
        \<and> generateSlug title \<notin> set (map t_slug (topics db))
        \<and> slug_candidate (generateSlug title) 1 \<notin> set (map t_slug (topics db))"
  then show "map t_slug (topics db2)
          = map t_slug (topics db) @ [generateSlug title, slug_candidate (generateSlug title) 1]"
    using create_topic_twice by blast
qed

theorem slug_allocation_witness:
  "create_topic ex_post_body ex_db_empty = (Success 201, ex_db_one)
   \<and> create_topic ex_post_body ex_db_one = (Success 201, ex_db_two)
   \<and> generateSlug ''Intro to  Crypto!'' = ''intro-to-crypto''
   \<and> spec_base_slug ''Intro to  Crypto!'' = ''intro-to-crypto''
   \<and> slug_loop [''a'', ''a-1'', ''b''] ''a'' ''a'' 1 = ''a-2''
   \<and> distinct (map t_slug (topics ex_db_two))
   \<and> map t_slug (topics ex_db_two) = [''intro-to-crypto'', ''intro-to-crypto-1'']"
proof -
  have g: "generateSlug ''Intro to  Crypto!'' = ''intro-to-crypto''"
    by (simp add: slug_eval_simps)
  have l: "slug_loop [''a'', ''a-1'', ''b''] ''a'' ''a'' 1 = ''a-2''"
    by (simp add: slug_eval_simps)
  have t: "pb_title ex_post_body = JStr ''Intro to  Crypto!''"
    by (simp add: ex_post_body_def)
  have e: "topics ex_db_empty = []"
    by (simp add: ex_db_empty_def)
  have d: "distinct (map t_slug (topics ex_db_one))"
    by (simp add: ex_db_one_def)
  note inst = slug_allocation [of "''Intro to  Crypto!''" "[''a'', ''a-1'', ''b'']" "''a''"
      ex_post_body ex_db_one ex_db_two "Success 201" ex_db_empty ex_db_two]
  from inst have "spec_base_slug ''Intro to  Crypto!'' = ''intro-to-crypto''"
    using g by simp
  moreover from inst ex_create_second d have "distinct (map t_slug (topics ex_db_two))"
    by blast
  moreover have "map t_slug (topics ex_db_two) = [''intro-to-crypto'', ''intro-to-crypto-1'']"
    by (simp add: ex_db_two_def)
  ultimately show ?thesis
    using ex_create_first ex_create_second g l by simp
qed

section \<open>Categories\<close>

text \<open>
  The \<open>category\<close> and \<open>subcategory\<close> tables after the category migration
  (\<open>description\<close>, \<open>status\<close> and \<open>topics_count\<close> are NOT NULL). The foreign key
  \<open>subcategory.category_id\<close> has no ON DELETE action.
\<close>

record category =
  c_id :: int
  c_name :: string
  c_description :: string
  c_status :: string
  c_topics_count :: int

record subcategory =
  s_id :: int
  s_name :: string
  s_category_id :: "int option"

record cat_db =
  categories :: "category list"
  subcategories :: "subcategory list"

subsection \<open>DELETE /api/categories/:id\<close>

text \<open>
  \<^verbatim>\<open>
  const categoryId = parseInt(req.params.id);
  if (!categoryId || isNaN(categoryId)) {
    return res.status(400).json({ success: false, error: 'Valid category ID is required' });
  }
  try {
    const existingCategory = await req.pool.query(
      'SELECT id, name FROM category WHERE id = $1', [categoryId]);
    if (existingCategory.rows.length === 0) {
      return res.status(404).json({ success: false, error: 'Category not found' });
    }
    const subcategoryCheck = await req.pool.query(
      'SELECT COUNT(*) as count FROM subcategory WHERE category_id = $1', [categoryId]);
    const subcategoryCount = parseInt(subcategoryCheck.rows[0].count);
    if (subcategoryCount > 0) {
      return res.status(400).json({ success: false,
        error: `Cannot delete category. It has ${subcategoryCount} subcategories. Please delete subcategories first.` });
    }
    await req.pool.query('DELETE FROM category WHERE id = $1', [categoryId]);
    res.json({ success: true, message: `Category '${...name}' deleted successfully` });
  } catch (err) { res.status(500).json({ success: false, error: err.message || ... }); }
  \<close>
  A number outside 32 bits makes the first query fail (the 500 of the \<open>catch\<close>): out
  of range when the driver sends its digits, no integer text when it sends an exponent.
\<close>

definition delete_category :: "string \<Rightarrow> cat_db \<Rightarrow> response \<times> cat_db" where
  "delete_category id_param db =
     (case js_parseInt_str id_param of
        None \<Rightarrow> (ClientError 400 ''Valid category ID is required'', db)
      | Some categoryId \<Rightarrow>
          if categoryId = 0 then (ClientError 400 ''Valid category ID is required'', db)
          else if \<not> int4_range categoryId
            then (ServerError (int4_failure categoryId), db)
          else
            (case filter (\<lambda>c. c_id c = categoryId) (categories db) of
               [] \<Rightarrow> (ClientError 404 ''Category not found'', db)
             | existingCategory # _ \<Rightarrow>
                 (let subcategoryCount =
                        length (filter (\<lambda>s. s_category_id s = Some categoryId) (subcategories db))
                  in if subcategoryCount > 0
                     then (ClientError 400
                            (''Cannot delete category. It has '' @ show_nat subcategoryCount
                               @ '' subcategories. Please delete subcategories first.''), db)
                     else (Success 200,
                           db\<lparr>categories := filter (\<lambda>c. c_id c \<noteq> categoryId) (categories db)\<rparr>))))"

subsection \<open>PUT /api/categories/:id\<close>

text \<open>
  \<^verbatim>\<open>
  const categoryId = parseInt(req.params.id);
  const { name, description, status } = req.body;
  if (!categoryId || isNaN(categoryId)) { return res.status(400)... }
  if (!name || name.trim() === '') { return res.status(400)... 'Category name is required' }
  if (!description || description.trim() === '') { return res.status(400)... }
  const validStatuses = ['Active', 'Inactive', 'Draft'];
  const categoryStatus = status && validStatuses.includes(status) ? status : 'Active';
  try {
    const existingCategory = await req.pool.query('SELECT id FROM category WHERE id = $1', [categoryId]);
    if (existingCategory.rows.length === 0) { return res.status(404)... 'Category not found' }
    const result = await req.pool.query(
      'UPDATE category SET name = $1, description = $2, status = $3, updated_at = CURRENT_TIMESTAMP WHERE id = $4 RETURNING *',
      [name.trim(), description.trim(), categoryStatus, categoryId]);
    res.json({ success: true, data: formattedData, message: 'Category updated successfully' });
  } catch (err) { res.status(500)... }
  \<close>
  The three checks stand before the \<open>try\<close>: a \<open>name\<close> or \<open>description\<close> that is
  truthy and not a string throws there, and no response is sent. The UPDATE binds the
  trimmed name and description as texts (\<open>trim\<close> leaves the character 0 where it is),
  and the column \<open>name\<close> is a VARCHAR(50).
\<close>

record category_put_body =
  cb_name :: jsval
  cb_description :: jsval
  cb_status :: jsval

definition validStatuses :: "string list" where
  "validStatuses = [''Active'', ''Inactive'', ''Draft'']"

definition categoryStatus :: "jsval \<Rightarrow> string" where
  "categoryStatus status =
     (case status of
        JStr s \<Rightarrow> if s \<noteq> [] \<and> s \<in> set validStatuses then s else ''Active''
      | _ \<Rightarrow> ''Active'')"

text \<open>\<open>!v || v.trim() === ''\<close> for a required field: \<open>Inr\<close> the string when the test is
  false, \<open>Inl True\<close> when it is true, \<open>Inl False\<close> when \<open>v.trim\<close> is not a function.\<close>

definition required_text :: "jsval \<Rightarrow> bool + string" where
  "required_text v =
     (if \<not> js_truthy v then Inl True
      else case v of JStr s \<Rightarrow> (if js_trim s = [] then Inl True else Inr s) | _ \<Rightarrow> Inl False)"

definition update_category :: "string \<Rightarrow> category_put_body \<Rightarrow> cat_db \<Rightarrow> response \<times> cat_db" where
  "update_category id_param body db =
     (case js_parseInt_str id_param of
        None \<Rightarrow> (ClientError 400 ''Valid category ID is required'', db)
      | Some categoryId \<Rightarrow>
          if categoryId = 0 then (ClientError 400 ''Valid category ID is required'', db)
          else
            (case required_text (cb_name body) of
               Inl missing \<Rightarrow>
                 (if missing then (ClientError 400 ''Category name is required'', db)
                  else (NoResponse, db))
             | Inr name \<Rightarrow>
                 (case required_text (cb_description body) of
                    Inl missing \<Rightarrow>
                      (if missing then (ClientError 400 ''Category description is required'', db)
                       else (NoResponse, db))
                  | Inr description \<Rightarrow>
                      if \<not> int4_range categoryId
                        then (ServerError (int4_failure categoryId), db)
                      else if filter (\<lambda>c. c_id c = categoryId) (categories db) = []
                        then (ClientError 404 ''Category not found'', db)
                      else if has_nul (js_trim name) \<or> has_nul (js_trim description)
                        then (ServerError CharacterNotInRepertoire, db)
                      else
                        (case pg_varchar 50 (js_trim name) of
                           Inl f \<Rightarrow> (ServerError f, db)
                         | Inr name' \<Rightarrow>
                             (Success 200,
                              db\<lparr>categories :=
                                   map (\<lambda>c. if c_id c = categoryId
                                            then c\<lparr>c_name := name',
                                                   c_description := js_trim description,
                                                   c_status := categoryStatus (cb_status body)\<rparr>
                                            else c)
                                       (categories db)\<rparr>)))))"

definition ex_cat_db :: cat_db where
  "ex_cat_db = \<lparr>categories =
       [\<lparr>c_id = 1, c_name = ''Security'', c_description = ''Basics'', c_status = ''Draft'',
          c_topics_count = 2\<rparr>,
        \<lparr>c_id = 2, c_name = ''Networks'', c_description = ''Layers'', c_status = ''Inactive'',
          c_topics_count = 0\<rparr>],
     subcategories =
       [\<lparr>s_id = 1, s_name = ''Passwords'', s_category_id = Some 1\<rparr>,
        \<lparr>s_id = 2, s_name = ''Phishing'', s_category_id = Some 1\<rparr>]\<rparr>"

lemma delete_category_blocked:
  assumes "js_parseInt_str id_param = Some cid" and "cid \<noteq> 0" and "int4_range cid"
    and "filter (\<lambda>c. c_id c = cid) (categories db) \<noteq> []"
    and "n = length (filter (\<lambda>s. s_category_id s = Some cid) (subcategories db))"
    and "1 \<le> n"
  shows "delete_category id_param db
          = (ClientError 400 (''Cannot delete category. It has '' @ show_nat n
               @ '' subcategories. Please delete subcategories first.''), db)"
proof -
  from assms(4) obtain e es where "filter (\<lambda>c. c_id c = cid) (categories db) = e # es"
    by (cases "filter (\<lambda>c. c_id c = cid) (categories db)") auto
  moreover from assms(5,6)
  have "filter (\<lambda>s. s_category_id s = Some cid) (subcategories db) \<noteq> []" by auto
  ultimately show ?thesis
    using assms(1,2,3,5) by (simp add: delete_category_def Let_def)
qed

lemma delete_category_proceeds:
  assumes "js_parseInt_str id_param = Some cid" and "cid \<noteq> 0" and "int4_range cid"
    and "filter (\<lambda>c. c_id c = cid) (categories db) \<noteq> []"
    and "filter (\<lambda>s. s_category_id s = Some cid) (subcategories db) = []"
  shows "delete_category id_param db
          = (Success 200, db\<lparr>categories := filter (\<lambda>c. c_id c \<noteq> cid) (categories db)\<rparr>)"
proof -
  from assms(4) obtain e es where "filter (\<lambda>c. c_id c = cid) (categories db) = e # es"
    by (cases "filter (\<lambda>c. c_id c = cid) (categories db)") auto
  then show ?thesis
    using assms(1,2,3,5) by (simp add: delete_category_def Let_def)
qed

lemma delete_category_only_without_subcategories:
  assumes "delete_category id_param db = (r, db')" and "categories db' \<noteq> categories db"
  shows "r = Success 200
        \<and> (\<exists>cid. js_parseInt_str id_param = Some cid
              \<and> filter (\<lambda>s. s_category_id s = Some cid) (subcategories db) = []
              \<and> categories db' = filter (\<lambda>c. c_id c \<noteq> cid) (categories db))"
proof (cases "js_parseInt_str id_param")
  case None
  with assms show ?thesis by (simp add: delete_category_def)
next
  case (Some cid)
  have unchanged: "delete_category id_param db = (x, db) \<Longrightarrow> False" for x
    using assms by simp
  show ?thesis
  proof (cases "cid = 0")
    case True
    with Some show ?thesis using unchanged by (simp add: delete_category_def)
  next
    case nz: False
    show ?thesis
    proof (cases "int4_range cid")
      case False
      with Some nz show ?thesis using unchanged by (simp add: delete_category_def)
    next
      case rng: True
      show ?thesis
      proof (cases "filter (\<lambda>c. c_id c = cid) (categories db) = []")
        case True
        with Some nz rng show ?thesis using unchanged by (simp add: delete_category_def)
      next
        case ex: False
        show ?thesis
        proof (cases "filter (\<lambda>s. s_category_id s = Some cid) (subcategories db) = []")
          case True
          with Some nz rng ex have "delete_category id_param db
              = (Success 200, db\<lparr>categories := filter (\<lambda>c. c_id c \<noteq> cid) (categories db)\<rparr>)"
            by (intro delete_category_proceeds)
          with assms Some True show ?thesis by auto
        next
          case False
          then have "1 \<le> length (filter (\<lambda>s. s_category_id s = Some cid) (subcategories db))"
            by (simp add: Suc_le_eq)
          with Some nz rng ex show ?thesis
            using unchanged delete_category_blocked [OF Some nz rng ex refl] by blast
        qed
      qed
    qed
  qed
qed

text \<open>
  Claim C7. When the category exists and \<open>n \<ge> 1\<close> subcategory rows point to it, the
  answer is 400 with the message that names \<open>n\<close>, and the database is unchanged. Whenever
  the handler changes the category table, no subcategory row pointed to the category, the
  answer is 200, and exactly the rows of that id are gone. With an existing category and no
  subcategory the deletion takes place.
\<close>

theorem delete_category_guard:
  "(js_parseInt_str id_param = Some cid \<and> cid \<noteq> 0 \<and> int4_range cid
      \<and> filter (\<lambda>c. c_id c = cid) (categories db) \<noteq> []
      \<and> n = length (filter (\<lambda>s. s_category_id s = Some cid) (subcategories db))
      \<and> 1 \<le> n
    \<longrightarrow> delete_category id_param db
          = (ClientError 400 (''Cannot delete category. It has '' @ show_nat n
               @ '' subcategories. Please delete subcategories first.''), db))
   \<and> (delete_category id_param db = (r, db') \<and> categories db' \<noteq> categories db
    \<longrightarrow> r = Success 200
        \<and> (\<exists>cid. js_parseInt_str id_param = Some cid
              \<and> filter (\<lambda>s. s_category_id s = Some cid) (subcategories db) = []
              \<and> categories db' = filter (\<lambda>c. c_id c \<noteq> cid) (categories db)))
   \<and> (js_parseInt_str id_param = Some cid \<and> cid \<noteq> 0 \<and> int4_range cid
      \<and> filter (\<lambda>c. c_id c = cid) (categories db) \<noteq> []
      \<and> filter (\<lambda>s. s_category_id s = Some cid) (subcategories db) = []
    \<longrightarrow> delete_category id_param db
          = (Success 200, db\<lparr>categories := filter (\<lambda>c. c_id c \<noteq> cid) (categories db)\<rparr>))"
  using delete_category_blocked [of id_param cid db n]
        delete_category_proceeds [of id_param cid db]
        delete_category_only_without_subcategories [of id_param db r db']
  by blast

lemmas parse_eval_simps =
  js_parseInt_str_def js_whitespace_def digit_val_def hex_val_def digits_value_def
  int4_range_def pg_int4_in_def pg_space_def has_nul_def Let_def

theorem delete_category_guard_witness:
  "delete_category ''1'' ex_cat_db
     = (ClientError 400
          ''Cannot delete category. It has 2 subcategories. Please delete subcategories first.'',
        ex_cat_db)
   \<and> categories (snd (delete_category ''1'' ex_cat_db)) = categories ex_cat_db
   \<and> delete_category ''2'' ex_cat_db
     = (Success 200, ex_cat_db\<lparr>categories := filter (\<lambda>c. c_id c \<noteq> 2) (categories ex_cat_db)\<rparr>)"
proof -
  have p1: "js_parseInt_str ''1'' = Some 1" and p2: "js_parseInt_str ''2'' = Some 2"
    by (simp_all add: parse_eval_simps)
  have r: "int4_range 1" "int4_range 2" by (simp_all add: int4_range_def)
  have e1: "filter (\<lambda>c. c_id c = 1) (categories ex_cat_db) \<noteq> []"
    and e2: "filter (\<lambda>c. c_id c = 2) (categories ex_cat_db) \<noteq> []"
    by (simp_all add: ex_cat_db_def)
  have n1: "length (filter (\<lambda>s. s_category_id s = Some 1) (subcategories ex_cat_db)) = 2"
    and n2: "filter (\<lambda>s. s_category_id s = Some 2) (subcategories ex_cat_db) = []"
    by (simp_all add: ex_cat_db_def)
  have s: "show_nat 2 = ''2''" by (simp add: show_nat.simps digit_char_def)
  have z: "(1::int) \<noteq> 0" "(2::int) \<noteq> 0" "(1::nat) \<le> 2" by simp_all
  have "delete_category ''1'' ex_cat_db
     = (ClientError 400 (''Cannot delete category. It has '' @ show_nat 2
               @ '' subcategories. Please delete subcategories first.''), ex_cat_db)"
    using delete_category_guard [of "''1''" 1 ex_cat_db 2 "Success 200" ex_cat_db]
      p1 r(1) e1 n1 [symmetric] z by blast
  then have a: "delete_category ''1'' ex_cat_db
     = (ClientError 400
          ''Cannot delete category. It has 2 subcategories. Please delete subcategories first.'',
        ex_cat_db)" by (simp add: s)
  have b: "delete_category ''2'' ex_cat_db
     = (Success 200, ex_cat_db\<lparr>categories := filter (\<lambda>c. c_id c \<noteq> 2) (categories ex_cat_db)\<rparr>)"
    using delete_category_guard [of "''2''" 2 ex_cat_db 0 "Success 200" ex_cat_db]
      p2 r(2) e2 n2 z by blast
  from a b show ?thesis by simp
qed

lemma categoryStatus_default:
  "(\<And>s. status = JStr s \<Longrightarrow> s \<notin> set validStatuses) \<Longrightarrow> categoryStatus status = ''Active''"
  by (cases status) (simp_all add: categoryStatus_def)

lemma update_category_ok:
  assumes "js_parseInt_str id_param = Some cid" and "cid \<noteq> 0" and "int4_range cid"
    and "cb_name body = JStr name" and "js_trim name \<noteq> []"
    and "cb_description body = JStr description" and "js_trim description \<noteq> []"
    and "filter (\<lambda>c. c_id c = cid) (categories db) \<noteq> []"
    and "length (js_trim name) \<le> 50"
    and "\<not> has_nul (js_trim name)" and "\<not> has_nul (js_trim description)"
  shows "update_category id_param body db
       = (Success 200,
          db\<lparr>categories :=
               map (\<lambda>c. if c_id c = cid
                        then c\<lparr>c_name := js_trim name, c_description := js_trim description,
                               c_status := categoryStatus (cb_status body)\<rparr>
                        else c)
                   (categories db)\<rparr>)"
proof -
  from assms(5) have "name \<noteq> []" by (auto simp: js_trim_def)
  with assms(4,5) have n: "required_text (cb_name body) = Inr name"
    by (simp add: required_text_def)
  from assms(7) have "description \<noteq> []" by (auto simp: js_trim_def)
  with assms(6,7) have d: "required_text (cb_description body) = Inr description"
    by (simp add: required_text_def)
  from assms(9) have v: "pg_varchar 50 (js_trim name) = Inr (js_trim name)"
    by (simp add: pg_varchar_def)
  show ?thesis
    using assms(1,2,3,8,10,11) n d v by (simp add: update_category_def)
qed

lemma update_category_Success:
  assumes "update_category id_param body db = (Success c, db')"
  shows "\<exists>cid name description.
       js_parseInt_str id_param = Some cid
     \<and> cb_name body = JStr name \<and> cb_description body = JStr description
     \<and> db' = db\<lparr>categories :=
               map (\<lambda>c. if c_id c = cid
                        then c\<lparr>c_name := js_trim name, c_description := js_trim description,
                               c_status := categoryStatus (cb_status body)\<rparr>
                        else c)
                   (categories db)\<rparr>"
proof -
  from assms obtain cid where p: "js_parseInt_str id_param = Some cid"
    by (cases "js_parseInt_str id_param") (auto simp add: update_category_def)
  from assms p obtain name where n: "required_text (cb_name body) = Inr name"
    by (cases "required_text (cb_name body)")
       (auto simp add: update_category_def split: if_splits)
  from assms p n obtain description where
    d: "required_text (cb_description body) = Inr description"
    by (cases "required_text (cb_description body)")
       (auto simp add: update_category_def split: if_splits)
  from n have n': "cb_name body = JStr name"
    by (cases "cb_name body") (auto simp add: required_text_def split: if_splits)
  from d have d': "cb_description body = JStr description"
    by (cases "cb_description body") (auto simp add: required_text_def split: if_splits)
  have u: "update_category id_param body db =
      (if cid = 0 then (ClientError 400 ''Valid category ID is required'', db)
       else if \<not> int4_range cid then (ServerError (int4_failure cid), db)
       else if filter (\<lambda>c. c_id c = cid) (categories db) = []
         then (ClientError 404 ''Category not found'', db)
       else if has_nul (js_trim name) \<or> has_nul (js_trim description)
         then (ServerError CharacterNotInRepertoire, db)
       else
         (case pg_varchar 50 (js_trim name) of
            Inl f \<Rightarrow> (ServerError f, db)
          | Inr name' \<Rightarrow>
              (Success 200,
               db\<lparr>categories :=
                    map (\<lambda>c. if c_id c = cid
                             then c\<lparr>c_name := name', c_description := js_trim description,
                                    c_status := categoryStatus (cb_status body)\<rparr>
                             else c)
                        (categories db)\<rparr>)))"
    by (simp add: update_category_def p n d)
  have "\<exists>name'. pg_varchar 50 (js_trim name) = Inr name'
     \<and> db' = db\<lparr>categories :=
               map (\<lambda>c. if c_id c = cid
                        then c\<lparr>c_name := name', c_description := js_trim description,
                               c_status := categoryStatus (cb_status body)\<rparr>
                        else c)
                   (categories db)\<rparr>"
  proof (cases "pg_varchar 50 (js_trim name)")
    case (Inl f)
    with assms u show ?thesis by (simp split: if_splits)
  next
    case (Inr name')
    with assms u show ?thesis by (simp split: if_splits)
  qed
  then obtain name' where v: "pg_varchar 50 (js_trim name) = Inr name'"
    and r: "db' = db\<lparr>categories :=
               map (\<lambda>c. if c_id c = cid
                        then c\<lparr>c_name := name', c_description := js_trim description,
                               c_status := categoryStatus (cb_status body)\<rparr>
                        else c)
                   (categories db)\<rparr>" by blast
  have "name' = js_trim name"
  proof (cases "length (js_trim name) \<le> 50")
    case True
    with v show ?thesis by (simp add: pg_varchar_def)
  next
    case False
    then have ne: "drop 50 (js_trim name) \<noteq> []" by simp
    have tr: "js_trim name \<noteq> []" using False by auto
    have "rev (js_trim name) = dropWhile js_whitespace (rev (dropWhile js_whitespace name))"
      by (simp add: js_trim_def)
    with tr have "\<not> js_whitespace (hd (rev (js_trim name)))"
      by (metis hd_dropWhile rev_is_Nil_conv)
    with tr have l: "\<not> js_whitespace (last (js_trim name))"
      by (simp add: hd_rev)
    have sp: "js_whitespace CHR '' ''" by (simp add: js_whitespace_def)
    from ne have "last (drop 50 (js_trim name)) = last (js_trim name)"
      by (simp add: last_drop)
    with l sp have "last (drop 50 (js_trim name)) \<noteq> CHR '' ''" by auto
    moreover from ne have "last (drop 50 (js_trim name)) \<in> set (drop 50 (js_trim name))"
      by (rule last_in_set)
    ultimately have "\<not> list_all (\<lambda>c. c = CHR '' '') (drop 50 (js_trim name))"
      unfolding list_all_iff by blast
    with False v show ?thesis by (simp add: pg_varchar_def)
  qed
  with p n' d' r show ?thesis by blast
qed

text \<open>
  Claim C10. For a request that passes the checks and that the database accepts (a
  numeric non-zero id of an existing category, a non-blank name of at most 50 characters
  and a non-blank description, neither holding the character 0) and whose \<open>status\<close> is
  absent or anything but one of the three valid strings, the UPDATE stores \<open>'Active'\<close>:
  every row of that id has status \<open>'Active'\<close> afterwards, whatever it held before. And
  whenever such a request is answered 200, every row of that id has status \<open>'Active'\<close>.
\<close>

theorem update_category_resets_status:
  "(js_parseInt_str id_param = Some cid \<and> cid \<noteq> 0 \<and> int4_range cid
    \<and> cb_name body = JStr name \<and> js_trim name \<noteq> []
    \<and> cb_description body = JStr description \<and> js_trim description \<noteq> []
    \<and> filter (\<lambda>c. c_id c = cid) (categories db) \<noteq> []
    \<and> length (js_trim name) \<le> 50
    \<and> \<not> has_nul (js_trim name) \<and> \<not> has_nul (js_trim description)
    \<and> (\<forall>s. cb_status body = JStr s \<longrightarrow> s \<notin> set validStatuses)
    \<longrightarrow> update_category id_param body db
        = (Success 200,
           db\<lparr>categories :=
                map (\<lambda>c. if c_id c = cid
                         then c\<lparr>c_name := js_trim name, c_description := js_trim description,
                                c_status := ''Active''\<rparr>
                         else c)
                    (categories db)\<rparr>)
      \<and> (\<forall>c \<in> set (categories (snd (update_category id_param body db))).
            c_id c = cid \<longrightarrow> c_status c = ''Active''))
   \<and> (update_category id_param body db = (Success 200, db')
      \<and> js_parseInt_str id_param = Some cid
      \<and> (\<forall>s. cb_status body = JStr s \<longrightarrow> s \<notin> set validStatuses)
    \<longrightarrow> (\<forall>c \<in> set (categories db'). c_id c = cid \<longrightarrow> c_status c = ''Active''))"
proof (intro conjI impI)
  assume "js_parseInt_str id_param = Some cid \<and> cid \<noteq> 0 \<and> int4_range cid
    \<and> cb_name body = JStr name \<and> js_trim name \<noteq> []
    \<and> cb_description body = JStr description \<and> js_trim description \<noteq> []
    \<and> filter (\<lambda>c. c_id c = cid) (categories db) \<noteq> []
    \<and> length (js_trim name) \<le> 50
    \<and> \<not> has_nul (js_trim name) \<and> \<not> has_nul (js_trim description)
    \<and> (\<forall>s. cb_status body = JStr s \<longrightarrow> s \<notin> set validStatuses)"
  then have a: "js_parseInt_str id_param = Some cid" "cid \<noteq> 0" "int4_range cid"
    "cb_name body = JStr name" "js_trim name \<noteq> []"
    "cb_description body = JStr description" "js_trim description \<noteq> []"
    "filter (\<lambda>c. c_id c = cid) (categories db) \<noteq> []"
    "length (js_trim name) \<le> 50"
    "\<not> has_nul (js_trim name)" "\<not> has_nul (js_trim description)"
    and st: "\<forall>s. cb_status body = JStr s \<longrightarrow> s \<notin> set validStatuses"
    by blast+
  from st have "categoryStatus (cb_status body) = ''Active''"
    by (intro categoryStatus_default) blast
  with update_category_ok [OF a]
  have eq: "update_category id_param body db
       = (Success 200,
          db\<lparr>categories :=
               map (\<lambda>c. if c_id c = cid
                        then c\<lparr>c_name := js_trim name, c_description := js_trim description,
                               c_status := ''Active''\<rparr>
                        else c)
                   (categories db)\<rparr>)" by simp
  then show "update_category id_param body db
       = (Success 200,
          db\<lparr>categories :=
               map (\<lambda>c. if c_id c = cid
                        then c\<lparr>c_name := js_trim name, c_description := js_trim description,
                               c_status := ''Active''\<rparr>
                        else c)
                   (categories db)\<rparr>)" .
  show "\<forall>c \<in> set (categories (snd (update_category id_param body db))).
           c_id c = cid \<longrightarrow> c_status c = ''Active''"
  proof (intro ballI impI)
    fix c
    define f where "f = (\<lambda>x :: category. if c_id x = cid
            then x\<lparr>c_name := js_trim name, c_description := js_trim description,
                   c_status := ''Active''\<rparr>
            else x)"
    assume "c \<in> set (categories (snd (update_category id_param body db)))"
      and c: "c_id c = cid"
    then have "c \<in> f ` set (categories db)"
      unfolding eq f_def by simp
    then obtain x where x: "c = f x" by (rule imageE)
    show "c_status c = ''Active''"
    proof (cases "c_id x = cid")
      case True
      with x show ?thesis by (simp add: f_def)
    next
      case False
      with x c show ?thesis by (simp add: f_def)
    qed
  qed
next
  assume "update_category id_param body db = (Success 200, db')
      \<and> js_parseInt_str id_param = Some cid
      \<and> (\<forall>s. cb_status body = JStr s \<longrightarrow> s \<notin> set validStatuses)"
  then have u: "update_category id_param body db = (Success 200, db')"
    and p: "js_parseInt_str id_param = Some cid"
    and st: "\<forall>s. cb_status body = JStr s \<longrightarrow> s \<notin> set validStatuses" by blast+
  from st have s: "categoryStatus (cb_status body) = ''Active''"
    by (intro categoryStatus_default) blast
  from update_category_Success [OF u] p obtain name description where
    r: "db' = db\<lparr>categories :=
               map (\<lambda>c. if c_id c = cid
                        then c\<lparr>c_name := js_trim name, c_description := js_trim description,
                               c_status := categoryStatus (cb_status body)\<rparr>
                        else c)
                   (categories db)\<rparr>" by auto
  show "\<forall>c \<in> set (categories db'). c_id c = cid \<longrightarrow> c_status c = ''Active''"
  proof (intro ballI impI)
    fix c
    define f where "f = (\<lambda>x :: category. if c_id x = cid
            then x\<lparr>c_name := js_trim name, c_description := js_trim description,
                   c_status := ''Active''\<rparr>
            else x)"
    assume "c \<in> set (categories db')" and c: "c_id c = cid"
    then have "c \<in> f ` set (categories db)"
      unfolding r s f_def by simp
    then obtain x where x: "c = f x" by (rule imageE)
    show "c_status c = ''Active''"
    proof (cases "c_id x = cid")
      case True
      with x show ?thesis by (simp add: f_def)
    next
      case False
      with x c show ?thesis by (simp add: f_def)
    qed
  qed
qed

definition ex_cat_body :: category_put_body where
  "ex_cat_body = \<lparr>cb_name = JStr ''Networks'', cb_description = JStr ''Layers and protocols'',
     cb_status = JUndefined\<rparr>"

theorem update_category_resets_status_witness:
  "map c_status (categories ex_cat_db) = [''Draft'', ''Inactive'']
   \<and> update_category ''2'' ex_cat_body ex_cat_db
      = (Success 200,
         ex_cat_db\<lparr>categories :=
           [\<lparr>c_id = 1, c_name = ''Security'', c_description = ''Basics'', c_status = ''Draft'',
              c_topics_count = 2\<rparr>,
            \<lparr>c_id = 2, c_name = ''Networks'', c_description = ''Layers and protocols'',
              c_status = ''Active'', c_topics_count = 0\<rparr>]\<rparr>)
   \<and> update_category ''1'' (ex_cat_body\<lparr>cb_status := JStr ''archived''\<rparr>) ex_cat_db
      = (Success 200,
         ex_cat_db\<lparr>categories :=
           [\<lparr>c_id = 1, c_name = ''Networks'', c_description = ''Layers and protocols'',
              c_status = ''Active'', c_topics_count = 2\<rparr>,
            \<lparr>c_id = 2, c_name = ''Networks'', c_description = ''Layers'', c_status = ''Inactive'',
              c_topics_count = 0\<rparr>]\<rparr>)
   \<and> map c_status (filter (\<lambda>c. c_id c = 2)
         (categories (snd (update_category ''2'' ex_cat_body ex_cat_db)))) = [''Active'']"
proof -
  have p: "js_parseInt_str ''2'' = Some 2" "js_parseInt_str ''1'' = Some 1"
    by (simp_all add: parse_eval_simps)
  have r: "int4_range 2" "int4_range 1" by (simp_all add: int4_range_def)
  have t: "js_trim ''Networks'' = ''Networks''"
    "js_trim ''Layers and protocols'' = ''Layers and protocols''"
    by (simp_all add: js_trim_def js_whitespace_def)
  have e: "filter (\<lambda>c. c_id c = 2) (categories ex_cat_db) \<noteq> []"
    "filter (\<lambda>c. c_id c = 1) (categories ex_cat_db) \<noteq> []"
    by (simp_all add: ex_cat_db_def)
  have v: "''archived'' \<notin> set validStatuses" by (simp add: validStatuses_def)
  have z: "(2::int) \<noteq> 0" "(1::int) \<noteq> 0" by simp_all
  have l: "length ''Networks'' \<le> 50" by simp
  have nn: "\<not> has_nul ''Networks''" "\<not> has_nul ''Layers and protocols''"
    by (simp_all add: has_nul_def)
  have n: "cb_name ex_cat_body = JStr ''Networks''"
    "cb_description ex_cat_body = JStr ''Layers and protocols''"
    "\<forall>s. cb_status ex_cat_body = JStr s \<longrightarrow> s \<notin> set validStatuses"
    by (simp_all add: ex_cat_body_def)
  have n': "cb_name (ex_cat_body\<lparr>cb_status := JStr ''archived''\<rparr>) = JStr ''Networks''"
    "cb_description (ex_cat_body\<lparr>cb_status := JStr ''archived''\<rparr>) = JStr ''Layers and protocols''"
    "\<forall>s. cb_status (ex_cat_body\<lparr>cb_status := JStr ''archived''\<rparr>) = JStr s
         \<longrightarrow> s \<notin> set validStatuses"
    using v by (simp_all add: ex_cat_body_def)
  have ne: "''Networks'' \<noteq> []" "''Layers and protocols'' \<noteq> []" by simp_all
  have "update_category ''2'' ex_cat_body ex_cat_db
       = (Success 200,
          ex_cat_db\<lparr>categories :=
               map (\<lambda>c. if c_id c = 2
                        then c\<lparr>c_name := js_trim ''Networks'',
                               c_description := js_trim ''Layers and protocols'',
                               c_status := ''Active''\<rparr>
                        else c)
                   (categories ex_cat_db)\<rparr>)"
    using update_category_resets_status [of "''2''" 2 ex_cat_body "''Networks''"
      "''Layers and protocols''" ex_cat_db ex_cat_db] p(1) r(1) e(1) z(1) n l ne nn
    unfolding t by blast
  then have a: "update_category ''2'' ex_cat_body ex_cat_db
      = (Success 200,
         ex_cat_db\<lparr>categories :=
           [\<lparr>c_id = 1, c_name = ''Security'', c_description = ''Basics'', c_status = ''Draft'',
              c_topics_count = 2\<rparr>,
            \<lparr>c_id = 2, c_name = ''Networks'', c_description = ''Layers and protocols'',
              c_status = ''Active'', c_topics_count = 0\<rparr>]\<rparr>)"
    by (simp add: ex_cat_db_def t)
  have "update_category ''1'' (ex_cat_body\<lparr>cb_status := JStr ''archived''\<rparr>) ex_cat_db
       = (Success 200,
          ex_cat_db\<lparr>categories :=
               map (\<lambda>c. if c_id c = 1
                        then c\<lparr>c_name := js_trim ''Networks'',
                               c_description := js_trim ''Layers and protocols'',
                               c_status := ''Active''\<rparr>
                        else c)
                   (categories ex_cat_db)\<rparr>)"
    using update_category_resets_status [of "''1''" 1
      "ex_cat_body\<lparr>cb_status := JStr ''archived''\<rparr>" "''Networks''"
      "''Layers and protocols''" ex_cat_db ex_cat_db] p(2) r(2) e(2) z(2) n' l ne nn
    unfolding t by blast
  then have b: "update_category ''1'' (ex_cat_body\<lparr>cb_status := JStr ''archived''\<rparr>) ex_cat_db
      = (Success 200,
         ex_cat_db\<lparr>categories :=
           [\<lparr>c_id = 1, c_name = ''Networks'', c_description = ''Layers and protocols'',
              c_status = ''Active'', c_topics_count = 2\<rparr>,
            \<lparr>c_id = 2, c_name = ''Networks'', c_description = ''Layers'', c_status = ''Inactive'',
              c_topics_count = 0\<rparr>]\<rparr>)"
    by (simp add: ex_cat_db_def t)
  have c: "map c_status (categories ex_cat_db) = [''Draft'', ''Inactive'']"
    by (simp add: ex_cat_db_def)
  let ?after = "ex_cat_db\<lparr>categories :=
           [\<lparr>c_id = 1, c_name = ''Security'', c_description = ''Basics'', c_status = ''Draft'',
              c_topics_count = 2\<rparr>,
            \<lparr>c_id = 2, c_name = ''Networks'', c_description = ''Layers and protocols'',
              c_status = ''Active'', c_topics_count = 0\<rparr>]\<rparr>"
  let ?row = "\<lparr>c_id = 2, c_name = ''Networks'', c_description = ''Layers and protocols'',
              c_status = ''Active'', c_topics_count = 0\<rparr>"
  from update_category_resets_status [of "''2''" 2 ex_cat_body "''Networks''"
      "''Layers and protocols''" ex_cat_db ?after] a p(1) n(3)
  have all: "\<forall>c \<in> set (categories ?after). c_id c = 2 \<longrightarrow> c_status c = ''Active''"
    by blast
  have "?row \<in> set (categories ?after)" by simp
  from bspec [OF all this] have "c_status ?row = ''Active''" by simp
  then have d: "map c_status (filter (\<lambda>c. c_id c = 2) (categories ?after)) = [''Active'']"
    by simp
  from a d have d': "map c_status (filter (\<lambda>c. c_id c = 2)
         (categories (snd (update_category ''2'' ex_cat_body ex_cat_db)))) = [''Active'']"
    by simp
  from a b c d' show ?thesis by (intro conjI)
qed

section \<open>Topic actions\<close>

subsection \<open>POST /api/topics/:id/publish\<close>

text \<open>
  \<^verbatim>\<open>
  const { id } = req.params;
  const result = await req.pool.query(`
    UPDATE topics
    SET status = 'published', published_at = CURRENT_TIMESTAMP, updated_at = CURRENT_TIMESTAMP
    WHERE id = $1 AND status != 'published'
    RETURNING id, status, published_at, updated_at
  `, [id]);
  if (result.rows.length === 0) {
    return res.status(404).json({ success: false, error: 'Topic not found or already published' });
  }
  res.json({ success: true, data: {...} });
  \<close>
  The comparison \<open>status != 'published'\<close> is NULL, not true, on a row whose status is
  NULL. \<open>now\<close> is the value of CURRENT_TIMESTAMP.
\<close>

definition publishable :: "int \<Rightarrow> topic \<Rightarrow> bool" where
  "publishable tid t =
     (t_id t = tid \<and> (case t_status t of None \<Rightarrow> False | Some s \<Rightarrow> s \<noteq> ''published''))"

definition publish_topic :: "nat \<Rightarrow> string \<Rightarrow> db \<Rightarrow> response \<times> db" where
  "publish_topic now id_param db =
     (case pg_int4_in id_param of
        Inl f \<Rightarrow> (ServerError f, db)
      | Inr tid \<Rightarrow>
          if filter (publishable tid) (topics db) = []
          then (ClientError 404 ''Topic not found or already published'', db)
          else (Success 200,
                db\<lparr>topics :=
                     map (\<lambda>t. if publishable tid t
                              then t\<lparr>t_status := Some ''published'', t_published_at := Some now\<rparr>
                              else t)
                         (topics db)\<rparr>))"

subsection \<open>POST /api/topics/:id/duplicate\<close>

text \<open>
  The statement text of the INSERT names the parameters \<open>$1\<close> to \<open>$7\<close> and \<open>$9\<close> to
  \<open>$17\<close>; the array holds sixteen values.
  \<^verbatim>\<open>
  const result = await req.pool.query(`
    INSERT INTO topics (
      title, description, content, slug, category_id, subcategory_id,
      difficulty, status, is_featured, is_free, price, duration_minutes,
      thumbnail_url, tags, meta_title, meta_description, meta_keywords, author_id
    ) VALUES (
      $1, $2, $3, $4, $5, $6, $7, 'draft', false, $9, $10, $11, $12, $13, $14, $15, $16, $17
    ) RETURNING *
  `, [ newTitle, topic.description, topic.content, newSlug, topic.category_id,
       topic.subcategory_id, topic.difficulty, topic.is_free, topic.price,
       topic.duration_minutes, topic.thumbnail_url, topic.tags, topic.meta_title,
       topic.meta_description, topic.meta_keywords, topic.author_id ]);
  \<close>
\<close>

definition duplicate_placeholders :: "nat list" where
  "duplicate_placeholders = [1, 2, 3, 4, 5, 6, 7, 9, 10, 11, 12, 13, 14, 15, 16, 17]"

definition duplicate_params :: "string list" where
  "duplicate_params =
     [''newTitle'', ''topic.description'', ''topic.content'', ''newSlug'', ''topic.category_id'',
      ''topic.subcategory_id'', ''topic.difficulty'', ''topic.is_free'', ''topic.price'',
      ''topic.duration_minutes'', ''topic.thumbnail_url'', ''topic.tags'', ''topic.meta_title'',
      ''topic.meta_description'', ''topic.meta_keywords'', ''topic.author_id'']"

text \<open>
  What the database does with a parameterised statement sent without parameter types: the
  statement has as many parameters as its highest \<open>$n\<close>; the type of each is inferred
  from its use, so a number below the highest that the text never uses is an error; and the
  values bound must be as many as the parameters.
\<close>

definition pg_prepare_bind :: "nat list \<Rightarrow> nat \<Rightarrow> failure option" where
  "pg_prepare_bind placeholders n_values =
     (let n_params = fold max placeholders 0
      in if list_ex (\<lambda>k. k \<notin> set placeholders) [1 ..< Suc n_params]
           then Some IndeterminateDatatype
         else if n_values \<noteq> n_params then Some BindParameterMismatch
         else None)"

text \<open>
  The handler: the original is read (404 when there is none), the copy's slug is allocated
  as for a new topic, and the INSERT is sent. Were the statement accepted, it would store
  the copy as a draft.
\<close>

definition duplicate_topic :: "string \<Rightarrow> db \<Rightarrow> response \<times> db" where
  "duplicate_topic id_param db =
     (case pg_int4_in id_param of
        Inl f \<Rightarrow> (ServerError f, db)
      | Inr tid \<Rightarrow>
          (case filter (\<lambda>t. t_id t = tid) (topics db) of
             [] \<Rightarrow> (ClientError 404 ''Topic not found'', db)
           | topic # _ \<Rightarrow>
               (let newTitle = t_title topic @ '' (Copy)'';
                    baseSlug = generateSlug newTitle;
                    newSlug = slug_loop (map t_slug (topics db)) baseSlug baseSlug 1
                in case pg_prepare_bind duplicate_placeholders (length duplicate_params) of
                     Some f \<Rightarrow> (ServerError f, db)
                   | None \<Rightarrow>
                       (case insert_topic newTitle newSlug (Some ''draft'')
                               (t_duration_minutes topic) db of
                          Failed f db' \<Rightarrow> (ServerError f, db')
                        | Done row db' \<Rightarrow> (Success 201, db')))))"

lemma duplicate_statement_rejected:
  "pg_prepare_bind duplicate_placeholders (length duplicate_params) = Some IndeterminateDatatype"
  by (simp add: pg_prepare_bind_def duplicate_placeholders_def upt_rec)

lemma duplicate_topic_existing:
  assumes "pg_int4_in id_param = Inr tid" and "filter (\<lambda>t. t_id t = tid) (topics db) \<noteq> []"
  shows "duplicate_topic id_param db = (ServerError IndeterminateDatatype, db)"
proof -
  from assms(2) obtain t ts where "filter (\<lambda>t. t_id t = tid) (topics db) = t # ts"
    by (cases "filter (\<lambda>t. t_id t = tid) (topics db)") auto
  then show ?thesis
    using assms(1) duplicate_statement_rejected by (simp add: duplicate_topic_def Let_def)
qed

lemma duplicate_topic_never_inserts:
  "snd (duplicate_topic id_param db) = db \<and> (\<forall>c. fst (duplicate_topic id_param db) \<noteq> Success c)"
proof (cases "pg_int4_in id_param")
  case (Inl f)
  then show ?thesis by (simp add: duplicate_topic_def)
next
  case (Inr tid)
  show ?thesis
  proof (cases "filter (\<lambda>t. t_id t = tid) (topics db) = []")
    case True
    with Inr show ?thesis by (simp add: duplicate_topic_def)
  next
    case False
    with Inr show ?thesis by (simp add: duplicate_topic_existing)
  qed
qed

text \<open>
  Claim C9. The statement text skips \<open>$8\<close> and reaches \<open>$17\<close>, and sixteen values are
  supplied: the database rejects the statement. So for every existing topic the route
  answers 500 and the database is unchanged; and for no request at all does the route
  succeed or change the database.
\<close>

theorem duplicate_topic_always_fails:
  "8 \<notin> set duplicate_placeholders
   \<and> fold max duplicate_placeholders 0 = 17
   \<and> length duplicate_params = 16
   \<and> pg_prepare_bind duplicate_placeholders (length duplicate_params) \<noteq> None
   \<and> (pg_int4_in id_param = Inr tid \<and> filter (\<lambda>t. t_id t = tid) (topics db) \<noteq> []
        \<longrightarrow> duplicate_topic id_param db = (ServerError IndeterminateDatatype, db)
            \<and> status_code (fst (duplicate_topic id_param db)) = Some 500)
   \<and> snd (duplicate_topic id_param db) = db
   \<and> (\<forall>c. fst (duplicate_topic id_param db) \<noteq> Success c)"
proof (intro conjI impI)
  show "8 \<notin> set duplicate_placeholders"
    by (simp add: duplicate_placeholders_def)
  show "fold max duplicate_placeholders 0 = 17"
    by (simp add: duplicate_placeholders_def)
  show "length duplicate_params = 16"
    by (simp add: duplicate_params_def)
  show "pg_prepare_bind duplicate_placeholders (length duplicate_params) \<noteq> None"
    by (simp add: duplicate_statement_rejected)
  show "snd (duplicate_topic id_param db) = db"
    using duplicate_topic_never_inserts by blast
  show "\<forall>c. fst (duplicate_topic id_param db) \<noteq> Success c"
    using duplicate_topic_never_inserts by blast
next
  assume a: "pg_int4_in id_param = Inr tid \<and> filter (\<lambda>t. t_id t = tid) (topics db) \<noteq> []"
  then show "duplicate_topic id_param db = (ServerError IndeterminateDatatype, db)"
    using duplicate_topic_existing by blast
  then show "status_code (fst (duplicate_topic id_param db)) = Some 500"
    by simp
qed

theorem duplicate_topic_always_fails_witness:
  "pg_int4_in ''1'' = Inr 1
   \<and> filter (\<lambda>t. t_id t = 1) (topics ex_db_one) \<noteq> []
   \<and> duplicate_topic ''1'' ex_db_one = (ServerError IndeterminateDatatype, ex_db_one)
   \<and> status_code (fst (duplicate_topic ''1'' ex_db_one)) = Some 500"
proof -
  have p: "pg_int4_in ''1'' = Inr 1"
    by (simp add: parse_eval_simps)
  have e: "filter (\<lambda>t. t_id t = 1) (topics ex_db_one) \<noteq> []"
    by (simp add: ex_db_one_def)
  from duplicate_topic_always_fails [of "''1''" 1 ex_db_one] p e
  show ?thesis by blast
qed

subsection \<open>Publishing and the NULL status\<close>

definition ex_null_status_body :: topic_post_body where
  "ex_null_status_body =
     \<lparr>pb_title = JStr ''Intro'', pb_status = JNull, pb_durationMinutes = JUndefined\<rparr>"

definition ex_db_null_status :: db where
  "ex_db_null_status = \<lparr>topics = [\<lparr>t_id = 1, t_title = ''Intro'', t_slug = ''intro'',
       t_status = None, t_duration_minutes = Some 0, t_published_at = None\<rparr>],
     topic_modules = [], topic_videos = [],
     topics_id_seq = 1, topic_modules_id_seq = 0, topic_videos_id_seq = 0\<rparr>"

text \<open>
  Claim C6 at a topic whose status is NULL. POST /api/topics with \<open>"status": null\<close>
  stores such a row (the default \<open>'draft'\<close> of the destructuring applies to an absent
  field only, and the CHECK constraint accepts NULL). Its status is not \<open>'published'\<close>,
  yet the publish route answers 404 and leaves the row as it was: status NULL and no
  \<open>published_at\<close>.
\<close>

theorem publish_skips_null_status:
  "create_topic ex_null_status_body ex_db_empty = (Success 201, ex_db_null_status)
   \<and> map t_status (topics ex_db_null_status) = [None]
   \<and> publish_topic 1700000000 ''1'' ex_db_null_status
       = (ClientError 404 ''Topic not found or already published'', ex_db_null_status)"
proof -
  have "create_topic ex_null_status_body ex_db_empty = (Success 201, ex_db_null_status)"
    by (simp add: ex_null_status_body_def ex_db_empty_def ex_db_null_status_def
        create_topic_eval_simps slug_eval_simps)
  moreover have "map t_status (topics ex_db_null_status) = [None]"
    by (simp add: ex_db_null_status_def)
  moreover have "pg_int4_in ''1'' = Inr 1"
    by (simp add: parse_eval_simps)
  then have "publish_topic 1700000000 ''1'' ex_db_null_status
       = (ClientError 404 ''Topic not found or already published'', ex_db_null_status)"
    by (simp add: publish_topic_def publishable_def ex_db_null_status_def)
  ultimately show ?thesis by blast
qed

text \<open>
  What the route does on every other topic: a row whose status is a string other than
  \<open>'published'\<close> becomes published with \<open>published_at = now\<close>, and all other rows stay as
  they are; when every row of that id is already published the answer is 404 and nothing
  changes.
\<close>

lemma publish_topic_publishes:
  assumes "pg_int4_in id_param = Inr tid" and "t \<in> set (topics db)" and "t_id t = tid"
    and "t_status t = Some s" and "s \<noteq> ''published''"
  shows "publish_topic now id_param db
       = (Success 200,
          db\<lparr>topics :=
               map (\<lambda>t. if publishable tid t
                        then t\<lparr>t_status := Some ''published'', t_published_at := Some now\<rparr>
                        else t)
                   (topics db)\<rparr>)"
proof -
  from assms(3,4,5) have "publishable tid t" by (simp add: publishable_def)
  with assms(2) have "filter (publishable tid) (topics db) \<noteq> []"
    by (auto simp: filter_empty_conv)
  with assms(1) show ?thesis by (simp add: publish_topic_def)
qed

lemma publish_topic_already_published:
  assumes "pg_int4_in id_param = Inr tid"
    and "\<And>t. t \<in> set (topics db) \<Longrightarrow> t_id t = tid \<Longrightarrow> t_status t = Some ''published''"
  shows "publish_topic now id_param db
       = (ClientError 404 ''Topic not found or already published'', db)"
proof -
  have "filter (publishable tid) (topics db) = []"
    using assms(2) by (auto simp: filter_empty_conv publishable_def)
  with assms(1) show ?thesis by (simp add: publish_topic_def)
qed

section \<open>Routing\<close>

text \<open>
  The framework tries the routes in the order of their registration and runs the handler
  of the first one whose method and path pattern match; no handler of these routers passes
  the request on. A pattern is a list of segments, a literal or a parameter \<open>:name\<close> that
  matches any one non-empty segment; literals match without regard to case. A request
  path is the list of its segments.
\<close>

datatype http_method = GET | POST | PUT | DELETE

datatype seg = Lit string | Param string

datatype router_name =
    CustomerRoutes | CategoryRoutes | SubcategoryRoutes | TermsConditionsRoutes
  | PrivacyPoliciesRoutes | HomepageRoutes | TopicsRoutes | TopicsActionsRoutes

type_synonym route = "http_method \<times> seg list"

type_synonym mounted_route = "router_name \<times> http_method \<times> seg list"

fun match_path :: "seg list \<Rightarrow> string list \<Rightarrow> (string \<times> string) list option" where
  "match_path [] [] = Some []"
| "match_path (Lit l # ps) (s # ss) =
     (if toLowerCase l = toLowerCase s then match_path ps ss else None)"
| "match_path (Param n # ps) (s # ss) =
     (if s = [] then None
      else case match_path ps ss of None \<Rightarrow> None | Some b \<Rightarrow> Some ((n, s) # b))"
| "match_path _ _ = None"

text \<open>\<open>src/routes/customer.js\<close> (the file registers its fifteen routes twice).\<close>

definition customer_block :: "route list" where
  "customer_block =
    [(GET, [Lit ''users'']),
     (POST, [Lit ''users'', Lit ''add'']),
     (GET, [Lit ''users'', Lit ''delete'', Param ''id'']),
     (GET, [Lit ''users'', Lit ''edit'', Param ''id'']),
     (POST, [Lit ''users'', Lit ''update'', Param ''id'']),
     (GET, [Lit ''categories'']),
     (POST, [Lit ''categories'', Lit ''add'']),
     (GET, [Lit ''categories'', Lit ''delete'', Param ''id'']),
     (GET, [Lit ''categories'', Lit ''edit'', Param ''id'']),
     (POST, [Lit ''categories'', Lit ''update'', Param ''id'']),
     (GET, [Lit ''subcategories'']),
     (POST, [Lit ''subcategories'', Lit ''add'']),
     (GET, [Lit ''subcategories'', Lit ''delete'', Param ''id'']),
     (GET, [Lit ''subcategories'', Lit ''edit'', Param ''id'']),
     (POST, [Lit ''subcategories'', Lit ''update'', Param ''id''])]"

definition customer_routes :: "route list" where
  "customer_routes = customer_block @ customer_block"

text \<open>\<open>src/routes/category.js\<close>\<close>

definition category_routes :: "route list" where
  "category_routes =
    [(GET, [Lit ''categories'']),
     (POST, [Lit ''categories'']),
     (PUT, [Lit ''categories'', Param ''id'']),
     (DELETE, [Lit ''categories'', Param ''id''])]"

text \<open>\<open>src/routes/subcategory.js\<close>\<close>

definition subcategory_routes :: "route list" where
  "subcategory_routes =
    [(GET, [Lit ''subcategories'']),
     (POST, [Lit ''subcategories'']),
     (GET, [Lit ''subcategories'', Param ''id'']),
     (PUT, [Lit ''subcategories'', Param ''id'']),
     (DELETE, [Lit ''subcategories'', Param ''id''])]"

text \<open>\<open>src/routes/terms-conditions.js\<close>\<close>

definition terms_routes :: "route list" where
  "terms_routes =
    [(GET, [Lit ''terms'']),
     (POST, [Lit ''terms'']),
     (GET, [Lit ''terms'', Param ''id'']),
     (PUT, [Lit ''terms'', Param ''id'']),
     (DELETE, [Lit ''terms'', Param ''id'']),
     (POST, [Lit ''terms'', Param ''id'', Lit ''publish''])]"

text \<open>The privacy policies router.\<close>

definition privacy_routes :: "route list" where
  "privacy_routes =
    [(GET, [Lit ''privacy'']),
     (POST, [Lit ''privacy'']),
     (GET, [Lit ''privacy'', Param ''id'']),
     (PUT, [Lit ''privacy'', Param ''id'']),
     (DELETE, [Lit ''privacy'', Param ''id'']),
     (POST, [Lit ''privacy'', Param ''id'', Lit ''publish''])]"

text \<open>The homepage router (in the sources it is the second part of
  \<open>src/routes/auth.js\<close>, from the second \<open>express.Router()\<close> on).\<close>

definition homepage_routes :: "route list" where
  "homepage_routes =
    [(GET, [Lit ''homepage'', Param ''language'']),
     (POST, [Lit ''homepage'', Lit ''content'']),
     (POST, [Lit ''homepage'', Lit ''faqs'']),
     (PUT, [Lit ''homepage'', Lit ''faqs'', Param ''id'']),
     (DELETE, [Lit ''homepage'', Lit ''faqs'', Param ''id''])]"

text \<open>\<open>src/routes/topics.js\<close>, in the order of the file.\<close>

definition topics_routes :: "route list" where
  "topics_routes =
    [(GET, [Lit ''topics'']),
     (POST, [Lit ''topics'']),
     (GET, [Lit ''topics'', Param ''id'']),
     (PUT, [Lit ''topics'', Param ''id'']),
     (DELETE, [Lit ''topics'', Param ''id'']),
     (GET, [Lit ''topics'', Lit ''subcategory'', Param ''subcategoryId'']),
     (GET, [Lit ''topics'', Lit ''category'', Param ''categoryId'']),
     (DELETE, [Lit ''topics'', Lit ''bulk-delete'']),
     (GET, [Lit ''topics'', Lit ''search'']),
     (GET, [Lit ''topics'', Lit ''list'']),
     (GET, [Lit ''topics'', Lit ''count'']),
     (GET, [Lit ''topics'', Lit ''published'']),
     (GET, [Lit ''topics'', Lit ''draft'']),
     (GET, [Lit ''topics'', Lit ''featured'']),
     (GET, [Lit ''topics'', Lit ''free'']),
     (GET, [Lit ''topics'', Lit ''paid'']),
     (GET, [Lit ''topics'', Lit ''difficulty'', Param ''difficulty'']),
     (GET, [Lit ''topics'', Lit ''tag'', Param ''tag''])]"

text \<open>The topic actions router.\<close>

definition topicsActions_routes :: "route list" where
  "topicsActions_routes =
    [(POST, [Lit ''topics'', Param ''id'', Lit ''toggle-status'']),
     (POST, [Lit ''topics'', Param ''id'', Lit ''toggle-featured'']),
     (POST, [Lit ''topics'', Param ''id'', Lit ''duplicate'']),
     (POST, [Lit ''topics'', Param ''id'', Lit ''publish'']),
     (POST, [Lit ''topics'', Param ''id'', Lit ''archive'']),
     (GET, [Lit ''topics'', Lit ''export'']),
     (POST, [Lit ''topics'', Lit ''import''])]"

text \<open>\<open>app.use(prefix, router)\<close>\<close>

definition mount :: "string list \<Rightarrow> router_name \<Rightarrow> route list \<Rightarrow> mounted_route list" where
  "mount prefix r routes = map (\<lambda>(m, p). (r, m, map Lit prefix @ p)) routes"

text \<open>
  \<^verbatim>\<open>
  app.use('/', customerRoutes);
  app.use('/api', categoryRoutes);
  app.use('/api', subcategoryRoutes);
  app.use('/api', termsConditionsRoutes);
  app.use('/api', privacyPoliciesRoutes);
  app.use('/api', homepageRoutes);
  app.use('/api', topicsRoutes);
  app.use('/api', topicsActionsRoutes);
  ...
  \<close>
  The routers mounted after these cannot come before them.
\<close>

definition app_routes :: "mounted_route list" where
  "app_routes =
     mount [] CustomerRoutes customer_routes
     @ mount [''api''] CategoryRoutes category_routes
     @ mount [''api''] SubcategoryRoutes subcategory_routes
     @ mount [''api''] TermsConditionsRoutes terms_routes
     @ mount [''api''] PrivacyPoliciesRoutes privacy_routes
     @ mount [''api''] HomepageRoutes homepage_routes
     @ mount [''api''] TopicsRoutes topics_routes
     @ mount [''api''] TopicsActionsRoutes topicsActions_routes"

definition route_matches :: "http_method \<Rightarrow> string list \<Rightarrow> mounted_route \<Rightarrow> bool" where
  "route_matches m path r = (case r of (rn, m', p) \<Rightarrow> m' = m \<and> match_path p path \<noteq> None)"

definition dispatch ::
  "mounted_route list \<Rightarrow> http_method \<Rightarrow> string list
     \<Rightarrow> (mounted_route \<times> (string \<times> string) list) option" where
  "dispatch routes m path =
     (case find (route_matches m path) routes of
        None \<Rightarrow> None
      | Some r \<Rightarrow>
          (case match_path (snd (snd r)) path of None \<Rightarrow> None | Some b \<Rightarrow> Some (r, b)))"

subsection \<open>GET and DELETE /api/topics/:id with a parameter that is no number\<close>

text \<open>
  Both handlers hand \<open>req.params.id\<close> to a query that compares it with the INTEGER column
  \<open>id\<close>; the query fails on a text that is no integer, and the \<open>catch\<close> answers 500.
  \<^verbatim>\<open>
  router.get('/topics/:id', async (req, res) => {
    try {
      const { id } = req.params;
      const result = await req.pool.query(`SELECT ... FROM topics t ... WHERE t.id = $1 ...`, [id]);
      if (result.rows.length === 0) { return res.status(404)... 'Topic not found' }
      ...
      res.json({ success: true, data: formatTopicData(topic, modules) });
    } catch (err) { res.status(500)... }
  });
  router.delete('/topics/:id', async (req, res) => {
    try {
      const { id } = req.params;
      const existing = await req.pool.query('SELECT id FROM topics WHERE id = $1', [id]);
      if (existing.rows.length === 0) { return res.status(404)... 'Topic not found' }
      await req.pool.query('DELETE FROM topics WHERE id = $1', [id]);
      res.json({ success: true, data: { deleted: true } });
    } catch (err) { res.status(500)... }
  });
  \<close>
\<close>

definition get_topic :: "string \<Rightarrow> db \<Rightarrow> response" where
  "get_topic id_param db =
     (case pg_int4_in id_param of
        Inl f \<Rightarrow> ServerError f
      | Inr tid \<Rightarrow>
          if filter (\<lambda>t. t_id t = tid) (topics db) = [] then ClientError 404 ''Topic not found''
          else Success 200)"

text \<open>Deleting a topic deletes, by ON DELETE CASCADE, its modules and the videos that
  point to it or to one of those modules.\<close>

definition delete_topic :: "string \<Rightarrow> db \<Rightarrow> response \<times> db" where
  "delete_topic id_param db =
     (case pg_int4_in id_param of
        Inl f \<Rightarrow> (ServerError f, db)
      | Inr tid \<Rightarrow>
          if filter (\<lambda>t. t_id t = tid) (topics db) = []
          then (ClientError 404 ''Topic not found'', db)
          else
            (let gone = map m_id (filter (\<lambda>m. m_topic_id m = Some tid) (topic_modules db))
             in (Success 200,
                 db\<lparr>topics := filter (\<lambda>t. t_id t \<noteq> tid) (topics db),
                    topic_modules := filter (\<lambda>m. m_topic_id m \<noteq> Some tid) (topic_modules db),
                    topic_videos :=
                      filter (\<lambda>v. v_topic_id v \<noteq> Some tid
                                  \<and> (case v_module_id v of None \<Rightarrow> True | Some m \<Rightarrow> m \<notin> set gone))
                             (topic_videos db)\<rparr>)))"

definition shadowed_literals :: "string list" where
  "shadowed_literals =
     [''search'', ''list'', ''count'', ''published'', ''draft'', ''featured'', ''free'', ''paid'',
      ''export'']"

text \<open>The routes whose pattern is \<open>/topics/<literal>\<close> and whose method also has a
  \<open>/topics/:id\<close> route.\<close>

definition shadowed_routes :: "mounted_route list" where
  "shadowed_routes =
     [(TopicsRoutes, DELETE, [Lit ''api'', Lit ''topics'', Lit ''bulk-delete'']),
      (TopicsRoutes, GET, [Lit ''api'', Lit ''topics'', Lit ''search'']),
      (TopicsRoutes, GET, [Lit ''api'', Lit ''topics'', Lit ''list'']),
      (TopicsRoutes, GET, [Lit ''api'', Lit ''topics'', Lit ''count'']),
      (TopicsRoutes, GET, [Lit ''api'', Lit ''topics'', Lit ''published'']),
      (TopicsRoutes, GET, [Lit ''api'', Lit ''topics'', Lit ''draft'']),
      (TopicsRoutes, GET, [Lit ''api'', Lit ''topics'', Lit ''featured'']),
      (TopicsRoutes, GET, [Lit ''api'', Lit ''topics'', Lit ''free'']),
      (TopicsRoutes, GET, [Lit ''api'', Lit ''topics'', Lit ''paid'']),
      (TopicsActionsRoutes, GET, [Lit ''api'', Lit ''topics'', Lit ''export''])]"

lemma find_append_cases:
  "find P (xs @ ys) = (case find P xs of None \<Rightarrow> find P ys | Some x \<Rightarrow> Some x)"
  by (induction xs) auto

lemma toLowerCase_literals:
  "toLowerCase ''api'' = ''api''" "toLowerCase ''topics'' = ''topics''"
  "toLowerCase ''users'' = ''users''" "toLowerCase ''categories'' = ''categories''"
  "toLowerCase ''subcategories'' = ''subcategories''" "toLowerCase ''terms'' = ''terms''"
  "toLowerCase ''privacy'' = ''privacy''" "toLowerCase ''homepage'' = ''homepage''"
  by (simp_all add: toLowerCase_def toLowerCase_char_def)

lemma earlier_routers_skip_topics:
  assumes "toLowerCase a = ''api''" and "toLowerCase t = ''topics''"
  shows "find (route_matches m (a # t # rest))
           (mount [] CustomerRoutes customer_routes
            @ mount [''api''] CategoryRoutes category_routes
            @ mount [''api''] SubcategoryRoutes subcategory_routes
            @ mount [''api''] TermsConditionsRoutes terms_routes
            @ mount [''api''] PrivacyPoliciesRoutes privacy_routes
            @ mount [''api''] HomepageRoutes homepage_routes) = None"
  using assms
  by (simp add: mount_def customer_routes_def customer_block_def category_routes_def
      subcategory_routes_def terms_routes_def privacy_routes_def homepage_routes_def
      route_matches_def toLowerCase_literals)

lemma topics_single_segment:
  assumes "toLowerCase a = ''api''"
    and "toLowerCase t = ''topics''" and "x \<noteq> []" and "m \<in> {GET, PUT, DELETE}"
  shows "dispatch app_routes m [a, t, x]
       = Some ((TopicsRoutes, m, [Lit ''api'', Lit ''topics'', Param ''id'']), [(''id'', x)])"
proof -
  define early where "early =
      mount [] CustomerRoutes customer_routes
       @ mount [''api''] CategoryRoutes category_routes
       @ mount [''api''] SubcategoryRoutes subcategory_routes
       @ mount [''api''] TermsConditionsRoutes terms_routes
       @ mount [''api''] PrivacyPoliciesRoutes privacy_routes
       @ mount [''api''] HomepageRoutes homepage_routes"
  have e: "find (route_matches m [a, t, x]) early = None"
    unfolding early_def by (rule earlier_routers_skip_topics [OF assms(1,2)])
  have t: "find (route_matches m [a, t, x]) (mount [''api''] TopicsRoutes topics_routes)
      = Some (TopicsRoutes, m, [Lit ''api'', Lit ''topics'', Param ''id''])"
    using assms
    by (auto simp: mount_def topics_routes_def route_matches_def toLowerCase_literals)
  have a: "app_routes = early @ mount [''api''] TopicsRoutes topics_routes
      @ mount [''api''] TopicsActionsRoutes topicsActions_routes"
    by (simp add: app_routes_def early_def)
  have "find (route_matches m [a, t, x]) app_routes
      = Some (TopicsRoutes, m, [Lit ''api'', Lit ''topics'', Param ''id''])"
    unfolding a by (simp add: find_append_cases e t)
  then show ?thesis
    using assms(1,2,3) by (simp add: dispatch_def toLowerCase_literals)
qed

lemma match_three_literals:
  assumes "match_path [Lit p, Lit q, Lit l] path \<noteq> None"
  obtains a t x where "path = [a, t, x]" "toLowerCase p = toLowerCase a"
    "toLowerCase q = toLowerCase t" "toLowerCase l = toLowerCase x"
proof -
  from assms obtain a p1 where 1: "path = a # p1" by (cases path) auto
  with assms obtain t p2 where 2: "p1 = t # p2" by (cases p1) (auto split: if_splits)
  with 1 assms obtain x p3 where 3: "p2 = x # p3" by (cases p2) (auto split: if_splits)
  with 1 2 assms have 4: "p3 = []" by (cases p3) (auto split: if_splits)
  from 1 2 3 4 assms have "toLowerCase p = toLowerCase a \<and> toLowerCase q = toLowerCase t
      \<and> toLowerCase l = toLowerCase x" by (auto split: if_splits)
  with 1 2 3 4 that show ?thesis by blast
qed

lemma shadowed_route_shape:
  assumes "r \<in> set shadowed_routes"
  obtains rn m l where "r = (rn, m, [Lit ''api'', Lit ''topics'', Lit l])" "m \<in> {GET, PUT, DELETE}"
    "l \<noteq> []"
  using assms unfolding shadowed_routes_def by auto

lemma shadowed_never_dispatched:
  assumes d: "dispatch app_routes m path = Some (r, b)"
  shows "r \<notin> set shadowed_routes"
proof
  assume "r \<in> set shadowed_routes"
  then obtain rn m' l where r: "r = (rn, m', [Lit ''api'', Lit ''topics'', Lit l])"
    and m': "m' \<in> {GET, PUT, DELETE}" and l: "l \<noteq> []"
    by (rule shadowed_route_shape)
  from d have f: "find (route_matches m path) app_routes = Some r"
    by (auto simp: dispatch_def split: option.splits)
  then have "route_matches m path r" by (auto simp: find_Some_iff)
  with r have mm: "m' = m" and mp: "match_path [Lit ''api'', Lit ''topics'', Lit l] path \<noteq> None"
    by (simp_all add: route_matches_def)
  from mp obtain a t x where p: "path = [a, t, x]" "toLowerCase ''api'' = toLowerCase a"
    "toLowerCase ''topics'' = toLowerCase t" "toLowerCase l = toLowerCase x"
    by (rule match_three_literals)
  from l p(4) have "x \<noteq> []" by (auto simp: toLowerCase_def)
  with p m' mm have "dispatch app_routes m path
       = Some ((TopicsRoutes, m, [Lit ''api'', Lit ''topics'', Param ''id'']), [(''id'', x)])"
    using topics_single_segment [of a t x m] by (simp add: toLowerCase_literals)
  with d r show False by simp
qed

lemma shadowed_routes_registered: "set shadowed_routes \<subseteq> set app_routes"
  by (simp add: shadowed_routes_def app_routes_def mount_def topics_routes_def
      topicsActions_routes_def)

lemma literals_are_no_integers:
  "list_all (\<lambda>lit. lit \<noteq> [] \<and> pg_int4_in lit = Inl InvalidTextRepresentation)
     (''bulk-delete'' # shadowed_literals)"
  by (simp add: shadowed_literals_def parse_eval_simps)

lemma literal_is_no_integer:
  assumes "lit \<in> set shadowed_literals \<or> lit = ''bulk-delete''"
  shows "lit \<noteq> [] \<and> pg_int4_in lit = Inl InvalidTextRepresentation"
proof -
  from assms have "lit \<in> set (''bulk-delete'' # shadowed_literals)" by auto
  with literals_are_no_integers show ?thesis
    unfolding list_all_iff by blast
qed

text \<open>
  Claim C8. A GET of \<open>/api/topics/search\<close>, \<open>list\<close>, \<open>count\<close>, \<open>published\<close>,
  \<open>draft\<close>, \<open>featured\<close>, \<open>free\<close>, \<open>paid\<close> or \<open>export\<close> is dispatched to the
  handler of \<open>GET /topics/:id\<close> with \<open>id\<close> bound to that word, and DELETE
  \<open>/api/topics/bulk-delete\<close> to the handler of \<open>DELETE /topics/:id\<close>; those handlers
  answer 500, since the word is no integer. No request at all, of any method and path, is
  dispatched to one of the ten dedicated routes, although all ten are registered.
\<close>

theorem topics_literal_routes_shadowed:
  "(\<forall>lit \<in> set shadowed_literals.
        dispatch app_routes GET [''api'', ''topics'', lit]
          = Some ((TopicsRoutes, GET, [Lit ''api'', Lit ''topics'', Param ''id'']), [(''id'', lit)])
        \<and> get_topic lit db = ServerError InvalidTextRepresentation)
     \<and> dispatch app_routes DELETE [''api'', ''topics'', ''bulk-delete'']
          = Some ((TopicsRoutes, DELETE, [Lit ''api'', Lit ''topics'', Param ''id'']),
                  [(''id'', ''bulk-delete'')])
     \<and> delete_topic ''bulk-delete'' db = (ServerError InvalidTextRepresentation, db)
     \<and> (\<forall>m path r b. dispatch app_routes m path = Some (r, b) \<longrightarrow> r \<notin> set shadowed_routes)
     \<and> set shadowed_routes \<subseteq> set app_routes"
proof (intro conjI ballI allI impI)
  fix lit
  assume lit: "lit \<in> set shadowed_literals"
  then have "lit \<noteq> []" using literal_is_no_integer [of lit] by blast
  then show "dispatch app_routes GET [''api'', ''topics'', lit]
          = Some ((TopicsRoutes, GET, [Lit ''api'', Lit ''topics'', Param ''id'']), [(''id'', lit)])"
    by (intro topics_single_segment) (simp_all add: toLowerCase_literals)
  from lit show "get_topic lit db = ServerError InvalidTextRepresentation"
    by (simp add: get_topic_def literal_is_no_integer)
next
  show "dispatch app_routes DELETE [''api'', ''topics'', ''bulk-delete'']
          = Some ((TopicsRoutes, DELETE, [Lit ''api'', Lit ''topics'', Param ''id'']),
                  [(''id'', ''bulk-delete'')])"
    by (intro topics_single_segment) (simp_all add: toLowerCase_literals)
  show "delete_topic ''bulk-delete'' db = (ServerError InvalidTextRepresentation, db)"
    by (simp add: delete_topic_def literal_is_no_integer)
  show "set shadowed_routes \<subseteq> set app_routes"
    by (rule shadowed_routes_registered)
next
  fix m path r b
  assume "dispatch app_routes m path = Some (r, b)"
  then show "r \<notin> set shadowed_routes"
    by (rule shadowed_never_dispatched)
qed

theorem topics_literal_routes_shadowed_witness:
  "dispatch app_routes GET [''api'', ''topics'', ''search'']
       = Some ((TopicsRoutes, GET, [Lit ''api'', Lit ''topics'', Param ''id'']),
               [(''id'', ''search'')])
   \<and> get_topic ''search'' ex_db_one = ServerError InvalidTextRepresentation
   \<and> dispatch app_routes GET [''api'', ''topics'', ''export'']
       = Some ((TopicsRoutes, GET, [Lit ''api'', Lit ''topics'', Param ''id'']),
               [(''id'', ''export'')])
   \<and> dispatch app_routes DELETE [''api'', ''topics'', ''bulk-delete'']
       = Some ((TopicsRoutes, DELETE, [Lit ''api'', Lit ''topics'', Param ''id'']),
               [(''id'', ''bulk-delete'')])
   \<and> delete_topic ''bulk-delete'' ex_db_one = (ServerError InvalidTextRepresentation, ex_db_one)
   \<and> dispatch app_routes GET [''api'', ''homepage'', ''en'']
       = Some ((HomepageRoutes, GET, [Lit ''api'', Lit ''homepage'', Param ''language'']),
               [(''language'', ''en'')])"
proof -
  have l: "''search'' \<in> set shadowed_literals" "''export'' \<in> set shadowed_literals"
    by (simp_all add: shadowed_literals_def)
  have h: "dispatch app_routes GET [''api'', ''homepage'', ''en'']
       = Some ((HomepageRoutes, GET, [Lit ''api'', Lit ''homepage'', Param ''language'']),
               [(''language'', ''en'')])"
    by (simp add: dispatch_def app_routes_def mount_def customer_routes_def customer_block_def
        category_routes_def subcategory_routes_def terms_routes_def privacy_routes_def
        homepage_routes_def route_matches_def toLowerCase_def toLowerCase_char_def)
  from topics_literal_routes_shadowed [of ex_db_one] l h
  show ?thesis by blast
qed

section \<open>Statements on modules and videos\<close>

text \<open>
  The statements below take parameters that have been bound. Of the columns of
  \<open>topic_modules\<close> and \<open>topic_videos\<close> the rows of the model keep the keys, the order
  and the durations; \<open>title\<close> (VARCHAR(255) NOT NULL) and \<open>video_type\<close> (VARCHAR(20)
  with a CHECK) are arguments because a statement can fail on them. A statement first
  fits its texts to the column lengths; only then does it touch a sequence or a row.

  \<open>INSERT INTO topic_modules (topic_id, title, description, order_index, duration_minutes,
  is_active) VALUES ($1, ..., $4, 0, true) RETURNING id\<close>: the sequence gives the id; the
  primary key and the reference to the topic are enforced.
\<close>

definition insert_module :: "int \<Rightarrow> string \<Rightarrow> int option \<Rightarrow> db \<Rightarrow> int outcome" where
  "insert_module topic_id title order_index db =
     (case pg_varchar 255 title of
        Inl f \<Rightarrow> Failed f db
      | Inr title' \<Rightarrow>
          (let new_id = topic_modules_id_seq db + 1;
               db1 = db\<lparr>topic_modules_id_seq := new_id\<rparr>
           in if new_id \<in> set (map m_id (topic_modules db1)) then Failed UniqueViolation db1
              else if topic_id \<notin> set (map t_id (topics db1))
                then Failed ForeignKeyViolation db1
              else Done new_id
                     (db1\<lparr>topic_modules := topic_modules db1 @
                        [\<lparr>m_id = new_id, m_topic_id = Some topic_id,
                          m_order_index = order_index, m_duration_minutes = Some 0\<rparr>]\<rparr>)))"

text \<open>\<open>UPDATE topic_modules SET title = $1, description = $2, order_index = $3,
  updated_at = CURRENT_TIMESTAMP WHERE id = $4 AND topic_id = $5\<close>\<close>

definition update_module :: "int \<Rightarrow> int \<Rightarrow> string \<Rightarrow> int option \<Rightarrow> db \<Rightarrow> unit outcome" where
  "update_module module_id topic_id title order_index db =
     (case pg_varchar 255 title of
        Inl f \<Rightarrow> Failed f db
      | Inr title' \<Rightarrow>
          Done ()
            (db\<lparr>topic_modules :=
                 map (\<lambda>m. if m_id m = module_id \<and> m_topic_id m = Some topic_id
                          then m\<lparr>m_order_index := order_index\<rparr> else m)
                     (topic_modules db)\<rparr>))"

text \<open>\<open>DELETE FROM topic_modules WHERE id = $1\<close>, with the cascade to the videos of the
  module.\<close>

definition delete_module :: "int \<Rightarrow> db \<Rightarrow> db" where
  "delete_module module_id db =
     db\<lparr>topic_modules := filter (\<lambda>m. m_id m \<noteq> module_id) (topic_modules db),
        topic_videos := filter (\<lambda>v. v_module_id v \<noteq> Some module_id) (topic_videos db)\<rparr>"

text \<open>The CHECK on \<open>topic_videos.video_type\<close>.\<close>

definition video_types :: "string list" where
  "video_types = [''mp4'', ''youtube'', ''vimeo'', ''stream'']"

text \<open>\<open>INSERT INTO topic_videos (topic_id, module_id, title, ..., video_type, ...,
  duration_seconds, order_index, ...) VALUES (...) RETURNING id\<close>\<close>

definition insert_video ::
  "int option \<Rightarrow> int option \<Rightarrow> string \<Rightarrow> string \<Rightarrow> int option \<Rightarrow> int option \<Rightarrow> db
     \<Rightarrow> int outcome" where
  "insert_video topic_id module_id title video_type duration_seconds order_index db =
     (case pg_varchar 255 title of
        Inl f \<Rightarrow> Failed f db
      | Inr title' \<Rightarrow>
     (case pg_varchar 20 video_type of
        Inl f \<Rightarrow> Failed f db
      | Inr video_type' \<Rightarrow>
          (let new_id = topic_videos_id_seq db + 1;
               db1 = db\<lparr>topic_videos_id_seq := new_id\<rparr>
           in if video_type' \<notin> set video_types then Failed CheckViolation db1
              else if new_id \<in> set (map v_id (topic_videos db1)) then Failed UniqueViolation db1
              else if (case topic_id of None \<Rightarrow> False
                       | Some t \<Rightarrow> t \<notin> set (map t_id (topics db1)))
                then Failed ForeignKeyViolation db1
              else if (case module_id of None \<Rightarrow> False
                       | Some m \<Rightarrow> m \<notin> set (map m_id (topic_modules db1)))
                then Failed ForeignKeyViolation db1
              else Done new_id
                     (db1\<lparr>topic_videos := topic_videos db1 @
                        [\<lparr>v_id = new_id, v_topic_id = topic_id, v_module_id = module_id,
                          v_duration_seconds = duration_seconds,
                          v_order_index = order_index\<rparr>]\<rparr>))))"

text \<open>\<open>UPDATE topic_videos SET title = $1, ..., duration_seconds = $4, order_index = $5,
  video_type = $6, ... WHERE id = $8 AND module_id = $9\<close>: the CHECK is met only when a
  row is updated.\<close>

definition update_video ::
  "int \<Rightarrow> int \<Rightarrow> string \<Rightarrow> string \<Rightarrow> int option \<Rightarrow> int option \<Rightarrow> db \<Rightarrow> unit outcome" where
  "update_video video_id module_id title video_type duration_seconds order_index db =
     (case pg_varchar 255 title of
        Inl f \<Rightarrow> Failed f db
      | Inr title' \<Rightarrow>
     (case pg_varchar 20 video_type of
        Inl f \<Rightarrow> Failed f db
      | Inr video_type' \<Rightarrow>
          if video_type' \<notin> set video_types
             \<and> filter (\<lambda>v. v_id v = video_id \<and> v_module_id v = Some module_id)
                  (topic_videos db) \<noteq> []
          then Failed CheckViolation db
          else Done ()
                 (db\<lparr>topic_videos :=
                      map (\<lambda>v. if v_id v = video_id \<and> v_module_id v = Some module_id
                               then v\<lparr>v_duration_seconds := duration_seconds,
                                      v_order_index := order_index\<rparr>
                               else v)
                          (topic_videos db)\<rparr>)))"

text \<open>\<open>DELETE FROM topic_videos WHERE id = $1\<close>\<close>

definition delete_video :: "int \<Rightarrow> db \<Rightarrow> db" where
  "delete_video video_id db =
     db\<lparr>topic_videos := filter (\<lambda>v. v_id v \<noteq> video_id) (topic_videos db)\<rparr>"

subsection \<open>The duration sums\<close>

text \<open>Integer division of the database: the quotient is cut towards zero.\<close>

definition pg_div :: "int \<Rightarrow> int \<Rightarrow> int" where
  "pg_div a b = (if a < 0 then - ((- a) div b) else a div b)"

text \<open>\<open>SELECT COALESCE(SUM(duration_seconds), 0) FROM topic_videos WHERE module_id = $1\<close>:
  NULL durations do not count.\<close>

definition sum_video_seconds :: "int \<Rightarrow> db \<Rightarrow> int" where
  "sum_video_seconds module_id db =
     sum_list (map (\<lambda>v. case v_duration_seconds v of None \<Rightarrow> 0 | Some d \<Rightarrow> d)
                   (filter (\<lambda>v. v_module_id v = Some module_id) (topic_videos db)))"

text \<open>\<open>SELECT COALESCE(SUM(tm.duration_minutes), 0) FROM topic_modules tm WHERE
  tm.topic_id = $1\<close>\<close>

definition sum_module_minutes :: "int \<Rightarrow> db \<Rightarrow> int" where
  "sum_module_minutes topic_id db =
     sum_list (map (\<lambda>m. case m_duration_minutes m of None \<Rightarrow> 0 | Some d \<Rightarrow> d)
                   (filter (\<lambda>m. m_topic_id m = Some topic_id) (topic_modules db)))"

text \<open>
  \<^verbatim>\<open>
  UPDATE topic_modules
  SET duration_minutes = (
    SELECT COALESCE(SUM(duration_seconds), 0) / 60 FROM topic_videos WHERE module_id = $1
  ), updated_at = CURRENT_TIMESTAMP
  WHERE id = $1
  \<close>
\<close>

definition recompute_module_duration :: "int \<Rightarrow> db \<Rightarrow> unit outcome" where
  "recompute_module_duration module_id db =
     (let minutes = pg_div (sum_video_seconds module_id db) 60
      in if filter (\<lambda>m. m_id m = module_id) (topic_modules db) \<noteq> [] \<and> \<not> int4_range minutes
         then Failed NumericValueOutOfRange db
         else Done ()
                (db\<lparr>topic_modules :=
                    map (\<lambda>m. if m_id m = module_id then m\<lparr>m_duration_minutes := Some minutes\<rparr>
                             else m)
                        (topic_modules db)\<rparr>))"

text \<open>
  \<^verbatim>\<open>
  UPDATE topics
  SET duration_minutes = (
    SELECT COALESCE(SUM(tm.duration_minutes), 0) FROM topic_modules tm WHERE tm.topic_id = $1
  ), updated_at = CURRENT_TIMESTAMP
  WHERE id = $1
  \<close>
\<close>

definition recompute_topic_duration :: "int \<Rightarrow> db \<Rightarrow> unit outcome" where
  "recompute_topic_duration topic_id db =
     (let minutes = sum_module_minutes topic_id db
      in if filter (\<lambda>t. t_id t = topic_id) (topics db) \<noteq> [] \<and> \<not> int4_range minutes
         then Failed NumericValueOutOfRange db
         else Done ()
                (db\<lparr>topics :=
                    map (\<lambda>t. if t_id t = topic_id then t\<lparr>t_duration_minutes := Some minutes\<rparr>
                             else t)
                        (topics db)\<rparr>))"

section \<open>Video routes\<close>

subsection \<open>POST /api/topics/:topicId/modules/:moduleId/videos\<close>

text \<open>
  \<^verbatim>\<open>
  const { topicId, moduleId } = req.params;
  const { title, ..., videoType = 'mp4', ..., durationSeconds = 0, orderIndex, ... } = req.body;
  if (!title || title.trim() === '') { return res.status(400)... 'Video title is required' }
  const moduleCheck = await req.pool.query(
    'SELECT id FROM topic_modules WHERE id = $1 AND topic_id = $2', [moduleId, topicId]);
  if (moduleCheck.rows.length === 0) { return res.status(404)... 'Module not found' }
  let videoOrder = orderIndex;
  if (!videoOrder) {
    const maxOrderResult = await req.pool.query(
      'SELECT COALESCE(MAX(order_index), 0) + 1 as next_order FROM topic_videos WHERE module_id = $1',
      [moduleId]);
    videoOrder = maxOrderResult.rows[0].next_order;
  }
  const validVideoTypes = ['mp4', 'youtube', 'vimeo', 'stream'];
  if (!validVideoTypes.includes(videoType)) { return res.status(400)... 'Invalid video type' }
  const result = await req.pool.query(`INSERT INTO topic_videos (...) VALUES (...) RETURNING *`,
    [topicId, moduleId, title.trim(), ..., videoType, ..., parseInt(durationSeconds), videoOrder, ...]);
  res.status(201).json({ success: true, data: {...} });
  \<close>
  The handler ends here: it holds no statement on \<open>topic_modules\<close> or \<open>topics\<close>.
\<close>

text \<open>
  The body, with the fields that the INSERT binds (\<open>resources\<close> is taken to be absent,
  so that its default \<open>[]\<close> is sent). The parameters are bound in their order: the two
  ids, \<open>title.trim()\<close>, \<open>description || null\<close>, \<open>videoUrl || null\<close>, the video type,
  \<open>thumbnailUrl || null\<close>, \<open>parseInt(durationSeconds)\<close>, the order, \<open>isActive\<close>,
  \<open>isPreview\<close> and \<open>transcript || null\<close>.
\<close>

record video_post_body =
  vb_title :: jsval
  vb_description :: jsval
  vb_videoUrl :: jsval
  vb_videoType :: jsval
  vb_thumbnailUrl :: jsval
  vb_durationSeconds :: jsval
  vb_orderIndex :: jsval
  vb_isActive :: jsval
  vb_isPreview :: jsval
  vb_transcript :: jsval

definition validVideoTypes :: "string list" where
  "validVideoTypes = [''mp4'', ''youtube'', ''vimeo'', ''stream'']"

text \<open>\<open>SELECT COALESCE(MAX(order_index), 0) + 1 as next_order FROM topic_videos WHERE
  module_id = $1\<close>. The sum is one of INTEGERs and fails beyond their range. The handler
  runs the query when \<open>orderIndex\<close> is falsy, before it looks at the video type.\<close>

definition next_order :: "int \<Rightarrow> db \<Rightarrow> failure + int" where
  "next_order module_id db =
     pg_int_of_number
       ((case List.map_filter v_order_index
               (filter (\<lambda>v. v_module_id v = Some module_id) (topic_videos db)) of
          [] \<Rightarrow> 0
        | order # orders \<Rightarrow> fold max orders order) + 1)"

text \<open>The first failure of a list of parameters, in their order.\<close>

fun first_failure :: "failure option list \<Rightarrow> failure option" where
  "first_failure [] = None"
| "first_failure (Some f # rest) = Some f"
| "first_failure (None # rest) = first_failure rest"

definition failure_of :: "failure + 'a \<Rightarrow> failure option" where
  "failure_of r = (case r of Inl f \<Rightarrow> Some f | Inr x \<Rightarrow> None)"

definition create_video :: "string \<Rightarrow> string \<Rightarrow> video_post_body \<Rightarrow> db \<Rightarrow> response \<times> db" where
  "create_video topicId moduleId body db =
     (case required_text (vb_title body) of
        Inl missing \<Rightarrow>
          (if missing then (ClientError 400 ''Video title is required'', db)
           else (ServerError TypeError, db))
      | Inr title \<Rightarrow>
          (case pg_int4_in moduleId of Inl f \<Rightarrow> (ServerError f, db) | Inr mid \<Rightarrow>
          (case pg_int4_in topicId of Inl f \<Rightarrow> (ServerError f, db) | Inr tid \<Rightarrow>
             if filter (\<lambda>m. m_id m = mid \<and> m_topic_id m = Some tid) (topic_modules db) = []
             then (ClientError 404 ''Module not found'', db)
             else
               (case (if js_truthy (vb_orderIndex body) then Inr None
                      else (case next_order mid db of Inl f \<Rightarrow> Inl f | Inr n \<Rightarrow> Inr (Some n))) of
                  Inl f \<Rightarrow> (ServerError f, db)
                | Inr selected \<Rightarrow>
               (let videoOrder = (case selected of
                                    None \<Rightarrow> pg_int_param (vb_orderIndex body)
                                  | Some n \<Rightarrow> Inr (Some n));
                    videoType = (if vb_videoType body = JUndefined then JStr ''mp4''
                                 else vb_videoType body);
                    isActive = (if vb_isActive body = JUndefined then JBool True
                                else vb_isActive body);
                    isPreview = (if vb_isPreview body = JUndefined then JBool False
                                 else vb_isPreview body);
                    duration = (case js_parseInt (if vb_durationSeconds body = JUndefined
                                                  then JNum 0 else vb_durationSeconds body) of
                                  None \<Rightarrow> Inl InvalidTextRepresentation
                                | Some n \<Rightarrow> pg_int_of_number n)
                in case videoType of
                     JStr vt \<Rightarrow>
                       if vt \<notin> set validVideoTypes
                       then (ClientError 400 ''Invalid video type'', db)
                       else
                         (case first_failure
                                 [if has_nul (js_trim title)
                                    then Some CharacterNotInRepertoire else None,
                                  failure_of (pg_param_text (js_or (vb_description body) JNull)),
                                  failure_of (pg_param_text (js_or (vb_videoUrl body) JNull)),
                                  failure_of (pg_param_text (js_or (vb_thumbnailUrl body) JNull)),
                                  failure_of duration,
                                  failure_of videoOrder,
                                  failure_of (pg_param_bool isActive),
                                  failure_of (pg_param_bool isPreview),
                                  failure_of (pg_param_text (js_or (vb_transcript body) JNull))] of
                            Some f \<Rightarrow> (ServerError f, db)
                          | None \<Rightarrow>
                              (case duration of
                                 Inl f \<Rightarrow> (ServerError f, db)
                               | Inr d \<Rightarrow>
                                   (case videoOrder of
                                      Inl f \<Rightarrow> (ServerError f, db)
                                    | Inr ord \<Rightarrow>
                                        (case insert_video (Some tid) (Some mid) (js_trim title)
                                                vt (Some d) ord db of
                                           Failed f db' \<Rightarrow> (ServerError f, db')
                                         | Done vid db' \<Rightarrow> (Success 201, db')))))
                   | _ \<Rightarrow> (ClientError 400 ''Invalid video type'', db))))))"

subsection \<open>POST /api/topics/:topicId/modules/:moduleId/videos/upload\<close>

text \<open>
  The upload route, after the file has been received: the topic and the module are checked,
  the video row is inserted, and then the two duration statements run.
  \<^verbatim>\<open>
  const { title, description, duration, order } = req.body;
  if (!req.file) { return res.status(400)... 'No video file provided' }
  if (!title || !title.trim()) { return res.status(400)... 'Video title is required' }
  ...
  const topicCheck = await req.pool.query('SELECT id FROM topics WHERE id = $1', [topicId]);
  if (topicCheck.rows.length === 0) { return res.status(404)... 'Topic not found' }
  const moduleCheck = await req.pool.query(
    'SELECT id FROM topic_modules WHERE id = $1 AND topic_id = $2', [moduleId, topicId]);
  if (moduleCheck.rows.length === 0) { return res.status(404)... 'Module not found in this topic' }
  ... order: parseInt(order) || 1 ...
  try {
    const durationSeconds = duration ? parseFloat(duration) * 60 : 0;
    const videoResult = await req.pool.query(`INSERT INTO topic_videos (...) ...`, [...]);
    // Update module duration
    await req.pool.query(`UPDATE topic_modules SET duration_minutes = (...) WHERE id = $1`, [moduleId]);
    // Update topic duration
    await req.pool.query(`UPDATE topics SET duration_minutes = (...) WHERE id = $1`, [topicId]);
    ...
    res.json({ success: true, data: {...} });
  } catch (dbError) { return res.status(500)... }
  \<close>
  The request is one whose body holds \<open>title\<close>, \<open>duration\<close> and \<open>order\<close>, and whose
  file the \<open>uploads\<close> table accepts. The product \<open>parseFloat(duration) * 60\<close> is a
  floating point number: the model takes its value as the argument \<open>durationSeconds\<close>,
  \<open>None\<close> when it is no integer (the INSERT then fails). The statements run one by one,
  each committed on its own. An error outside the inner \<open>try\<close> is answered by the outer
  \<open>catch\<close>, with status 400.
\<close>

definition upload_video ::
  "string \<Rightarrow> string \<Rightarrow> jsval \<Rightarrow> int option \<Rightarrow> jsval \<Rightarrow> db \<Rightarrow> response \<times> db" where
  "upload_video topicId moduleId title durationSeconds order db =
     (case required_text title of
        Inl missing \<Rightarrow>
          (if missing then (ClientError 400 ''Video title is required'', db)
           else (CaughtError 400 TypeError, db))
      | Inr title' \<Rightarrow>
          (case pg_int4_in topicId of Inl f \<Rightarrow> (CaughtError 400 f, db) | Inr tid \<Rightarrow>
             if filter (\<lambda>t. t_id t = tid) (topics db) = []
             then (ClientError 404 ''Topic not found'', db)
             else
          (case pg_int4_in moduleId of Inl f \<Rightarrow> (CaughtError 400 f, db) | Inr mid \<Rightarrow>
             if filter (\<lambda>m. m_id m = mid \<and> m_topic_id m = Some tid) (topic_modules db) = []
             then (ClientError 404 ''Module not found in this topic'', db)
             else
               (let ord = (case js_parseInt order of None \<Rightarrow> 1 | Some n \<Rightarrow> if n = 0 then 1 else n)
                in if has_nul (js_trim title') then (ServerError CharacterNotInRepertoire, db)
                   else case durationSeconds of
                     None \<Rightarrow> (ServerError InvalidTextRepresentation, db)
                   | Some d \<Rightarrow>
                       if \<not> int4_range d then (ServerError (int4_failure d), db)
                       else if \<not> int4_range ord then (ServerError (int4_failure ord), db)
                       else
                         (case insert_video (Some tid) (Some mid) (js_trim title') ''mp4''
                                 (Some d) (Some ord) db of
                            Failed f db1 \<Rightarrow> (ServerError f, db1)
                          | Done vid db1 \<Rightarrow>
                              (case recompute_module_duration mid db1 of
                                 Failed f db2 \<Rightarrow> (ServerError f, db2)
                               | Done u db2 \<Rightarrow>
                                   (case recompute_topic_duration tid db2 of
                                      Failed f db3 \<Rightarrow> (ServerError f, db3)
                                    | Done u' db3 \<Rightarrow> (Success 200, db3))))))))"

definition ex_db_course :: db where
  "ex_db_course = \<lparr>topics = [\<lparr>t_id = 1, t_title = ''Intro'', t_slug = ''intro'',
       t_status = Some ''draft'', t_duration_minutes = Some 0, t_published_at = None\<rparr>],
     topic_modules = [\<lparr>m_id = 1, m_topic_id = Some 1, m_order_index = Some 1,
       m_duration_minutes = Some 0\<rparr>],
     topic_videos = [],
     topics_id_seq = 1, topic_modules_id_seq = 1, topic_videos_id_seq = 0\<rparr>"

definition ex_video_body :: video_post_body where
  "ex_video_body = \<lparr>vb_title = JStr ''Lesson'', vb_description = JUndefined,
     vb_videoUrl = JUndefined, vb_videoType = JUndefined, vb_thumbnailUrl = JUndefined,
     vb_durationSeconds = JNum 120, vb_orderIndex = JUndefined, vb_isActive = JUndefined,
     vb_isPreview = JUndefined, vb_transcript = JUndefined\<rparr>"

definition ex_db_course_created :: db where
  "ex_db_course_created = ex_db_course\<lparr>
     topic_videos := [\<lparr>v_id = 1, v_topic_id = Some 1, v_module_id = Some 1,
       v_duration_seconds = Some 120, v_order_index = Some 1\<rparr>],
     topic_videos_id_seq := 1\<rparr>"

definition ex_db_course_uploaded :: db where
  "ex_db_course_uploaded = ex_db_course_created\<lparr>
     topics := [\<lparr>t_id = 1, t_title = ''Intro'', t_slug = ''intro'',
       t_status = Some ''draft'', t_duration_minutes = Some 2, t_published_at = None\<rparr>],
     topic_modules := [\<lparr>m_id = 1, m_topic_id = Some 1, m_order_index = Some 1,
       m_duration_minutes = Some 2\<rparr>]\<rparr>"

lemmas video_eval_simps =
  create_video_def upload_video_def insert_video_def recompute_module_duration_def
  recompute_topic_duration_def sum_video_seconds_def sum_module_minutes_def pg_div_def
  next_order_def validVideoTypes_def video_types_def required_text_def js_trim_def
  js_whitespace_def List.map_filter_def failure_of_def pg_param_text_def pg_param_bool_def
  pg_bool_in_def pg_int_of_number_def pg_varchar_def has_nul_def js_or_def pg_space_def
  toLowerCase_def toLowerCase_char_def

text \<open>
  Claim C3 at the JSON route. Before the request the module and the topic hold 0 minutes
  and the module has no video. POST /api/topics/1/modules/1/videos with
  \<open>durationSeconds = 120\<close> stores the video and answers 201; the module's videos now sum
  to 120 seconds, that is 2 minutes, but the module and the topic still hold 0. The upload
  route on the same input stores 2 in both.
\<close>

theorem json_video_create_leaves_durations_stale:
  "create_video ''1'' ''1'' ex_video_body ex_db_course = (Success 201, ex_db_course_created)
   \<and> map m_duration_minutes (topic_modules ex_db_course_created) = [Some 0]
   \<and> map t_duration_minutes (topics ex_db_course_created) = [Some 0]
   \<and> pg_div (sum_video_seconds 1 ex_db_course_created) 60 = 2
   \<and> upload_video ''1'' ''1'' (JStr ''Lesson'') (Some 120) JUndefined ex_db_course
       = (Success 200, ex_db_course_uploaded)
   \<and> map m_duration_minutes (topic_modules ex_db_course_uploaded) = [Some 2]
   \<and> map t_duration_minutes (topics ex_db_course_uploaded) = [Some 2]"
proof -
  have p: "pg_int4_in ''1'' = Inr 1" by (simp add: parse_eval_simps)
  have r: "int4_range 120" "int4_range 1" "int4_range 2" by (simp_all add: int4_range_def)
  have "create_video ''1'' ''1'' ex_video_body ex_db_course = (Success 201, ex_db_course_created)"
    by (simp add: p r ex_video_body_def ex_db_course_def ex_db_course_created_def
        video_eval_simps Let_def)
  moreover have "upload_video ''1'' ''1'' (JStr ''Lesson'') (Some 120) JUndefined ex_db_course
       = (Success 200, ex_db_course_uploaded)"
    by (simp add: p r ex_db_course_def ex_db_course_created_def ex_db_course_uploaded_def
        video_eval_simps Let_def)
  moreover have "pg_div (sum_video_seconds 1 ex_db_course_created) 60 = 2"
    by (simp add: ex_db_course_def ex_db_course_created_def sum_video_seconds_def pg_div_def)
  ultimately show ?thesis
    by (simp add: ex_db_course_def ex_db_course_created_def ex_db_course_uploaded_def)
qed

lemma in_set_map_if:
  assumes "y \<in> set (map (\<lambda>x. if P x then g x else x) xs)"
  shows "(\<exists>x \<in> set xs. P x \<and> y = g x) \<or> (y \<in> set xs \<and> \<not> P y)"
  using assms by auto

lemma recompute_module_duration_Done:
  assumes "recompute_module_duration mid db = Done u db'"
  shows "topic_videos db' = topic_videos db" and "topics db' = topics db"
    and "topic_modules db' =
           map (\<lambda>m. if m_id m = mid
                    then m\<lparr>m_duration_minutes := Some (pg_div (sum_video_seconds mid db) 60)\<rparr>
                    else m) (topic_modules db)"
  using assms unfolding recompute_module_duration_def Let_def
  by (auto split: if_splits)

lemma recompute_topic_duration_Done:
  assumes "recompute_topic_duration tid db = Done u db'"
  shows "topic_videos db' = topic_videos db" and "topic_modules db' = topic_modules db"
    and "topics db' =
           map (\<lambda>t. if t_id t = tid
                    then t\<lparr>t_duration_minutes := Some (sum_module_minutes tid db)\<rparr>
                    else t) (topics db)"
  using assms unfolding recompute_topic_duration_def Let_def
  by (auto split: if_splits)

lemma upload_video_Success:
  assumes "upload_video topicId moduleId title durationSeconds order db = (Success c, db')"
  obtains tid mid title' d ord vid db1 db2 where
    "pg_int4_in topicId = Inr tid" "pg_int4_in moduleId = Inr mid"
    "insert_video (Some tid) (Some mid) title' ''mp4'' (Some d) (Some ord) db = Done vid db1"
    "recompute_module_duration mid db1 = Done () db2"
    "recompute_topic_duration tid db2 = Done () db'"
  using assms unfolding upload_video_def Let_def
  by (auto split: sum.splits if_splits option.splits outcome.splits)

text \<open>
  The upload route: after a successful request, the module holds the sum of its videos'
  seconds divided by 60, and the topic holds the sum of its modules' minutes.
\<close>

lemma upload_video_recomputes:
  assumes "upload_video topicId moduleId title durationSeconds order db = (Success c, db')"
  shows "\<exists>tid mid. pg_int4_in topicId = Inr tid \<and> pg_int4_in moduleId = Inr mid
     \<and> (\<forall>m \<in> set (topic_modules db'). m_id m = mid \<longrightarrow>
            m_duration_minutes m = Some (pg_div (sum_video_seconds mid db') 60))
     \<and> (\<forall>t \<in> set (topics db'). t_id t = tid \<longrightarrow>
            t_duration_minutes t = Some (sum_module_minutes tid db'))"
proof -
  from assms obtain tid mid title' d ord vid db1 db2 where
    p: "pg_int4_in topicId = Inr tid" "pg_int4_in moduleId = Inr mid"
    and i: "insert_video (Some tid) (Some mid) title' ''mp4'' (Some d) (Some ord) db
        = Done vid db1"
    and rm: "recompute_module_duration mid db1 = Done () db2"
    and rt: "recompute_topic_duration tid db2 = Done () db'"
    by (rule upload_video_Success)
  note m = recompute_module_duration_Done [OF rm]
  note t = recompute_topic_duration_Done [OF rt]
  have sv: "sum_video_seconds mid db' = sum_video_seconds mid db1"
    by (simp add: sum_video_seconds_def t(1) m(1))
  have sm: "sum_module_minutes tid db' = sum_module_minutes tid db2"
    by (simp add: sum_module_minutes_def t(2))
  have a: "\<forall>m \<in> set (topic_modules db'). m_id m = mid \<longrightarrow>
            m_duration_minutes m = Some (pg_div (sum_video_seconds mid db') 60)"
  proof (intro ballI impI)
    fix m assume mem: "m \<in> set (topic_modules db')" and e: "m_id m = mid"
    from mem have "(\<exists>x \<in> set (topic_modules db1). m_id x = mid
          \<and> m = x\<lparr>m_duration_minutes := Some (pg_div (sum_video_seconds mid db1) 60)\<rparr>)
        \<or> (m \<in> set (topic_modules db1) \<and> \<not> m_id m = mid)"
      unfolding t(2) m(3) by (rule in_set_map_if)
    with e obtain x where
      "m = x\<lparr>m_duration_minutes := Some (pg_div (sum_video_seconds mid db1) 60)\<rparr>" by blast
    then show "m_duration_minutes m = Some (pg_div (sum_video_seconds mid db') 60)"
      by (simp add: sv)
  qed
  have b: "\<forall>t \<in> set (topics db'). t_id t = tid \<longrightarrow>
            t_duration_minutes t = Some (sum_module_minutes tid db')"
  proof (intro ballI impI)
    fix x assume mem: "x \<in> set (topics db')" and e: "t_id x = tid"
    from mem have "(\<exists>y \<in> set (topics db2). t_id y = tid
          \<and> x = y\<lparr>t_duration_minutes := Some (sum_module_minutes tid db2)\<rparr>)
        \<or> (x \<in> set (topics db2) \<and> \<not> t_id x = tid)"
      unfolding t(3) by (rule in_set_map_if)
    with e obtain y where
      "x = y\<lparr>t_duration_minutes := Some (sum_module_minutes tid db2)\<rparr>" by blast
    then show "t_duration_minutes x = Some (sum_module_minutes tid db')"
      by (simp add: sm)
  qed
  from p a b show ?thesis by blast
qed

section \<open>PUT /api/topics/:id\<close>

subsection \<open>The request body\<close>

text \<open>
  The body is an object whose values are of the kinds of \<open>jsval\<close>: \<open>pt_entries\<close> are
  its entries other than \<open>modules\<close>, in the order of \<open>Object.entries\<close>, and
  \<open>pt_modules\<close> is the \<open>modules\<close> array, \<open>None\<close> when the field is absent or no
  array. An entry of the array is an object with the fields that the handler reads;
  \<open>videos\<close> is \<open>None\<close> when absent or no array.
\<close>

record video_entry =
  ve_id :: jsval
  ve_title :: jsval
  ve_description :: jsval
  ve_videoUrl :: jsval
  ve_duration :: jsval
  ve_order :: jsval
  ve_videoType :: jsval
  ve_isPreview :: jsval

record module_entry =
  me_id :: jsval
  me_title :: jsval
  me_description :: jsval
  me_order :: jsval
  me_videos :: "video_entry list option"

record put_body =
  pt_entries :: "(string \<times> jsval) list"
  pt_modules :: "module_entry list option"

text \<open>
  What the handler and its statements meet outside the three tables of the model:
  \<^item> the id that the name queries on \<open>category\<close> and \<open>subcategory\<close> find for a name
    (\<open>None\<close> when they find none);
  \<^item> \<open>Math.round(parseFloat(s) * 60)\<close> for the \<open>duration\<close> string (\<open>None\<close> for NaN);
  \<^item> whether a row of \<open>category\<close> or \<open>subcategory\<close> has a given id (the two foreign
    keys of \<open>topics\<close>);
  \<^item> the server's verdict on a text sent for the column \<open>price\<close> (DECIMAL(10,2)) or
    for \<open>tags\<close> and \<open>target_audience\<close> (JSONB): \<open>None\<close> when it accepts the text.
\<close>

record env =
  find_category :: "string \<Rightarrow> int option"
  find_subcategory :: "string \<Rightarrow> int option"
  hours_to_minutes :: "string \<Rightarrow> int option"
  category_exists :: "int \<Rightarrow> bool"
  subcategory_exists :: "int \<Rightarrow> bool"
  column_input :: "string \<Rightarrow> string \<Rightarrow> failure option"

subsection \<open>The topic's own fields\<close>

text \<open>
  \<^verbatim>\<open>
  if (updateData.title && updateData.title !== existing.rows[0].title) {
    const baseSlug = generateSlug(updateData.title);
    let slug = baseSlug;
    let counter = 1;
    while (true) {
      const slugCheck = await req.pool.query(
        'SELECT id FROM topics WHERE slug = $1 AND id != $2', [slug, id]);
      if (slugCheck.rows.length === 0) break;
      slug = `${baseSlug}-${counter}`;
      counter++;
    }
    updateData.slug = slug;
  }
  \<close>
\<close>

definition entry_of :: "string \<Rightarrow> (string \<times> jsval) list \<Rightarrow> jsval" where
  "entry_of key entries = (case map_of entries key of None \<Rightarrow> JUndefined | Some v \<Rightarrow> v)"

definition set_entry :: "string \<Rightarrow> jsval \<Rightarrow> (string \<times> jsval) list \<Rightarrow> (string \<times> jsval) list" where
  "set_entry key v entries =
     (if key \<in> set (map fst entries)
      then map (\<lambda>(k, v'). if k = key then (k, v) else (k, v')) entries
      else entries @ [(key, v)])"

definition with_slug ::
  "int \<Rightarrow> topic \<Rightarrow> (string \<times> jsval) list \<Rightarrow> db \<Rightarrow> failure + (string \<times> jsval) list" where
  "with_slug tid existing entries db =
     (let title = entry_of ''title'' entries
      in if js_truthy title \<and> title \<noteq> JStr (t_title existing)
         then (case title of
                 JStr s \<Rightarrow>
                   (let baseSlug = generateSlug s;
                        slug = slug_loop (map t_slug (filter (\<lambda>t. t_id t \<noteq> tid) (topics db)))
                                 baseSlug baseSlug 1
                    in Inr (set_entry ''slug'' (JStr slug) entries))
               | _ \<Rightarrow> Inl TypeError)
         else Inr entries)"

text \<open>
  \<^verbatim>\<open>
  const allowedFields = [ 'title', 'description', 'content', 'slug', 'category_id', ... ];
  for (const [key, value] of Object.entries(updateData)) {
    let dbField = key.replace(/([A-Z])/g, '_$1').toLowerCase();
    if (key === 'featured') dbField = 'is_featured';
    if (key === 'thumbnail') dbField = 'thumbnail_url';
    if (key === 'category') {
      dbField = 'category_id';
      if (typeof value === 'string') {
        const numericValue = parseInt(value);
        if (!isNaN(numericValue)) { updateData[key] = numericValue; }
        else { ... name queries, with the name as a text parameter ...
          if (categoryResult.rows.length > 0) { updateData[key] = categoryResult.rows[0].id; }
          else { continue; } } } }
    if (key === 'subcategory') { ... the same with subcategory_id ... }
    if (key === 'duration' && typeof value === 'string') {
      const durationFloat = parseFloat(value);
      if (!isNaN(durationFloat)) {
        dbField = 'duration_minutes';
        updateData[key] = Math.round(durationFloat * 60); } }
    if (allowedFields.includes(dbField)) {
      updateFields.push(`${dbField} = $${paramCount}`);
      if (key === 'tags' || key === 'targetAudience') {
        updateValues.push(JSON.stringify(value || []));
      } else { updateValues.push(updateData[key]); }
      paramCount++; }
  }
  if (updateFields.length === 0) {
    return res.status(400).json({ success: false, error: 'No valid fields to update' });
  }
  \<close>
\<close>

definition allowedFields :: "string list" where
  "allowedFields =
     [''title'', ''description'', ''content'', ''slug'', ''category_id'', ''subcategory_id'',
      ''difficulty'', ''status'', ''is_featured'', ''is_free'', ''price'', ''duration_minutes'',
      ''thumbnail_url'', ''tags'', ''meta_title'', ''meta_description'', ''meta_keywords'',
      ''author_id'', ''emoji'', ''learning_objectives'', ''target_audience'', ''prerequisites'']"

definition is_upper_ascii :: "char \<Rightarrow> bool" where
  "is_upper_ascii c = (65 \<le> (of_char c :: nat) \<and> (of_char c :: nat) \<le> 90)"

definition camel_to_snake :: "string \<Rightarrow> string" where
  "camel_to_snake key =
     toLowerCase (concat (map (\<lambda>c. if is_upper_ascii c then [CHR ''_'', c] else [c]) key))"

text \<open>\<open>JSON.stringify(value || [])\<close> on the values of the model: a string is quoted,
  with the quote, the backslash and the control characters escaped.\<close>

definition hex_digit :: "nat \<Rightarrow> char" where
  "hex_digit d = ''0123456789abcdef'' ! d"

definition json_escape :: "char \<Rightarrow> string" where
  "json_escape c =
     (let n = (of_char c :: nat)
      in if n = 34 then [CHR 0x5C, CHR 0x22]
         else if n = 92 then [CHR 0x5C, CHR 0x5C]
         else if n = 8 then [CHR 0x5C, CHR ''b'']
         else if n = 9 then [CHR 0x5C, CHR ''t'']
         else if n = 10 then [CHR 0x5C, CHR ''n'']
         else if n = 12 then [CHR 0x5C, CHR ''f'']
         else if n = 13 then [CHR 0x5C, CHR ''r'']
         else if n < 32
           then [CHR 0x5C, CHR ''u'', CHR ''0'', CHR ''0'', hex_digit (n div 16),
                 hex_digit (n mod 16)]
         else [c])"

definition json_stringify_or_empty :: "jsval \<Rightarrow> string" where
  "json_stringify_or_empty v =
     (if \<not> js_truthy v then ''[]''
      else case v of
        JStr s \<Rightarrow> [CHR 0x22] @ concat (map json_escape s) @ [CHR 0x22]
      | JNum n \<Rightarrow> show_int (sint n)
      | _ \<Rightarrow> ''true'')"

text \<open>What the loop pushes for a field: the value of the body, or a number that the loop
  has computed (the result of \<open>parseInt\<close>, the id that a query has found, or the minutes
  of a duration), which always goes to an INTEGER column.\<close>

datatype sent = Given jsval | Computed int

text \<open>The value that a \<open>category\<close> or \<open>subcategory\<close> key sends: a string that begins
  with a number is that number; another string is looked up by two queries that bind it
  as a text, and the key is left out when they find nothing.\<close>

definition named_reference ::
  "(string \<Rightarrow> int option) \<Rightarrow> string \<Rightarrow> jsval \<Rightarrow> failure + (string \<times> sent) option" where
  "named_reference lookup column value =
     (case value of
        JStr s \<Rightarrow>
          (case js_parseInt_str s of
             Some n \<Rightarrow> Inr (Some (column, Computed n))
           | None \<Rightarrow>
               if has_nul s then Inl CharacterNotInRepertoire
               else (case lookup s of
                       Some i \<Rightarrow> Inr (Some (column, Computed i))
                     | None \<Rightarrow> Inr None))
      | _ \<Rightarrow> Inr (Some (column, Given value)))"

definition update_field :: "env \<Rightarrow> string \<times> jsval \<Rightarrow> failure + (string \<times> sent) option" where
  "update_field e kv =
     (case kv of (key, value) \<Rightarrow>
        if key = ''category'' then named_reference (find_category e) ''category_id'' value
        else if key = ''subcategory''
          then named_reference (find_subcategory e) ''subcategory_id'' value
        else if key = ''duration''
          then (case value of
                  JStr s \<Rightarrow> (case hours_to_minutes e s of
                              Some n \<Rightarrow> Inr (Some (''duration_minutes'', Computed n))
                            | None \<Rightarrow> Inr None)
                | _ \<Rightarrow> Inr None)
        else
          (let dbField = (if key = ''featured'' then ''is_featured''
                          else if key = ''thumbnail'' then ''thumbnail_url''
                          else camel_to_snake key)
           in if dbField \<in> set allowedFields
              then Inr (Some (dbField,
                              Given (if key = ''tags'' \<or> key = ''targetAudience''
                                     then JStr (json_stringify_or_empty value) else value)))
              else Inr None))"

text \<open>A list of steps of which the first failure ends the run.\<close>

fun collect :: "('a \<Rightarrow> failure + 'b) \<Rightarrow> 'a list \<Rightarrow> failure + 'b list" where
  "collect f [] = Inr []"
| "collect f (x # xs) =
     (case f x of
        Inl e \<Rightarrow> Inl e
      | Inr y \<Rightarrow> (case collect f xs of Inl e \<Rightarrow> Inl e | Inr ys \<Rightarrow> Inr (y # ys)))"

definition update_fields ::
  "env \<Rightarrow> (string \<times> jsval) list \<Rightarrow> failure + (string \<times> sent) list" where
  "update_fields e entries =
     (case collect (update_field e) entries of
        Inl f \<Rightarrow> Inl f
      | Inr found \<Rightarrow> Inr (List.map_filter id found))"

text \<open>
  \<open>UPDATE topics SET <field> = $n, ..., updated_at = CURRENT_TIMESTAMP WHERE id = $k
  RETURNING *\<close>. A column named twice is a syntax error. Then the parameters are bound,
  in their order, each by the type of its column: the texts are checked against the
  encoding, the integers and booleans are read, and for \<open>price\<close>, \<open>tags\<close> and
  \<open>target_audience\<close> the server's verdict is that of the surroundings. Then the texts
  are fitted to the lengths of their columns. Then the row is written: \<open>title\<close> and
  \<open>slug\<close> are NOT NULL, \<open>difficulty\<close> and \<open>status\<close> have their CHECK, \<open>slug\<close> is
  UNIQUE, and \<open>category_id\<close> and \<open>subcategory_id\<close> are foreign keys. Of the new values
  the row of the model keeps \<open>title\<close>, \<open>slug\<close>, \<open>status\<close> and \<open>duration_minutes\<close>.
\<close>

datatype bound = BNull | BText string | BInt int | BBool bool

definition integer_columns :: "string list" where
  "integer_columns = [''category_id'', ''subcategory_id'', ''duration_minutes'', ''author_id'']"

definition boolean_columns :: "string list" where
  "boolean_columns = [''is_featured'', ''is_free'']"

definition text_columns :: "string list" where
  "text_columns =
     [''title'', ''description'', ''content'', ''slug'', ''difficulty'', ''status'',
      ''thumbnail_url'', ''meta_title'', ''meta_description'', ''meta_keywords'', ''emoji'',
      ''learning_objectives'', ''prerequisites'']"

definition bind_column :: "env \<Rightarrow> string \<times> sent \<Rightarrow> failure + string \<times> bound" where
  "bind_column e fv =
     (case fv of
        (field, Computed n) \<Rightarrow>
          (case pg_int_of_number n of Inl f \<Rightarrow> Inl f | Inr i \<Rightarrow> Inr (field, BInt i))
      | (field, Given v) \<Rightarrow>
        if field \<in> set integer_columns then
          (case pg_int_param v of
             Inl f \<Rightarrow> Inl f
           | Inr None \<Rightarrow> Inr (field, BNull)
           | Inr (Some n) \<Rightarrow> Inr (field, BInt n))
        else if field \<in> set boolean_columns then
          (case pg_param_bool v of
             Inl f \<Rightarrow> Inl f
           | Inr None \<Rightarrow> Inr (field, BNull)
           | Inr (Some b) \<Rightarrow> Inr (field, BBool b))
        else
          (case pg_param_text v of
             Inl f \<Rightarrow> Inl f
           | Inr None \<Rightarrow> Inr (field, BNull)
           | Inr (Some s) \<Rightarrow>
               if field \<in> set text_columns then Inr (field, BText s)
               else (case column_input e field s of
                       Some f \<Rightarrow> Inl f
                     | None \<Rightarrow> Inr (field, BText s))))"

definition column_length :: "string \<Rightarrow> nat option" where
  "column_length field =
     map_of [(''title'', 255), (''slug'', 255), (''difficulty'', 20), (''status'', 20),
             (''meta_title'', 255), (''emoji'', 10)] field"

definition fit_column :: "string \<times> bound \<Rightarrow> failure + string \<times> bound" where
  "fit_column fb =
     (case fb of
        (field, BText s) \<Rightarrow>
          (case column_length field of
             None \<Rightarrow> Inr (field, BText s)
           | Some n \<Rightarrow> (case pg_varchar n s of Inl f \<Rightarrow> Inl f | Inr s' \<Rightarrow> Inr (field, BText s')))
      | _ \<Rightarrow> Inr fb)"

definition topic_difficulties :: "string list" where
  "topic_difficulties = [''beginner'', ''intermediate'', ''advanced'']"

definition not_null_violated :: "(string \<times> bound) list \<Rightarrow> bool" where
  "not_null_violated assignments =
     list_ex (\<lambda>fb. fb = (''title'', BNull) \<or> fb = (''slug'', BNull)) assignments"

definition check_violated :: "(string \<times> bound) list \<Rightarrow> bool" where
  "check_violated assignments =
     list_ex (\<lambda>fb. case fb of
                (field, BText s) \<Rightarrow>
                  field = ''difficulty'' \<and> s \<notin> set topic_difficulties
                  \<or> field = ''status'' \<and> s \<notin> set topic_statuses
              | _ \<Rightarrow> False) assignments"

definition reference_violated :: "env \<Rightarrow> (string \<times> bound) list \<Rightarrow> bool" where
  "reference_violated e assignments =
     list_ex (\<lambda>fb. case fb of
                (field, BInt n) \<Rightarrow>
                  field = ''category_id'' \<and> \<not> category_exists e n
                  \<or> field = ''subcategory_id'' \<and> \<not> subcategory_exists e n
              | _ \<Rightarrow> False) assignments"

definition assign_column :: "string \<times> bound \<Rightarrow> topic \<Rightarrow> topic" where
  "assign_column fb t =
     (case fb of
        (field, BText s) \<Rightarrow>
          if field = ''title'' then t\<lparr>t_title := s\<rparr>
          else if field = ''slug'' then t\<lparr>t_slug := s\<rparr>
          else if field = ''status'' then t\<lparr>t_status := Some s\<rparr>
          else t
      | (field, BNull) \<Rightarrow>
          if field = ''status'' then t\<lparr>t_status := None\<rparr>
          else if field = ''duration_minutes'' then t\<lparr>t_duration_minutes := None\<rparr>
          else t
      | (field, BInt n) \<Rightarrow>
          if field = ''duration_minutes'' then t\<lparr>t_duration_minutes := Some n\<rparr> else t
      | _ \<Rightarrow> t)"

definition assign_columns :: "(string \<times> bound) list \<Rightarrow> topic \<Rightarrow> topic" where
  "assign_columns assignments t = fold assign_column assignments t"

definition update_topic :: "env \<Rightarrow> int \<Rightarrow> (string \<times> sent) list \<Rightarrow> db \<Rightarrow> failure + db" where
  "update_topic e tid assignments db =
     (if \<not> distinct (map fst assignments) then Inl SyntaxError
      else case collect (bind_column e) assignments of
        Inl f \<Rightarrow> Inl f
      | Inr bound_values \<Rightarrow>
          (case collect fit_column bound_values of
             Inl f \<Rightarrow> Inl f
           | Inr new_values \<Rightarrow>
               if filter (\<lambda>t. t_id t = tid) (topics db) = [] then Inr db
               else if not_null_violated new_values then Inl NotNullViolation
               else if check_violated new_values then Inl CheckViolation
               else
                 (let rows = map (\<lambda>t. if t_id t = tid then assign_columns new_values t else t)
                                 (topics db)
                  in if list_ex (\<lambda>s. s \<in> set (map t_slug (filter (\<lambda>t. t_id t \<noteq> tid) rows)))
                          (map t_slug (filter (\<lambda>t. t_id t = tid) rows))
                     then Inl UniqueViolation
                     else if reference_violated e new_values then Inl ForeignKeyViolation
                     else Inr (db\<lparr>topics := rows\<rparr>))))"

subsection \<open>The modules and videos of the payload\<close>

text \<open>\<open>v || 'default'\<close> bound to a text parameter.\<close>

definition text_or :: "jsval \<Rightarrow> string \<Rightarrow> failure + string" where
  "text_or v fallback =
     (case pg_param_text (js_or v (JStr fallback)) of
        Inl f \<Rightarrow> Inl f
      | Inr None \<Rightarrow> Inr fallback
      | Inr (Some s) \<Rightarrow> Inr s)"

text \<open>\<open>const durationSeconds = videoData.duration ? parseInt(videoData.duration) * 60 : 0;\<close>
  bound to the INTEGER parameter (NaN is no integer). The product is one of doubles: it is
  1e21 or more, and sent with an exponent, from 16666666666666664961 minutes on.\<close>

definition seconds_of_minutes :: "int \<Rightarrow> failure + int" where
  "seconds_of_minutes n =
     (if int4_range (n * 60) then Inr (n * 60)
      else if 16666666666666664961 \<le> \<bar>n\<bar> then Inl InvalidTextRepresentation
      else Inl NumericValueOutOfRange)"

definition duration_param :: "jsval \<Rightarrow> failure + int" where
  "duration_param d =
     (if js_truthy d
      then (case js_parseInt d of
              None \<Rightarrow> Inl InvalidTextRepresentation
            | Some n \<Rightarrow> seconds_of_minutes n)
      else Inr 0)"

text \<open>\<open>moduleData.order || moduleIndex + 1\<close> and \<open>videoData.order || videoIndex + 1\<close>,
  bound to the INTEGER parameter.\<close>

definition order_param :: "jsval \<Rightarrow> nat \<Rightarrow> failure + int option" where
  "order_param order index =
     (if js_truthy order then pg_int_param order
      else (case pg_int_of_number (int index + 1) of
              Inl f \<Rightarrow> Inl f
            | Inr n \<Rightarrow> Inr (Some n)))"

text \<open>
  The parameters that the INSERT and the UPDATE of a video share, bound in their order:
  \<^verbatim>\<open>
  videoData.title || 'Untitled Video', videoData.description || '', videoData.videoUrl || '',
  durationSeconds, videoData.order || videoIndex + 1, videoData.videoType || 'mp4',
  videoData.isPreview || false
  \<close>
\<close>

record video_params =
  vp_title :: string
  vp_video_type :: string
  vp_duration :: int
  vp_order :: "int option"

definition bind_video :: "video_entry \<Rightarrow> nat \<Rightarrow> failure + video_params" where
  "bind_video videoData videoIndex =
     (case text_or (ve_title videoData) ''Untitled Video'' of Inl f \<Rightarrow> Inl f | Inr title \<Rightarrow>
     (case text_or (ve_description videoData) [] of Inl f \<Rightarrow> Inl f | Inr description \<Rightarrow>
     (case text_or (ve_videoUrl videoData) [] of Inl f \<Rightarrow> Inl f | Inr videoUrl \<Rightarrow>
     (case duration_param (ve_duration videoData) of Inl f \<Rightarrow> Inl f | Inr durationSeconds \<Rightarrow>
     (case order_param (ve_order videoData) videoIndex of Inl f \<Rightarrow> Inl f | Inr ord \<Rightarrow>
     (case text_or (ve_videoType videoData) ''mp4'' of Inl f \<Rightarrow> Inl f | Inr videoType \<Rightarrow>
     (case pg_param_bool (js_or (ve_isPreview videoData) (JBool False)) of
        Inl f \<Rightarrow> Inl f
      | Inr isPreview \<Rightarrow>
          Inr \<lparr>vp_title = title, vp_video_type = videoType, vp_duration = durationSeconds,
               vp_order = ord\<rparr>)))))))"

text \<open>
  After the statement on a video:
  \<^verbatim>\<open>
  if (videoData.videoUrl && videoData.videoUrl.startsWith('/api/uploads/')) {
    ... UPDATE uploads SET metadata = ... WHERE filename = $4 AND upload_type = 'video'
  }
  \<close>
  A \<open>videoUrl\<close> that is truthy and no string has no \<open>startsWith\<close>. The \<open>uploads\<close>
  table is not part of the model.
\<close>

definition link_upload :: "jsval \<Rightarrow> failure option" where
  "link_upload videoUrl =
     (if js_truthy videoUrl then (case videoUrl of JStr s \<Rightarrow> None | _ \<Rightarrow> Some TypeError)
      else None)"

text \<open>The INSERT of a video entry that carries the marker, for both kinds of module.\<close>

definition insert_new_video :: "int \<Rightarrow> int \<Rightarrow> nat \<Rightarrow> video_entry \<Rightarrow> db \<Rightarrow> unit outcome" where
  "insert_new_video tid mid videoIndex videoData db =
     (case bind_video videoData videoIndex of
        Inl f \<Rightarrow> Failed f db
      | Inr p \<Rightarrow>
          (case insert_video (Some tid) (Some mid) (vp_title p) (vp_video_type p)
                  (Some (vp_duration p)) (vp_order p) db of
             Failed f db' \<Rightarrow> Failed f db'
           | Done videoId db' \<Rightarrow>
               (case link_upload (ve_videoUrl videoData) of
                  Some f \<Rightarrow> Failed f db'
                | None \<Rightarrow> Done () db')))"

text \<open>
  The videos of a module that has just been inserted: only entries with the marker are
  looked at.
  \<^verbatim>\<open>
  for (const [videoIndex, videoData] of moduleData.videos.entries()) {
    if (videoData.id && typeof videoData.id === 'string' && videoData.id.startsWith('new-')) {
      ... INSERT INTO topic_videos ...
    }
  }
  \<close>
\<close>

fun new_module_videos :: "int \<Rightarrow> int \<Rightarrow> nat \<Rightarrow> video_entry list \<Rightarrow> db \<Rightarrow> unit outcome" where
  "new_module_videos tid mid videoIndex [] db = Done () db"
| "new_module_videos tid mid videoIndex (videoData # rest) db =
     (if js_truthy (ve_id videoData) \<and> is_new_marker (ve_id videoData)
      then (case insert_new_video tid mid videoIndex videoData db of
              Failed f db' \<Rightarrow> Failed f db'
            | Done u db' \<Rightarrow> new_module_videos tid mid (Suc videoIndex) rest db')
      else new_module_videos tid mid (Suc videoIndex) rest db)"

text \<open>
  The UPDATE of a video entry whose id \<open>parseInt\<close> reads as a number; the id itself is
  the eighth parameter. (A truthy id is never bound as NULL; were it, no row would match.)
\<close>

definition update_existing_video ::
  "int \<Rightarrow> nat \<Rightarrow> video_entry \<Rightarrow> db \<Rightarrow> unit outcome" where
  "update_existing_video mid videoIndex videoData db =
     (case bind_video videoData videoIndex of
        Inl f \<Rightarrow> Failed f db
      | Inr p \<Rightarrow>
          (case pg_int_param (ve_id videoData) of
             Inl f \<Rightarrow> Failed f db
           | Inr vid \<Rightarrow>
               (case (case vid of
                        None \<Rightarrow> Done () db
                      | Some video_id \<Rightarrow>
                          update_video video_id mid (vp_title p) (vp_video_type p)
                            (Some (vp_duration p)) (vp_order p) db) of
                  Failed f db' \<Rightarrow> Failed f db'
                | Done u db' \<Rightarrow>
                    (case link_upload (ve_videoUrl videoData) of
                       Some f \<Rightarrow> Failed f db'
                     | None \<Rightarrow> Done () db'))))"

text \<open>
  The videos of an existing module; \<open>existingVideoIds\<close> is the list that the entries are
  struck from.
  \<^verbatim>\<open>
  for (const [videoIndex, videoData] of moduleData.videos.entries()) {
    if (videoData.id && typeof videoData.id === 'string' && videoData.id.startsWith('new-')) {
      ... INSERT INTO topic_videos ...
    } else if (videoData.id && !isNaN(parseInt(videoData.id))) {
      const durationSeconds = videoData.duration ? parseInt(videoData.duration) * 60 : 0;
      await client.query(`UPDATE topic_videos SET ... WHERE id = $8 AND module_id = $9`,
        [..., durationSeconds, videoData.order || videoIndex + 1, ..., videoData.id, moduleId]);
      ...
      const videoIdNum = parseInt(videoData.id);
      const index = existingVideoIds.indexOf(videoIdNum);
      if (index > -1) { existingVideoIds.splice(index, 1); }
    }
  }
  \<close>
\<close>

fun existing_module_videos ::
  "int \<Rightarrow> int \<Rightarrow> nat \<Rightarrow> video_entry list \<Rightarrow> int list \<Rightarrow> db \<Rightarrow> (int list) outcome" where
  "existing_module_videos tid mid videoIndex [] existingVideoIds db = Done existingVideoIds db"
| "existing_module_videos tid mid videoIndex (videoData # rest) existingVideoIds db =
     (if js_truthy (ve_id videoData) \<and> is_new_marker (ve_id videoData)
      then (case insert_new_video tid mid videoIndex videoData db of
              Failed f db' \<Rightarrow> Failed f db'
            | Done u db' \<Rightarrow>
                existing_module_videos tid mid (Suc videoIndex) rest existingVideoIds db')
      else if js_truthy (ve_id videoData)
      then (case js_parseInt (ve_id videoData) of
              None \<Rightarrow> existing_module_videos tid mid (Suc videoIndex) rest existingVideoIds db
            | Some videoIdNum \<Rightarrow>
                (case update_existing_video mid videoIndex videoData db of
                   Failed f db' \<Rightarrow> Failed f db'
                 | Done u db' \<Rightarrow>
                     existing_module_videos tid mid (Suc videoIndex) rest
                       (remove1 videoIdNum existingVideoIds) db'))
      else existing_module_videos tid mid (Suc videoIndex) rest existingVideoIds db)"

text \<open>\<open>for (const videoId of existingVideoIds) { DELETE FROM topic_videos WHERE id = $1 }\<close>
  and the same loop over \<open>existingModuleIds\<close>.\<close>

definition delete_videos :: "int list \<Rightarrow> db \<Rightarrow> db" where
  "delete_videos ids db = fold delete_video ids db"

definition delete_modules :: "int list \<Rightarrow> db \<Rightarrow> db" where
  "delete_modules ids db = fold delete_module ids db"

text \<open>
  One entry of \<open>modules\<close>.
  \<^verbatim>\<open>
  let moduleId = moduleData.id;
  if (moduleId && typeof moduleId === 'string' && moduleId.startsWith('new-')) {
    const moduleResult = await client.query(`INSERT INTO topic_modules ... RETURNING id`,
      [id, moduleData.title || 'Untitled Module', moduleData.description || '',
       moduleData.order || moduleIndex + 1, 0, true]);
    moduleId = moduleResult.rows[0].id;
    if (moduleData.videos && Array.isArray(moduleData.videos)) { ... }
  } else if (moduleId && !isNaN(parseInt(moduleId))) {
    await client.query(`UPDATE topic_modules SET title = $1, description = $2,
      order_index = $3, ... WHERE id = $4 AND topic_id = $5`,
      [moduleData.title || 'Untitled Module', moduleData.description || '',
       moduleData.order || moduleIndex + 1, moduleId, id]);
    const moduleIdNum = parseInt(moduleId);
    const index = existingModuleIds.indexOf(moduleIdNum);
    if (index > -1) { existingModuleIds.splice(index, 1); }
    if (moduleData.videos && Array.isArray(moduleData.videos)) {
      const existingVideosResult = await client.query(
        'SELECT id FROM topic_videos WHERE module_id = $1', [moduleId]);
      const existingVideoIds = existingVideosResult.rows.map(v => v.id);
      ... the loop over the videos ...
      for (const videoId of existingVideoIds) { ... DELETE ... }
    }
  }
  \<close>
  The title, the description and the order are the first parameters of both statements.
\<close>

record module_params =
  mp_title :: string
  mp_order :: "int option"

definition bind_module :: "module_entry \<Rightarrow> nat \<Rightarrow> failure + module_params" where
  "bind_module moduleData moduleIndex =
     (case text_or (me_title moduleData) ''Untitled Module'' of Inl f \<Rightarrow> Inl f | Inr title \<Rightarrow>
     (case text_or (me_description moduleData) [] of Inl f \<Rightarrow> Inl f | Inr description \<Rightarrow>
     (case order_param (me_order moduleData) moduleIndex of
        Inl f \<Rightarrow> Inl f
      | Inr ord \<Rightarrow> Inr \<lparr>mp_title = title, mp_order = ord\<rparr>)))"

definition process_module ::
  "int \<Rightarrow> nat \<Rightarrow> module_entry \<Rightarrow> int list \<Rightarrow> db \<Rightarrow> (int list) outcome" where
  "process_module tid moduleIndex moduleData existingModuleIds db =
     (if js_truthy (me_id moduleData) \<and> is_new_marker (me_id moduleData)
      then
        (case bind_module moduleData moduleIndex of
           Inl f \<Rightarrow> Failed f db
         | Inr p \<Rightarrow>
             (case insert_module tid (mp_title p) (mp_order p) db of
                Failed f db' \<Rightarrow> Failed f db'
              | Done moduleId db' \<Rightarrow>
                  (case me_videos moduleData of
                     None \<Rightarrow> Done existingModuleIds db'
                   | Some videos \<Rightarrow>
                       (case new_module_videos tid moduleId 0 videos db' of
                          Failed f db'' \<Rightarrow> Failed f db''
                        | Done u db'' \<Rightarrow> Done existingModuleIds db''))))
      else if js_truthy (me_id moduleData)
      then
        (case js_parseInt (me_id moduleData) of
           None \<Rightarrow> Done existingModuleIds db
         | Some moduleIdNum \<Rightarrow>
             (case bind_module moduleData moduleIndex of
                Inl f \<Rightarrow> Failed f db
              | Inr p \<Rightarrow>
                  (case pg_int_param (me_id moduleData) of
                     Inl f \<Rightarrow> Failed f db
                   | Inr None \<Rightarrow> Done (remove1 moduleIdNum existingModuleIds) db
                   | Inr (Some mid) \<Rightarrow>
                       (case update_module mid tid (mp_title p) (mp_order p) db of
                          Failed f db' \<Rightarrow> Failed f db'
                        | Done u db' \<Rightarrow>
                            (let remaining = remove1 moduleIdNum existingModuleIds
                             in case me_videos moduleData of
                                  None \<Rightarrow> Done remaining db'
                                | Some videos \<Rightarrow>
                                    (let existingVideoIds =
                                           map v_id (filter (\<lambda>v. v_module_id v = Some mid)
                                                            (topic_videos db'))
                                     in case existing_module_videos tid mid 0 videos
                                               existingVideoIds db' of
                                          Failed f db'' \<Rightarrow> Failed f db''
                                        | Done leftover db'' \<Rightarrow>
                                            Done remaining (delete_videos leftover db'')))))))
      else Done existingModuleIds db)"

fun process_modules ::
  "int \<Rightarrow> nat \<Rightarrow> module_entry list \<Rightarrow> int list \<Rightarrow> db \<Rightarrow> (int list) outcome" where
  "process_modules tid moduleIndex [] existingModuleIds db = Done existingModuleIds db"
| "process_modules tid moduleIndex (moduleData # rest) existingModuleIds db =
     (case process_module tid moduleIndex moduleData existingModuleIds db of
        Failed f db' \<Rightarrow> Failed f db'
      | Done remaining db' \<Rightarrow> process_modules tid (Suc moduleIndex) rest remaining db')"

text \<open>
  The part between BEGIN and COMMIT.
  \<^verbatim>\<open>
  const existingModules = await client.query(
    'SELECT id FROM topic_modules WHERE topic_id = $1', [id]);
  const existingModuleIds = existingModules.rows.map(m => m.id);
  for (const [moduleIndex, moduleData] of updateData.modules.entries()) { ... }
  for (const moduleId of existingModuleIds) {
    await client.query('DELETE FROM topic_modules WHERE id = $1', [moduleId]);
  }
  \<close>
\<close>

definition reconcile_modules :: "int \<Rightarrow> module_entry list \<Rightarrow> db \<Rightarrow> unit outcome" where
  "reconcile_modules tid modules db =
     (let existingModuleIds =
            map m_id (filter (\<lambda>m. m_topic_id m = Some tid) (topic_modules db))
      in case process_modules tid 0 modules existingModuleIds db of
           Failed f db' \<Rightarrow> Failed f db'
         | Done remaining db' \<Rightarrow> Done () (delete_modules remaining db'))"

subsection \<open>The handler\<close>

text \<open>
  \<^verbatim>\<open>
  const existing = await req.pool.query('SELECT * FROM topics WHERE id = $1', [id]);
  if (existing.rows.length === 0) { return res.status(404)... 'Topic not found' }
  ... the slug, the fields (400 when there is none) ...
  const result = await req.pool.query(updateQuery, updateValues);
  const topic = result.rows[0];
  if (updateData.modules && Array.isArray(updateData.modules)) {
    const client = await req.pool.connect();
    try {
      await client.query('BEGIN');
      ...
      await client.query('COMMIT');
    } catch (error) {
      await client.query('ROLLBACK');
      throw error;
    } finally { client.release(); }
  }
  ... the modules are read for the response ...
  res.json({ success: true, data: formatTopicData(topic, modules) });
  } catch (err) { res.status(500).json({ success: false, error: err.message || ... }); }
  \<close>
  The UPDATE of the topic runs on the pool, outside the transaction, and is committed when
  it returns.
\<close>

definition put_topic :: "env \<Rightarrow> string \<Rightarrow> put_body \<Rightarrow> db \<Rightarrow> response \<times> db" where
  "put_topic e id_param body db =
     (case pg_int4_in id_param of
        Inl f \<Rightarrow> (ServerError f, db)
      | Inr tid \<Rightarrow>
          (case filter (\<lambda>t. t_id t = tid) (topics db) of
             [] \<Rightarrow> (ClientError 404 ''Topic not found'', db)
           | existing # others \<Rightarrow>
               (case with_slug tid existing (pt_entries body) db of
                  Inl f \<Rightarrow> (ServerError f, db)
                | Inr entries \<Rightarrow>
                    (case update_fields e entries of
                       Inl f \<Rightarrow> (ServerError f, db)
                     | Inr assignments \<Rightarrow>
                         if assignments = []
                         then (ClientError 400 ''No valid fields to update'', db)
                         else
                           (case update_topic e tid assignments db of
                              Inl f \<Rightarrow> (ServerError f, db)
                            | Inr db1 \<Rightarrow>
                                (case pt_modules body of
                                   None \<Rightarrow> (Success 200, db1)
                                 | Some modules \<Rightarrow>
                                     (case reconcile_modules tid modules db1 of
                                        Failed f db' \<Rightarrow> (ServerError f, rollback db1 db')
                                      | Done u db2 \<Rightarrow> (Success 200, db2))))))))"

text \<open>Surroundings with no category and no subcategory, in which a text for \<open>price\<close>,
  \<open>tags\<close> or \<open>target_audience\<close> is accepted when it is \<open>0\<close> or \<open>[]\<close>.\<close>

definition ex_env :: env where
  "ex_env = \<lparr>find_category = (\<lambda>s. None), find_subcategory = (\<lambda>s. None),
     hours_to_minutes = (\<lambda>s. None), category_exists = (\<lambda>i. False),
     subcategory_exists = (\<lambda>i. False),
     column_input = (\<lambda>column s. if s = ''0'' \<or> s = ''[]'' then None
                                  else Some InvalidTextRepresentation)\<rparr>"

definition ex_db_put :: db where
  "ex_db_put = \<lparr>topics = [\<lparr>t_id = 5, t_title = ''Intro'', t_slug = ''intro'',
       t_status = Some ''draft'', t_duration_minutes = Some 0, t_published_at = None\<rparr>],
     topic_modules =
       [\<lparr>m_id = 1, m_topic_id = Some 5, m_order_index = Some 1, m_duration_minutes = Some 0\<rparr>,
        \<lparr>m_id = 2, m_topic_id = Some 5, m_order_index = Some 2, m_duration_minutes = Some 0\<rparr>],
     topic_videos =
       [\<lparr>v_id = 1, v_topic_id = Some 5, v_module_id = Some 1, v_duration_seconds = Some 60,
          v_order_index = Some 1\<rparr>,
        \<lparr>v_id = 2, v_topic_id = Some 5, v_module_id = Some 1, v_duration_seconds = Some 60,
          v_order_index = Some 2\<rparr>,
        \<lparr>v_id = 3, v_topic_id = Some 5, v_module_id = Some 2, v_duration_seconds = Some 60,
          v_order_index = Some 1\<rparr>],
     topics_id_seq = 5, topic_modules_id_seq = 2, topic_videos_id_seq = 3\<rparr>"

subsection \<open>Claim C4: one transaction after the topic's own update\<close>

lemma update_topic_frame:
  assumes "update_topic e tid assignments db = Inr db1"
  shows "topic_modules db1 = topic_modules db" and "topic_videos db1 = topic_videos db"
    and "topics_id_seq db1 = topics_id_seq db"
    and "topic_modules_id_seq db1 = topic_modules_id_seq db"
    and "topic_videos_id_seq db1 = topic_videos_id_seq db"
proof -
  from assms have "db1 = db \<or> (\<exists>rows. db1 = db\<lparr>topics := rows\<rparr>)"
    unfolding update_topic_def Let_def
    by (auto split: if_splits sum.splits)
  then show "topic_modules db1 = topic_modules db" and "topic_videos db1 = topic_videos db"
    and "topics_id_seq db1 = topics_id_seq db"
    and "topic_modules_id_seq db1 = topic_modules_id_seq db"
    and "topic_videos_id_seq db1 = topic_videos_id_seq db"
    by auto
qed

lemma put_topic_after_update:
  assumes "pg_int4_in id_param = Inr tid"
    and "filter (\<lambda>t. t_id t = tid) (topics db) = existing # others"
    and "with_slug tid existing (pt_entries body) db = Inr entries"
    and "update_fields e entries = Inr assignments" and "assignments \<noteq> []"
    and "update_topic e tid assignments db = Inr db1"
  shows "put_topic e id_param body db =
     (case pt_modules body of
        None \<Rightarrow> (Success 200, db1)
      | Some modules \<Rightarrow>
          (case reconcile_modules tid modules db1 of
             Failed f db' \<Rightarrow> (ServerError f, rollback db1 db')
           | Done u db2 \<Rightarrow> (Success 200, db2)))"
  using assms by (simp add: put_topic_def)

text \<open>
  Claim C4. Let the topic exist and its own UPDATE succeed, giving the state \<open>db1\<close> (in
  which only the \<open>topics\<close> table differs from before). All module and video statements
  of the request are the one run \<open>reconcile_modules\<close> between BEGIN and COMMIT. If any
  statement of that run fails, the answer is 500, the tables \<open>topic_modules\<close> and
  \<open>topic_videos\<close> are what they were before the request, and the \<open>topics\<close> table is that
  of \<open>db1\<close>: the topic's own update stays. If the run succeeds, its result is committed
  and the answer is 200.
\<close>

theorem put_topic_transaction:
  "pg_int4_in id_param = Inr tid
   \<and> filter (\<lambda>t. t_id t = tid) (topics db) = existing # others
   \<and> with_slug tid existing (pt_entries body) db = Inr entries
   \<and> update_fields e entries = Inr assignments \<and> assignments \<noteq> []
   \<and> update_topic e tid assignments db = Inr db1
   \<and> pt_modules body = Some modules
   \<longrightarrow>
     topic_modules db1 = topic_modules db \<and> topic_videos db1 = topic_videos db
     \<and> (\<forall>f dbf. reconcile_modules tid modules db1 = Failed f dbf \<longrightarrow>
           fst (put_topic e id_param body db) = ServerError f
           \<and> topic_modules (snd (put_topic e id_param body db)) = topic_modules db
           \<and> topic_videos (snd (put_topic e id_param body db)) = topic_videos db
           \<and> topics (snd (put_topic e id_param body db)) = topics db1)
     \<and> (\<forall>db2. reconcile_modules tid modules db1 = Done () db2 \<longrightarrow>
           put_topic e id_param body db = (Success 200, db2))"
proof (intro impI, elim conjE)
  assume a: "pg_int4_in id_param = Inr tid"
    "filter (\<lambda>t. t_id t = tid) (topics db) = existing # others"
    "with_slug tid existing (pt_entries body) db = Inr entries"
    "update_fields e entries = Inr assignments" "assignments \<noteq> []"
    "update_topic e tid assignments db = Inr db1"
    and m: "pt_modules body = Some modules"
  note fr = update_topic_frame [OF a(6)]
  have p: "put_topic e id_param body db =
      (case reconcile_modules tid modules db1 of
         Failed f db' \<Rightarrow> (ServerError f, rollback db1 db')
       | Done u db2 \<Rightarrow> (Success 200, db2))"
    using put_topic_after_update [OF a] m by simp
  have 1: "\<forall>f dbf. reconcile_modules tid modules db1 = Failed f dbf \<longrightarrow>
           fst (put_topic e id_param body db) = ServerError f
           \<and> topic_modules (snd (put_topic e id_param body db)) = topic_modules db
           \<and> topic_videos (snd (put_topic e id_param body db)) = topic_videos db
           \<and> topics (snd (put_topic e id_param body db)) = topics db1"
    by (simp add: p rollback_def fr)
  have 2: "\<forall>db2. reconcile_modules tid modules db1 = Done () db2 \<longrightarrow>
           put_topic e id_param body db = (Success 200, db2)"
    by (simp add: p)
  from fr(1,2) 1 2 show "topic_modules db1 = topic_modules db \<and> topic_videos db1 = topic_videos db
     \<and> (\<forall>f dbf. reconcile_modules tid modules db1 = Failed f dbf \<longrightarrow>
           fst (put_topic e id_param body db) = ServerError f
           \<and> topic_modules (snd (put_topic e id_param body db)) = topic_modules db
           \<and> topic_videos (snd (put_topic e id_param body db)) = topic_videos db
           \<and> topics (snd (put_topic e id_param body db)) = topics db1)
     \<and> (\<forall>db2. reconcile_modules tid modules db1 = Done () db2 \<longrightarrow>
           put_topic e id_param body db = (Success 200, db2))"
    by (intro conjI)
qed

text \<open>Entries that hold an id, an order and the videos only.\<close>

definition plain_module :: "jsval \<Rightarrow> jsval \<Rightarrow> video_entry list option \<Rightarrow> module_entry" where
  "plain_module module_id order videos =
     \<lparr>me_id = module_id, me_title = JUndefined, me_description = JUndefined, me_order = order,
      me_videos = videos\<rparr>"

definition plain_video :: "jsval \<Rightarrow> jsval \<Rightarrow> jsval \<Rightarrow> video_entry" where
  "plain_video video_id duration order =
     \<lparr>ve_id = video_id, ve_title = JUndefined, ve_description = JUndefined,
      ve_videoUrl = JUndefined, ve_duration = duration, ve_order = order,
      ve_videoType = JUndefined, ve_isPreview = JUndefined\<rparr>"

definition ex_put_failing :: put_body where
  "ex_put_failing = \<lparr>pt_entries = [(''title'', JStr ''Intro 2'')],
     pt_modules = Some
       [plain_module (JStr ''new-a'') JUndefined None,
        plain_module (JStr ''2abc'') JUndefined None]\<rparr>"

definition ex_db_put_updated :: db where
  "ex_db_put_updated = ex_db_put\<lparr>topics := [\<lparr>t_id = 5, t_title = ''Intro 2'',
     t_slug = ''intro-2'', t_status = Some ''draft'', t_duration_minutes = Some 0,
     t_published_at = None\<rparr>]\<rparr>"

definition ex_db_put_at_failure :: db where
  "ex_db_put_at_failure = ex_db_put_updated\<lparr>
     topic_modules := topic_modules ex_db_put @
       [\<lparr>m_id = 3, m_topic_id = Some 5, m_order_index = Some 1, m_duration_minutes = Some 0\<rparr>],
     topic_modules_id_seq := 3\<rparr>"

lemmas put_eval_simps =
  put_topic_def with_slug_def entry_of_def set_entry_def update_fields_def update_field_def
  named_reference_def allowedFields_def camel_to_snake_def is_upper_ascii_def
  update_topic_def bind_column_def fit_column_def column_length_def integer_columns_def
  boolean_columns_def text_columns_def not_null_violated_def check_violated_def
  reference_violated_def assign_columns_def assign_column_def topic_difficulties_def
  pg_varchar_def pg_param_text_def pg_param_bool_def pg_bool_in_def pg_int_of_number_def
  int4_failure_def exponent_text_def topic_statuses_def video_types_def
  reconcile_modules_def process_module_def bind_module_def bind_video_def text_or_def
  link_upload_def update_existing_video_def order_param_def duration_param_def
  seconds_of_minutes_def
  insert_new_video_def insert_module_def update_module_def delete_module_def
  insert_video_def update_video_def delete_video_def delete_videos_def delete_modules_def
  plain_module_def plain_video_def js_or_def List.map_filter_def rollback_def

lemma ex_put_failing_steps:
  "pg_int4_in ''5'' = Inr 5"
  "filter (\<lambda>t. t_id t = 5) (topics ex_db_put) = [hd (topics ex_db_put)]"
  "with_slug 5 (hd (topics ex_db_put)) (pt_entries ex_put_failing) ex_db_put
     = Inr [(''title'', JStr ''Intro 2''), (''slug'', JStr ''intro-2'')]"
  "update_fields ex_env [(''title'', JStr ''Intro 2''), (''slug'', JStr ''intro-2'')]
     = Inr [(''title'', Given (JStr ''Intro 2'')), (''slug'', Given (JStr ''intro-2''))]"
  "update_topic ex_env 5
       [(''title'', Given (JStr ''Intro 2'')), (''slug'', Given (JStr ''intro-2''))] ex_db_put
     = Inr ex_db_put_updated"
  "pt_modules ex_put_failing = Some
       [plain_module (JStr ''new-a'') JUndefined None,
        plain_module (JStr ''2abc'') JUndefined None]"
  "reconcile_modules 5
       [plain_module (JStr ''new-a'') JUndefined None,
        plain_module (JStr ''2abc'') JUndefined None] ex_db_put_updated
     = Failed InvalidTextRepresentation ex_db_put_at_failure"
  by (auto simp add: ex_put_failing_def ex_db_put_def ex_db_put_updated_def
      ex_db_put_at_failure_def ex_env_def put_eval_simps parse_eval_simps slug_eval_simps)

theorem put_topic_transaction_witness:
  "fst (put_topic ex_env ''5'' ex_put_failing ex_db_put) = ServerError InvalidTextRepresentation
   \<and> topic_modules (snd (put_topic ex_env ''5'' ex_put_failing ex_db_put))
       = topic_modules ex_db_put
   \<and> topic_videos (snd (put_topic ex_env ''5'' ex_put_failing ex_db_put))
       = topic_videos ex_db_put
   \<and> topics (snd (put_topic ex_env ''5'' ex_put_failing ex_db_put)) = topics ex_db_put_updated
   \<and> map t_title (topics ex_db_put) = [''Intro'']
   \<and> map t_title (topics ex_db_put_updated) = [''Intro 2'']
   \<and> length (topic_modules ex_db_put_at_failure) = length (topic_modules ex_db_put) + 1"
proof -
  let ?es = "[(''title'', JStr ''Intro 2''), (''slug'', JStr ''intro-2'')]"
  let ?as = "[(''title'', Given (JStr ''Intro 2'')), (''slug'', Given (JStr ''intro-2''))]"
  let ?ms = "[plain_module (JStr ''new-a'') JUndefined None,
        plain_module (JStr ''2abc'') JUndefined None]"
  have ne: "?as \<noteq> []" by simp
  have pre: "pg_int4_in ''5'' = Inr 5
   \<and> filter (\<lambda>t. t_id t = 5) (topics ex_db_put) = hd (topics ex_db_put) # []
   \<and> with_slug 5 (hd (topics ex_db_put)) (pt_entries ex_put_failing) ex_db_put = Inr ?es
   \<and> update_fields ex_env ?es = Inr ?as \<and> ?as \<noteq> []
   \<and> update_topic ex_env 5 ?as ex_db_put = Inr ex_db_put_updated
   \<and> pt_modules ex_put_failing = Some ?ms"
    using ex_put_failing_steps(1,2,3,4,5,6) ne by (intro conjI)
  note concl = mp [OF put_topic_transaction [of "''5''" 5 ex_db_put "hd (topics ex_db_put)" "[]"
      ex_put_failing ?es ex_env ?as ex_db_put_updated ?ms] pre]
  from concl ex_put_failing_steps(7)
  have "fst (put_topic ex_env ''5'' ex_put_failing ex_db_put) = ServerError InvalidTextRepresentation
   \<and> topic_modules (snd (put_topic ex_env ''5'' ex_put_failing ex_db_put))
       = topic_modules ex_db_put
   \<and> topic_videos (snd (put_topic ex_env ''5'' ex_put_failing ex_db_put))
       = topic_videos ex_db_put
   \<and> topics (snd (put_topic ex_env ''5'' ex_put_failing ex_db_put)) = topics ex_db_put_updated"
    by blast
  moreover have "map t_title (topics ex_db_put) = [''Intro'']"
    "map t_title (topics ex_db_put_updated) = [''Intro 2'']"
    "length (topic_modules ex_db_put_at_failure) = length (topic_modules ex_db_put) + 1"
    by (simp_all add: ex_db_put_def ex_db_put_updated_def ex_db_put_at_failure_def)
  ultimately show ?thesis by blast
qed

subsection \<open>How an entry's id is read\<close>

text \<open>The three ways of the handler's \<open>if ... else if ...\<close> on the \<open>id\<close> of an entry: the
  marker of a new entry, a number as \<open>parseInt\<close> reads it (the number at the head of the
  text, whatever follows), or neither (the entry is passed over).\<close>

definition new_entry_id :: "jsval \<Rightarrow> bool" where
  "new_entry_id v = (js_truthy v \<and> is_new_marker v)"

definition numeric_entry_id :: "jsval \<Rightarrow> int option" where
  "numeric_entry_id v =
     (if new_entry_id v then None else if js_truthy v then js_parseInt v else None)"

definition skipped_entry_id :: "jsval \<Rightarrow> bool" where
  "skipped_entry_id v = (\<not> new_entry_id v \<and> numeric_entry_id v = None)"

text \<open>The keys of the rows: the id of a module with its topic, the id of a video with its
  module.\<close>

definition module_keys :: "db \<Rightarrow> (int \<times> int option) list" where
  "module_keys db = map (\<lambda>m. (m_id m, m_topic_id m)) (topic_modules db)"

definition video_keys :: "db \<Rightarrow> (int \<times> int option) list" where
  "video_keys db = map (\<lambda>v. (v_id v, v_module_id v)) (topic_videos db)"

subsection \<open>Requests that the claims C1 and C2 do not cover\<close>

definition ex_put_modules_only :: put_body where
  "ex_put_modules_only = \<lparr>pt_entries = [], pt_modules = Some []\<rparr>"

definition ex_put_unknown_module :: put_body where
  "ex_put_unknown_module = \<lparr>pt_entries = [(''status'', JStr ''draft'')],
     pt_modules = Some [plain_module (JNum 99) (JNum 1) None]\<rparr>"

text \<open>
  Claim C1 as stated, at two bodies for topic 5 with the modules 1 and 2.
  \<^item> \<open>{"modules": []}\<close>: the handler finds no field of the topic to update and answers
    400 before it looks at \<open>modules\<close>; the two modules stay, though the payload names
    none.
  \<^item> \<open>{"status": "draft", "modules": [{"id": 99, "order": 1}]}\<close>: the request succeeds;
    the UPDATE for id 99 meets no row and nothing is inserted for it, the modules 1 and 2
    are deleted, and the topic is left with no module, though the payload names one.
\<close>

theorem persisted_modules_differ_from_payload:
  "put_topic ex_env ''5'' ex_put_modules_only ex_db_put
     = (ClientError 400 ''No valid fields to update'', ex_db_put)
   \<and> pt_modules ex_put_modules_only = Some []
   \<and> map m_id (filter (\<lambda>m. m_topic_id m = Some 5) (topic_modules ex_db_put)) = [1, 2]
   \<and> fst (put_topic ex_env ''5'' ex_put_unknown_module ex_db_put) = Success 200
   \<and> map me_id (the (pt_modules ex_put_unknown_module)) = [JNum 99]
   \<and> topic_modules (snd (put_topic ex_env ''5'' ex_put_unknown_module ex_db_put)) = []"
  by (auto simp add: ex_put_modules_only_def ex_put_unknown_module_def ex_db_put_def ex_env_def
      put_eval_simps parse_eval_simps toLowerCase_def toLowerCase_char_def)



subsection \<open>What each statement leaves alone\<close>

lemma insert_video_Done:
  assumes "insert_video t m title vt d ord db = Done vid db'"
  shows "vid = topic_videos_id_seq db + 1"
    and "topic_videos db' = topic_videos db @
           [\<lparr>v_id = vid, v_topic_id = t, v_module_id = m, v_duration_seconds = d,
             v_order_index = ord\<rparr>]"
    and "topic_videos_id_seq db' = vid"
    and "vid \<notin> set (map v_id (topic_videos db))"
    and "topic_modules db' = topic_modules db" and "topics db' = topics db"
    and "topic_modules_id_seq db' = topic_modules_id_seq db"
  using assms unfolding insert_video_def Let_def
  by (auto split: if_splits sum.splits)

lemma insert_module_Done:
  assumes "insert_module tid title ord db = Done mid db'"
  shows "mid = topic_modules_id_seq db + 1"
    and "topic_modules db' = topic_modules db @
           [\<lparr>m_id = mid, m_topic_id = Some tid, m_order_index = ord,
             m_duration_minutes = Some 0\<rparr>]"
    and "topic_modules_id_seq db' = mid"
    and "mid \<notin> set (map m_id (topic_modules db))"
    and "topic_videos db' = topic_videos db" and "topics db' = topics db"
    and "topic_videos_id_seq db' = topic_videos_id_seq db"
  using assms unfolding insert_module_def Let_def
  by (auto split: if_splits sum.splits)

lemma update_module_Done:
  assumes "update_module mid tid title ord db = Done u db'"
  shows "module_keys db' = module_keys db"
    and "topic_modules_id_seq db' = topic_modules_id_seq db"
    and "topic_videos db' = topic_videos db" and "topics db' = topics db"
    and "topic_videos_id_seq db' = topic_videos_id_seq db"
proof -
  from assms have d: "db' = db\<lparr>topic_modules :=
      map (\<lambda>m. if m_id m = mid \<and> m_topic_id m = Some tid
               then m\<lparr>m_order_index := ord\<rparr> else m) (topic_modules db)\<rparr>"
    unfolding update_module_def by (auto split: sum.splits)
  show "module_keys db' = module_keys db"
    unfolding d
    by (simp add: module_keys_def comp_def if_distrib [of m_id] if_distrib [of m_topic_id]
        cong: if_cong)
  from d show "topic_modules_id_seq db' = topic_modules_id_seq db"
    "topic_videos db' = topic_videos db" "topics db' = topics db"
    "topic_videos_id_seq db' = topic_videos_id_seq db" by simp_all
qed

lemma update_video_Done:
  assumes "update_video vid mid title vt d ord db = Done u db'"
  shows "video_keys db' = video_keys db"
    and "topic_videos_id_seq db' = topic_videos_id_seq db"
    and "topic_modules db' = topic_modules db" and "topics db' = topics db"
    and "topic_modules_id_seq db' = topic_modules_id_seq db"
proof -
  from assms have d: "db' = db\<lparr>topic_videos :=
      map (\<lambda>v. if v_id v = vid \<and> v_module_id v = Some mid
               then v\<lparr>v_duration_seconds := d, v_order_index := ord\<rparr> else v)
          (topic_videos db)\<rparr>"
    unfolding update_video_def by (auto split: sum.splits if_splits)
  show "video_keys db' = video_keys db"
    unfolding d
    by (simp add: video_keys_def comp_def if_distrib [of v_id] if_distrib [of v_module_id]
        cong: if_cong)
  from d show "topic_videos_id_seq db' = topic_videos_id_seq db"
    "topic_modules db' = topic_modules db" "topics db' = topics db"
    "topic_modules_id_seq db' = topic_modules_id_seq db" by simp_all
qed

lemma bind_video_Inr:
  assumes "bind_video ve i = Inr p"
  shows "duration_param (ve_duration ve) = Inr (vp_duration p)"
    and "order_param (ve_order ve) i = Inr (vp_order p)"
  using assms unfolding bind_video_def
  by (auto split: sum.splits)

lemma bind_module_Inr:
  assumes "bind_module e i = Inr p"
  shows "order_param (me_order e) i = Inr (mp_order p)"
  using assms unfolding bind_module_def
  by (auto split: sum.splits)

lemma insert_new_video_Done:
  assumes "insert_new_video tid mid i ve db = Done u db'"
  shows "\<exists>d ord. duration_param (ve_duration ve) = Inr d \<and> order_param (ve_order ve) i = Inr ord
      \<and> topic_videos db' = topic_videos db @
           [\<lparr>v_id = topic_videos_id_seq db + 1, v_topic_id = Some tid, v_module_id = Some mid,
             v_duration_seconds = Some d, v_order_index = ord\<rparr>]"
    and "topic_videos_id_seq db' = topic_videos_id_seq db + 1"
    and "topic_videos_id_seq db + 1 \<notin> set (map v_id (topic_videos db))"
    and "topic_modules db' = topic_modules db" and "topics db' = topics db"
    and "topic_modules_id_seq db' = topic_modules_id_seq db"
proof -
  from assms obtain p where b: "bind_video ve i = Inr p"
    unfolding insert_new_video_def by (auto split: sum.splits)
  from assms b obtain vid where
    i: "insert_video (Some tid) (Some mid) (vp_title p) (vp_video_type p)
          (Some (vp_duration p)) (vp_order p) db = Done vid db'"
    unfolding insert_new_video_def by (auto split: outcome.splits option.splits)
  note iv = insert_video_Done [OF i]
  note bv = bind_video_Inr [OF b]
  from bv iv(1,2) show "\<exists>d ord. duration_param (ve_duration ve) = Inr d
      \<and> order_param (ve_order ve) i = Inr ord
      \<and> topic_videos db' = topic_videos db @
           [\<lparr>v_id = topic_videos_id_seq db + 1, v_topic_id = Some tid, v_module_id = Some mid,
             v_duration_seconds = Some d, v_order_index = ord\<rparr>]" by auto
  from iv show "topic_videos_id_seq db' = topic_videos_id_seq db + 1"
    "topic_videos_id_seq db + 1 \<notin> set (map v_id (topic_videos db))"
    "topic_modules db' = topic_modules db" "topics db' = topics db"
    "topic_modules_id_seq db' = topic_modules_id_seq db" by auto
qed

lemma update_existing_video_Done:
  assumes "update_existing_video mid i ve db = Done u db'"
  shows "video_keys db' = video_keys db"
    and "topic_videos_id_seq db' = topic_videos_id_seq db"
    and "topic_modules db' = topic_modules db" and "topics db' = topics db"
    and "topic_modules_id_seq db' = topic_modules_id_seq db"
proof -
  from assms obtain p vid where "bind_video ve i = Inr p"
    and "pg_int_param (ve_id ve) = Inr vid"
    and r: "(case vid of None \<Rightarrow> Done () db
             | Some video_id \<Rightarrow> update_video video_id mid (vp_title p) (vp_video_type p)
                  (Some (vp_duration p)) (vp_order p) db) = Done () db'"
    unfolding update_existing_video_def
    by (auto split: sum.splits outcome.splits option.splits)
  have "video_keys db' = video_keys db \<and> topic_videos_id_seq db' = topic_videos_id_seq db
      \<and> topic_modules db' = topic_modules db \<and> topics db' = topics db
      \<and> topic_modules_id_seq db' = topic_modules_id_seq db"
  proof (cases vid)
    case None
    with r show ?thesis by simp
  next
    case (Some video_id)
    with r have "update_video video_id mid (vp_title p) (vp_video_type p)
                  (Some (vp_duration p)) (vp_order p) db = Done () db'" by simp
    from update_video_Done [OF this] show ?thesis by simp
  qed
  then show "video_keys db' = video_keys db"
    and "topic_videos_id_seq db' = topic_videos_id_seq db"
    and "topic_modules db' = topic_modules db" and "topics db' = topics db"
    and "topic_modules_id_seq db' = topic_modules_id_seq db" by simp_all
qed

lemma new_module_videos_frame:
  "new_module_videos tid mid i ves db = Done u db' \<Longrightarrow>
     topic_modules db' = topic_modules db \<and> topics db' = topics db
     \<and> topic_modules_id_seq db' = topic_modules_id_seq db"
proof (induction ves arbitrary: i db)
  case Nil
  then show ?case by simp
next
  case (Cons ve ves)
  show ?case
  proof (cases "js_truthy (ve_id ve) \<and> is_new_marker (ve_id ve)")
    case True
    with Cons.prems obtain db1 where s: "insert_new_video tid mid i ve db = Done () db1"
      and r: "new_module_videos tid mid (Suc i) ves db1 = Done u db'"
      by (auto split: outcome.splits)
    from Cons.IH [OF r] insert_new_video_Done(4,5,6) [OF s] show ?thesis by simp
  next
    case False
    with Cons.prems have "new_module_videos tid mid (Suc i) ves db = Done u db'" by auto
    from Cons.IH [OF this] show ?thesis .
  qed
qed

lemma named_entry_reading:
  assumes "\<not> new_entry_id v"
  shows "numeric_entry_id v = (if js_truthy v then js_parseInt v else None)"
  using assms by (simp add: numeric_entry_id_def)

lemma new_entry_not_numeric: "new_entry_id v \<Longrightarrow> numeric_entry_id v = None"
  by (simp add: numeric_entry_id_def)

text \<open>One video entry of a module named by a number, by the reading of its id.\<close>

lemma existing_module_videos_new:
  "new_entry_id (ve_id ve) \<Longrightarrow>
     existing_module_videos tid mid j (ve # rest) vex db =
       (case insert_new_video tid mid j ve db of
          Failed f db' \<Rightarrow> Failed f db'
        | Done u db' \<Rightarrow> existing_module_videos tid mid (Suc j) rest vex db')"
  by (simp add: new_entry_id_def)

lemma existing_module_videos_numeric:
  assumes "numeric_entry_id (ve_id ve) = Some k"
  shows "existing_module_videos tid mid j (ve # rest) vex db =
       (case update_existing_video mid j ve db of
          Failed f db' \<Rightarrow> Failed f db'
        | Done u db' \<Rightarrow> existing_module_videos tid mid (Suc j) rest (remove1 k vex) db')"
proof -
  from assms have "\<not> (js_truthy (ve_id ve) \<and> is_new_marker (ve_id ve))"
    and "js_truthy (ve_id ve)" and "js_parseInt (ve_id ve) = Some k"
    by (auto simp add: numeric_entry_id_def new_entry_id_def split: if_splits)
  then show ?thesis by auto
qed

lemma existing_module_videos_skipped:
  "skipped_entry_id (ve_id ve) \<Longrightarrow>
     existing_module_videos tid mid j (ve # rest) vex db
       = existing_module_videos tid mid (Suc j) rest vex db"
  unfolding skipped_entry_id_def numeric_entry_id_def new_entry_id_def
  by (auto split: if_splits)

lemma entry_id_cases:
  "new_entry_id v \<or> (\<exists>k. numeric_entry_id v = Some k) \<or> skipped_entry_id v"
  by (cases "numeric_entry_id v") (auto simp add: skipped_entry_id_def)

lemma existing_module_videos_frame:
  "existing_module_videos tid mid i ves ex db = Done ex' db' \<Longrightarrow>
     topic_modules db' = topic_modules db \<and> topics db' = topics db
     \<and> topic_modules_id_seq db' = topic_modules_id_seq db"
proof (induction ves arbitrary: i ex db)
  case Nil
  then show ?case by simp
next
  case (Cons ve ves)
  from entry_id_cases [of "ve_id ve"] show ?case
  proof (elim disjE exE)
    assume n: "new_entry_id (ve_id ve)"
    from Cons.prems obtain db1 where s: "insert_new_video tid mid i ve db = Done () db1"
      and r: "existing_module_videos tid mid (Suc i) ves ex db1 = Done ex' db'"
      unfolding existing_module_videos_new [OF n] by (auto split: outcome.splits)
    from Cons.IH [OF r] insert_new_video_Done(4,5,6) [OF s] show ?thesis by simp
  next
    fix k assume n: "numeric_entry_id (ve_id ve) = Some k"
    from Cons.prems obtain db1 where s: "update_existing_video mid i ve db = Done () db1"
      and r: "existing_module_videos tid mid (Suc i) ves (remove1 k ex) db1 = Done ex' db'"
      unfolding existing_module_videos_numeric [OF n] by (auto split: outcome.splits)
    from Cons.IH [OF r] update_existing_video_Done(3,4,5) [OF s] show ?thesis by simp
  next
    assume n: "skipped_entry_id (ve_id ve)"
    from Cons.prems have "existing_module_videos tid mid (Suc i) ves ex db = Done ex' db'"
      unfolding existing_module_videos_skipped [OF n] .
    from Cons.IH [OF this] show ?thesis .
  qed
qed

lemma delete_videos_frame:
  "topic_modules (delete_videos ids db) = topic_modules db
   \<and> topics (delete_videos ids db) = topics db
   \<and> topic_modules_id_seq (delete_videos ids db) = topic_modules_id_seq db
   \<and> topic_videos_id_seq (delete_videos ids db) = topic_videos_id_seq db"
  unfolding delete_videos_def
  by (induction ids arbitrary: db) (simp_all add: delete_video_def)

subsection \<open>An id as the database and as parseInt read it\<close>

text \<open>The branch of the existing rows strikes \<open>parseInt(id)\<close> from the list of the rows
  to delete and hands \<open>id\<close> itself to the statements. Whenever the database accepts the
  parameter as an INTEGER, the two readings are the same number.\<close>

lemma pg_space_js_whitespace: "pg_space c \<Longrightarrow> js_whitespace c"
  by (auto simp add: pg_space_def js_whitespace_def)

lemma digit_val_mem:
  assumes "digit_val c = Some d"
  shows "c \<in> set ''0123456789''"
proof -
  from assms have "(c, d) \<in> set (zip ''0123456789'' [0, 1, 2, 3, 4, 5, 6, 7, 8, 9])"
    unfolding digit_val_def by (rule map_of_SomeD)
  then show ?thesis by (rule set_zip_leftD)
qed

lemma digit_not_whitespace: "digit_val c = Some d \<Longrightarrow> \<not> js_whitespace c"
  by (drule digit_val_mem) (auto simp add: js_whitespace_def)

lemma dropWhile_js_whitespace:
  "dropWhile pg_space s = c # cs \<Longrightarrow> \<not> js_whitespace c \<Longrightarrow> dropWhile js_whitespace s = c # cs"
proof (induction s)
  case Nil
  then show ?case by simp
next
  case (Cons a s)
  show ?case
  proof (cases "pg_space a")
    case True
    with Cons pg_space_js_whitespace [OF True] show ?thesis by simp
  next
    case False
    with Cons.prems show ?thesis by simp
  qed
qed

lemma take_digits_nonempty:
  "take_digits dv s \<noteq> [] \<Longrightarrow> \<exists>c cs d. s = c # cs \<and> dv c = Some d"
  by (cases s) (auto split: option.splits)

lemma pg_int4_in_parseInt:
  assumes "pg_int4_in s = Inr m"
  shows "js_parseInt_str s = Some m"
proof -
  define s1 where "s1 = dropWhile pg_space s"
  define s2 where "s2 = (if starts_with ''-'' s1 \<or> starts_with ''+'' s1 then tl s1 else s1)"
  define ds where "ds = take_digits digit_val s2"
  from assms have ne: "ds \<noteq> []" and sp: "list_all pg_space (drop (length ds) s2)"
    and m: "m = (if starts_with ''-'' s1 then - int (digits_value 10 ds)
                 else int (digits_value 10 ds))"
    unfolding pg_int4_in_def Let_def s1_def s2_def ds_def
    by (auto split: if_splits)
  from take_digits_nonempty [OF ne [unfolded ds_def]] obtain c cs d
    where s2: "s2 = c # cs" and d: "digit_val c = Some d" by blast
  have s1ne: "s1 \<noteq> []" using s2 unfolding s2_def by (cases s1) (auto split: if_splits)
  then obtain a as where s1: "s1 = a # as" by (cases s1) auto
  have "\<not> js_whitespace a"
  proof (cases "starts_with ''-'' s1 \<or> starts_with ''+'' s1")
    case True
    with s1 have "a = CHR ''-'' \<or> a = CHR ''+''" by auto
    then show ?thesis by (auto simp add: js_whitespace_def)
  next
    case False
    with s1 s2 have "a = c" by (simp add: s2_def)
    with digit_not_whitespace [OF d] show ?thesis by simp
  qed
  with s1 have dw: "dropWhile js_whitespace s = s1"
    using dropWhile_js_whitespace [of s a as] by (simp add: s1_def)
  have nohex: "\<not> (starts_with ''0x'' s2 \<or> starts_with ''0X'' s2)"
  proof
    assume h: "starts_with ''0x'' s2 \<or> starts_with ''0X'' s2"
    then obtain x r where s2': "s2 = CHR ''0'' # x # r" and x: "x = CHR ''x'' \<or> x = CHR ''X''"
      by (cases s2; cases "tl s2") auto
    from x have "digit_val x = None" by (auto simp add: digit_val_def)
    with s2' have "ds = [0]" by (simp add: ds_def digit_val_def)
    with s2' sp have "pg_space x" by simp
    with x show False by (auto simp add: pg_space_def)
  qed
  have "js_parseInt_str s =
      (let hex = (starts_with ''0x'' s2 \<or> starts_with ''0X'' s2);
           ds' = (if hex then take_digits hex_val (drop 2 s2) else take_digits digit_val s2);
           v = int (digits_value (if hex then 16 else 10) ds')
       in if ds' = [] then None else Some (if starts_with ''-'' s1 then - v else v))"
    by (simp only: js_parseInt_str_def Let_def dw s2_def)
  also have "\<dots> = Some m"
    using nohex ne m by (simp add: ds_def Let_def)
  finally show ?thesis .
qed

lemma pg_int_param_parseInt:
  "pg_int_param v = Inr (Some m) \<Longrightarrow> js_parseInt v = Some m"
  by (cases v) (auto split: if_splits sum.splits dest: pg_int4_in_parseInt)

lemma pg_int_param_null:
  "pg_int_param v = Inr None \<Longrightarrow> \<not> js_truthy v"
  by (cases v) (auto split: if_splits sum.splits)

subsection \<open>Claim C2: which entries are inserted and which are passed over\<close>


lemma process_module_new:
  assumes n: "new_entry_id (me_id e)"
    and p: "process_module tid i e ex db = Done ex' db'"
  shows "ex' = ex \<and> (\<exists>ord. order_param (me_order e) i = Inr ord
     \<and> topic_modules db' = topic_modules db @
          [\<lparr>m_id = topic_modules_id_seq db + 1, m_topic_id = Some tid, m_order_index = ord,
            m_duration_minutes = Some 0\<rparr>]
     \<and> topic_modules_id_seq db' = topic_modules_id_seq db + 1
     \<and> topic_modules_id_seq db + 1 \<notin> set (map m_id (topic_modules db)))"
proof -
  from n have c: "js_truthy (me_id e) \<and> is_new_marker (me_id e)"
    by (simp add: new_entry_id_def)
  from p c obtain pm where b: "bind_module e i = Inr pm"
    unfolding process_module_def by (auto split: sum.splits)
  from p c b obtain moduleId db1 where
    im: "insert_module tid (mp_title pm) (mp_order pm) db = Done moduleId db1"
    and r: "(case me_videos e of None \<Rightarrow> Done ex db1
             | Some videos \<Rightarrow> (case new_module_videos tid moduleId 0 videos db1 of
                 Failed f db'' \<Rightarrow> Failed f db'' | Done u db'' \<Rightarrow> Done ex db'')) = Done ex' db'"
    unfolding process_module_def by (auto split: outcome.splits)
  note m = insert_module_Done [OF im]
  note o = bind_module_Inr [OF b]
  have "ex' = ex \<and> topic_modules db' = topic_modules db1
      \<and> topic_modules_id_seq db' = topic_modules_id_seq db1"
  proof (cases "me_videos e")
    case None
    with r show ?thesis by simp
  next
    case (Some videos)
    with r obtain u where nv: "new_module_videos tid moduleId 0 videos db1 = Done u db'"
      and "ex' = ex" by (auto split: outcome.splits)
    with new_module_videos_frame [OF nv] show ?thesis by simp
  qed
  with o m show ?thesis by auto
qed

lemma process_module_skipped:
  "skipped_entry_id (me_id e) \<Longrightarrow> process_module tid i e ex db = Done ex db"
  unfolding skipped_entry_id_def numeric_entry_id_def new_entry_id_def process_module_def
  by (auto split: if_splits)

lemma numeric_entry_reading:
  assumes "numeric_entry_id v = Some k"
  shows "\<not> (js_truthy v \<and> is_new_marker v)" and "js_truthy v" and "js_parseInt v = Some k"
  using assms by (auto simp add: numeric_entry_id_def new_entry_id_def split: if_splits)

lemma process_module_numeric:
  assumes k: "numeric_entry_id (me_id e) = Some k"
    and p: "process_module tid i e ex db = Done ex' db'"
  shows "ex' = remove1 k ex" and "pg_int_param (me_id e) = Inr (Some k)"
    and "module_keys db' = module_keys db"
    and "topic_modules_id_seq db' = topic_modules_id_seq db"
proof -
  note c = numeric_entry_reading [OF k]
  from c p obtain pm where b: "bind_module e i = Inr pm"
    by (auto simp add: process_module_def split: sum.splits)
  from c p b obtain q where q: "pg_int_param (me_id e) = Inr q"
    by (auto simp add: process_module_def split: sum.splits)
  from pg_int_param_null [of "me_id e"] q c(2) obtain mid where mid: "q = Some mid"
    by (cases q) auto
  from pg_int_param_parseInt [of "me_id e" mid] q mid c(3) have mk: "mid = k" by simp
  from q mid mk show pk: "pg_int_param (me_id e) = Inr (Some k)" by simp
  from c p b pk obtain db1 where
    um: "update_module k tid (mp_title pm) (mp_order pm) db = Done () db1"
    by (auto simp add: process_module_def split: outcome.splits)
  note f1 = update_module_Done [OF um]
  from c p b pk um have p': "(case me_videos e of
        None \<Rightarrow> Done (remove1 k ex) db1
      | Some videos \<Rightarrow>
          (case existing_module_videos tid k 0 videos
                  (map v_id (filter (\<lambda>v. v_module_id v = Some k) (topic_videos db1))) db1 of
             Failed f db'' \<Rightarrow> Failed f db''
           | Done leftover db'' \<Rightarrow> Done (remove1 k ex) (delete_videos leftover db'')))
      = Done ex' db'"
    by (cases "me_videos e") (simp_all add: process_module_def Let_def)
  have "ex' = remove1 k ex \<and> topic_modules db' = topic_modules db1
      \<and> topic_modules_id_seq db' = topic_modules_id_seq db1"
  proof (cases "me_videos e")
    case None
    with p' show ?thesis by simp
  next
    case (Some videos)
    with p' obtain leftover db2 where
      ev: "existing_module_videos tid k 0 videos
             (map v_id (filter (\<lambda>v. v_module_id v = Some k) (topic_videos db1))) db1
           = Done leftover db2"
      and e: "ex' = remove1 k ex" "db' = delete_videos leftover db2"
      by (auto split: outcome.splits)
    from existing_module_videos_frame [OF ev] delete_videos_frame [of leftover db2] e
    show ?thesis by simp
  qed
  with f1(1,2) show "ex' = remove1 k ex" and "module_keys db' = module_keys db"
    and "topic_modules_id_seq db' = topic_modules_id_seq db"
    by (simp_all add: module_keys_def)
qed






















subsection \<open>What a payload names\<close>

text \<open>The numbers that the entries of a payload name (as \<open>parseInt\<close> reads the ids in
  the branch of the existing rows), and the number of entries with the marker.\<close>

definition named_module_ids :: "module_entry list \<Rightarrow> int list" where
  "named_module_ids es = List.map_filter (\<lambda>e. numeric_entry_id (me_id e)) es"

definition named_video_ids :: "video_entry list \<Rightarrow> int list" where
  "named_video_ids ves = List.map_filter (\<lambda>ve. numeric_entry_id (ve_id ve)) ves"

definition new_module_count :: "module_entry list \<Rightarrow> nat" where
  "new_module_count es = length (filter (\<lambda>e. new_entry_id (me_id e)) es)"

lemma fold_remove1_set:
  "distinct xs \<Longrightarrow> set (fold remove1 ns xs) = set xs - set ns"
proof (induction ns arbitrary: xs)
  case Nil
  show ?case by simp
next
  case (Cons n ns)
  have "set (fold remove1 ns (remove1 n xs)) = set (remove1 n xs) - set ns"
    using Cons.prems by (intro Cons.IH) simp
  with Cons.prems show ?case by auto
qed

lemma fold_remove1_superset:
  "set xs - set ns \<subseteq> set (fold remove1 ns xs)"
proof (induction ns arbitrary: xs)
  case Nil
  show ?case by simp
next
  case (Cons n ns)
  have "set xs - {n} \<subseteq> set (remove1 n xs)"
    by (induction xs) auto
  with Cons [of "remove1 n xs"] show ?case by auto
qed

lemma delete_modules_tables:
  "topic_modules (delete_modules ids db) = filter (\<lambda>m. m_id m \<notin> set ids) (topic_modules db)
   \<and> topic_videos (delete_modules ids db)
       = filter (\<lambda>v. \<forall>i\<in>set ids. v_module_id v \<noteq> Some i) (topic_videos db)
   \<and> topic_videos_id_seq (delete_modules ids db) = topic_videos_id_seq db
   \<and> topic_modules_id_seq (delete_modules ids db) = topic_modules_id_seq db"
  unfolding delete_modules_def
proof (induction ids arbitrary: db)
  case Nil
  show ?case by simp
next
  case (Cons i ids)
  have m: "filter (\<lambda>m. m_id m \<notin> set ids) (filter (\<lambda>m. m_id m \<noteq> i) (topic_modules db))
      = filter (\<lambda>m. m_id m \<notin> set (i # ids)) (topic_modules db)"
    by (induction "topic_modules db") auto
  have v: "filter (\<lambda>v. \<forall>i\<in>set ids. v_module_id v \<noteq> Some i)
        (filter (\<lambda>v. v_module_id v \<noteq> Some i) (topic_videos db))
      = filter (\<lambda>v. \<forall>i\<in>set (i # ids). v_module_id v \<noteq> Some i) (topic_videos db)"
    by (induction "topic_videos db") auto
  from Cons [of "delete_module i db"] m v show ?case
    by (simp add: delete_module_def)
qed

lemma process_module_not_new:
  assumes n: "\<not> new_entry_id (me_id e)"
    and p: "process_module tid i e ex db = Done ex' db'"
  shows "module_keys db' = module_keys db \<and> topic_modules_id_seq db' = topic_modules_id_seq db
    \<and> ex' = (case numeric_entry_id (me_id e) of None \<Rightarrow> ex | Some k \<Rightarrow> remove1 k ex)"
proof (cases "numeric_entry_id (me_id e)")
  case None
  with n have "skipped_entry_id (me_id e)" by (simp add: skipped_entry_id_def)
  from process_module_skipped [OF this, of tid i ex db] p None show ?thesis by simp
next
  case (Some k)
  from process_module_numeric(1,3,4) [OF Some p] Some show ?thesis by simp
qed

lemma named_module_ids_Cons:
  "named_module_ids (e # es) =
     (case numeric_entry_id (me_id e) of None \<Rightarrow> named_module_ids es
      | Some k \<Rightarrow> k # named_module_ids es)"
  by (cases "numeric_entry_id (me_id e)") (simp_all add: named_module_ids_def)

lemma named_video_ids_Cons:
  "named_video_ids (ve # ves) =
     (case numeric_entry_id (ve_id ve) of None \<Rightarrow> named_video_ids ves
      | Some k \<Rightarrow> k # named_video_ids ves)"
  by (cases "numeric_entry_id (ve_id ve)") (simp_all add: named_video_ids_def)

text \<open>The run over the entries: the keys (id, topic) of the module rows are kept, one key
  is added for each entry with the marker, with the next ids of the sequence, all of them
  unused before; the list of the modules to delete loses the named numbers.\<close>

lemma process_modules_keys:
  "process_modules tid i es ex db = Done ex' db' \<Longrightarrow>
     set (module_keys db') = set (module_keys db)
        \<union> (\<lambda>j. (j, Some tid)) `
            {topic_modules_id_seq db <.. topic_modules_id_seq db + int (new_module_count es)}
     \<and> topic_modules_id_seq db' = topic_modules_id_seq db + int (new_module_count es)
     \<and> ex' = fold remove1 (named_module_ids es) ex
     \<and> {topic_modules_id_seq db <.. topic_modules_id_seq db + int (new_module_count es)}
          \<inter> set (map m_id (topic_modules db)) = {}"
proof (induction es arbitrary: i ex db)
  case Nil
  then show ?case by (simp add: new_module_count_def named_module_ids_def)
next
  case (Cons e es)
  from Cons.prems obtain ex1 db1 where s: "process_module tid i e ex db = Done ex1 db1"
    and r: "process_modules tid (Suc i) es ex1 db1 = Done ex' db'"
    by (auto split: outcome.splits)
  note ih = Cons.IH [OF r]
  let ?s = "topic_modules_id_seq db"
  let ?n = "int (new_module_count es)"
  show ?case
  proof (cases "new_entry_id (me_id e)")
    case True
    from process_module_new [OF True s] obtain ord where
      e1: "ex1 = ex"
      and t1: "topic_modules db1 = topic_modules db @
          [\<lparr>m_id = ?s + 1, m_topic_id = Some tid, m_order_index = ord,
            m_duration_minutes = Some 0\<rparr>]"
      and s1: "topic_modules_id_seq db1 = ?s + 1"
      and f1: "?s + 1 \<notin> set (map m_id (topic_modules db))" by blast
    have c: "int (new_module_count (e # es)) = ?n + 1"
      using True by (simp add: new_module_count_def)
    have iv: "{?s <.. ?s + (?n + 1)} = insert (?s + 1) {?s + 1 <.. ?s + 1 + ?n}"
      by auto
    have k1: "set (module_keys db1) = insert (?s + 1, Some tid) (set (module_keys db))"
      by (simp add: module_keys_def t1)
    have nm: "named_module_ids (e # es) = named_module_ids es"
      by (simp add: named_module_ids_Cons new_entry_not_numeric [OF True])
    from ih have a: "set (module_keys db') = set (module_keys db1)
        \<union> (\<lambda>j. (j, Some tid)) ` {?s + 1 <.. ?s + 1 + ?n}"
      and b: "topic_modules_id_seq db' = ?s + 1 + ?n"
      and d: "ex' = fold remove1 (named_module_ids es) ex"
      and f: "{?s + 1 <.. ?s + 1 + ?n} \<inter> set (map m_id (topic_modules db1)) = {}"
      by (simp_all add: s1 e1)
    have 1: "set (module_keys db') = set (module_keys db)
        \<union> (\<lambda>j. (j, Some tid)) ` {?s <.. ?s + int (new_module_count (e # es))}"
      unfolding c iv a k1 by auto
    have 2: "topic_modules_id_seq db' = ?s + int (new_module_count (e # es))"
      unfolding c b by simp
    have 3: "ex' = fold remove1 (named_module_ids (e # es)) ex"
      unfolding nm d ..
    have 4: "{?s <.. ?s + int (new_module_count (e # es))}
          \<inter> set (map m_id (topic_modules db)) = {}"
      unfolding c iv using f f1 by (auto simp add: t1)
    from 1 2 3 4 show ?thesis by (intro conjI)
  next
    case False
    from process_module_not_new [OF False s]
    have k1: "module_keys db1 = module_keys db"
      and s1: "topic_modules_id_seq db1 = ?s"
      and e1: "ex1 = (case numeric_entry_id (me_id e) of None \<Rightarrow> ex | Some k \<Rightarrow> remove1 k ex)"
      by blast+
    have c: "new_module_count (e # es) = new_module_count es"
      using False by (simp add: new_module_count_def)
    have ids: "map m_id (topic_modules db1) = map m_id (topic_modules db)"
    proof -
      have "map m_id (topic_modules db1) = map fst (module_keys db1)"
        by (simp add: module_keys_def comp_def)
      also have "\<dots> = map m_id (topic_modules db)"
        by (simp add: k1) (simp add: module_keys_def comp_def)
      finally show ?thesis .
    qed
    from ih have 1: "set (module_keys db') = set (module_keys db)
        \<union> (\<lambda>j. (j, Some tid)) ` {?s <.. ?s + int (new_module_count (e # es))}"
      unfolding c k1 s1 by blast
    from ih have 2: "topic_modules_id_seq db' = ?s + int (new_module_count (e # es))"
      unfolding c s1 by blast
    have 3: "ex' = fold remove1 (named_module_ids (e # es)) ex"
      using ih e1 by (cases "numeric_entry_id (me_id e)") (simp_all add: named_module_ids_Cons)
    from ih have 4: "{?s <.. ?s + int (new_module_count (e # es))}
          \<inter> set (map m_id (topic_modules db)) = {}"
      unfolding c s1 ids by blast
    from 1 2 3 4 show ?thesis by (intro conjI)
  qed
qed


subsection \<open>The video rows through the run\<close>

text \<open>Ids come from the sequence: no row has an id beyond it. From one state to a later
  one, a row whose id was already given out is a row of the earlier state, in the same
  module.\<close>

definition videos_wf :: "db \<Rightarrow> bool" where
  "videos_wf db = list_all (\<lambda>v. v_id v \<le> topic_videos_id_seq db) (topic_videos db)"

definition videos_kept :: "db \<Rightarrow> db \<Rightarrow> bool" where
  "videos_kept db db' =
     (topic_videos_id_seq db \<le> topic_videos_id_seq db' \<and> videos_wf db'
      \<and> list_all (\<lambda>v. v_id v \<le> topic_videos_id_seq db \<longrightarrow>
                      (v_id v, v_module_id v) \<in> set (video_keys db)) (topic_videos db'))"

lemma video_keys_mem:
  "(x, m) \<in> set (video_keys db) \<longleftrightarrow> (\<exists>v\<in>set (topic_videos db). v_id v = x \<and> v_module_id v = m)"
  by (auto simp add: video_keys_def)

lemma videos_kept_refl: "videos_wf db \<Longrightarrow> videos_kept db db"
  by (auto simp add: videos_kept_def videos_wf_def list_all_iff video_keys_def)

lemma videos_kept_trans:
  assumes "videos_kept a b" and "videos_kept b c"
  shows "videos_kept a c"
proof -
  have "(v_id v, v_module_id v) \<in> set (video_keys a)"
    if v: "v \<in> set (topic_videos c)" and le: "v_id v \<le> topic_videos_id_seq a" for v
  proof -
    from assms(1) le have "v_id v \<le> topic_videos_id_seq b" by (simp add: videos_kept_def)
    with assms(2) v have "(v_id v, v_module_id v) \<in> set (video_keys b)"
      by (simp add: videos_kept_def list_all_iff)
    then obtain w where w: "w \<in> set (topic_videos b)" "v_id w = v_id v"
      "v_module_id w = v_module_id v" by (auto simp add: video_keys_mem)
    from assms(1) have "\<forall>x\<in>set (topic_videos b). v_id x \<le> topic_videos_id_seq a \<longrightarrow>
        (v_id x, v_module_id x) \<in> set (video_keys a)"
      by (simp add: videos_kept_def list_all_iff)
    from bspec [OF this w(1)] le w(2,3) show ?thesis by simp
  qed
  with assms show ?thesis by (simp add: videos_kept_def list_all_iff)
qed

lemma videos_kept_subset:
  assumes "videos_wf db" and "topic_videos_id_seq db' = topic_videos_id_seq db"
    and "set (video_keys db') \<subseteq> set (video_keys db)"
  shows "videos_kept db db'"
proof -
  have k: "(v_id v, v_module_id v) \<in> set (video_keys db)" if "v \<in> set (topic_videos db')" for v
    using that assms(3) by (auto simp add: video_keys_def)
  have "v_id v \<le> topic_videos_id_seq db" if "v \<in> set (topic_videos db')" for v
    using k [OF that] assms(1) by (auto simp add: video_keys_mem videos_wf_def list_all_iff)
  with k assms(2) show ?thesis by (simp add: videos_kept_def videos_wf_def list_all_iff)
qed

lemma videos_kept_insert_new_video:
  assumes "videos_wf db" and "insert_new_video tid mid i ve db = Done u db'"
  shows "videos_kept db db'"
proof -
  from insert_new_video_Done(1,2) [OF assms(2)] obtain row where
    t: "topic_videos db' = topic_videos db @ [row]"
    and r: "v_id row = topic_videos_id_seq db + 1"
    and s: "topic_videos_id_seq db' = topic_videos_id_seq db + 1" by auto
  from assms(1) show ?thesis
    by (auto simp add: videos_kept_def videos_wf_def list_all_iff t r s video_keys_def)
qed

lemma videos_kept_update_existing_video:
  assumes "videos_wf db" and "update_existing_video mid i ve db = Done u db'"
  shows "videos_kept db db'"
  using assms(1) update_existing_video_Done(1,2) [OF assms(2)]
  by (intro videos_kept_subset) simp_all

lemma videos_kept_update_module:
  assumes "videos_wf db" and "update_module mid tid title ord db = Done u db'"
  shows "videos_kept db db'"
  using assms(1) update_module_Done(3,5) [OF assms(2)]
  by (intro videos_kept_subset) (simp_all add: video_keys_def)

lemma delete_videos_table:
  "topic_videos (delete_videos ids db) = filter (\<lambda>v. v_id v \<notin> set ids) (topic_videos db)"
  unfolding delete_videos_def
proof (induction ids arbitrary: db)
  case Nil
  show ?case by simp
next
  case (Cons i ids)
  have "filter (\<lambda>v. v_id v \<notin> set ids) (filter (\<lambda>v. v_id v \<noteq> i) (topic_videos db))
      = filter (\<lambda>v. v_id v \<notin> set (i # ids)) (topic_videos db)"
    by (induction "topic_videos db") auto
  with Cons [of "delete_video i db"] show ?case by (simp add: delete_video_def)
qed

lemma videos_kept_delete_videos:
  "videos_wf db \<Longrightarrow> videos_kept db (delete_videos ids db)"
  by (rule videos_kept_subset)
     (auto simp add: delete_videos_table delete_videos_frame video_keys_def)

lemma videos_kept_delete_modules:
  "videos_wf db \<Longrightarrow> videos_kept db (delete_modules ids db)"
  by (rule videos_kept_subset) (auto simp add: delete_modules_tables video_keys_def)

lemma videos_kept_insert_module:
  assumes "videos_wf db" and "insert_module tid title ord db = Done mid db'"
  shows "videos_kept db db'"
  using assms(1) insert_module_Done(5,7) [OF assms(2)]
  by (intro videos_kept_subset) (simp_all add: video_keys_def)

lemma videos_kept_wf: "videos_kept db db' \<Longrightarrow> videos_wf db'"
  by (simp add: videos_kept_def)

lemma new_module_videos_kept:
  "new_module_videos tid mid i ves db = Done u db' \<Longrightarrow> videos_wf db \<Longrightarrow> videos_kept db db'"
proof (induction ves arbitrary: i db)
  case Nil
  then show ?case by (simp add: videos_kept_refl)
next
  case (Cons ve ves)
  show ?case
  proof (cases "js_truthy (ve_id ve) \<and> is_new_marker (ve_id ve)")
    case True
    with Cons.prems obtain db1 where s: "insert_new_video tid mid i ve db = Done () db1"
      and r: "new_module_videos tid mid (Suc i) ves db1 = Done u db'"
      by (auto split: outcome.splits)
    note k = videos_kept_insert_new_video [OF Cons.prems(2) s]
    from videos_kept_trans [OF k Cons.IH [OF r videos_kept_wf [OF k]]] show ?thesis .
  next
    case False
    with Cons.prems have "new_module_videos tid mid (Suc i) ves db = Done u db'" by auto
    from Cons.IH [OF this Cons.prems(2)] show ?thesis .
  qed
qed

text \<open>One video entry of a module named by a number: the state it leaves, and the list of
  the videos to delete.\<close>

lemma existing_module_videos_step:
  assumes "existing_module_videos tid mid i (ve # rest) ex db = Done ex' db'"
    and "videos_wf db"
  shows "\<exists>db1. videos_kept db db1
     \<and> existing_module_videos tid mid (Suc i) rest
          (case numeric_entry_id (ve_id ve) of None \<Rightarrow> ex | Some k \<Rightarrow> remove1 k ex) db1
        = Done ex' db'"
  using entry_id_cases [of "ve_id ve"]
proof (elim disjE exE)
  assume n: "new_entry_id (ve_id ve)"
  from assms(1) obtain db1 where s: "insert_new_video tid mid i ve db = Done () db1"
    and r: "existing_module_videos tid mid (Suc i) rest ex db1 = Done ex' db'"
    unfolding existing_module_videos_new [OF n] by (auto split: outcome.splits)
  from videos_kept_insert_new_video [OF assms(2) s] r new_entry_not_numeric [OF n]
  show ?thesis by (intro exI [of _ db1]) simp
next
  fix k assume n: "numeric_entry_id (ve_id ve) = Some k"
  from assms(1) obtain db1 where s: "update_existing_video mid i ve db = Done () db1"
    and r: "existing_module_videos tid mid (Suc i) rest (remove1 k ex) db1 = Done ex' db'"
    unfolding existing_module_videos_numeric [OF n] by (auto split: outcome.splits)
  from videos_kept_update_existing_video [OF assms(2) s] r n
  show ?thesis by (intro exI [of _ db1]) simp
next
  assume n: "skipped_entry_id (ve_id ve)"
  then have nn: "numeric_entry_id (ve_id ve) = None" by (simp add: skipped_entry_id_def)
  from assms(1) have "existing_module_videos tid mid (Suc i) rest ex db = Done ex' db'"
    unfolding existing_module_videos_skipped [OF n] .
  with nn videos_kept_refl [OF assms(2)] show ?thesis by (intro exI [of _ db]) simp
qed

lemma existing_module_videos_kept:
  "existing_module_videos tid mid i ves ex db = Done ex' db' \<Longrightarrow> videos_wf db \<Longrightarrow>
     videos_kept db db' \<and> ex' = fold remove1 (named_video_ids ves) ex"
proof (induction ves arbitrary: i ex db)
  case Nil
  then show ?case by (simp add: videos_kept_refl named_video_ids_def)
next
  case (Cons ve ves)
  from existing_module_videos_step [OF Cons.prems] obtain db1 where
    k: "videos_kept db db1"
    and r: "existing_module_videos tid mid (Suc i) ves
          (case numeric_entry_id (ve_id ve) of None \<Rightarrow> ex | Some k \<Rightarrow> remove1 k ex) db1
        = Done ex' db'" by blast
  from Cons.IH [OF r videos_kept_wf [OF k]]
  have k': "videos_kept db1 db'"
    and e: "ex' = fold remove1 (named_video_ids ves)
          (case numeric_entry_id (ve_id ve) of None \<Rightarrow> ex | Some k \<Rightarrow> remove1 k ex)"
    by blast+
  from e have "ex' = fold remove1 (named_video_ids (ve # ves)) ex"
    by (cases "numeric_entry_id (ve_id ve)") (simp_all add: named_video_ids_Cons)
  with videos_kept_trans [OF k k'] show ?case by blast
qed

text \<open>One module entry: the video rows are kept in the sense above, and for an entry that
  names the module \<open>k\<close> and carries a \<open>videos\<close> array, every row of module \<open>k\<close> whose id
  had been given out before the entry is named in the array.\<close>

lemma process_module_videos:
  assumes p: "process_module tid i e ex db = Done ex' db'" and wf: "videos_wf db"
  shows "videos_kept db db'"
    and "numeric_entry_id (me_id e) = Some k \<Longrightarrow> me_videos e = Some ves \<Longrightarrow>
           list_all (\<lambda>v. v_module_id v = Some k \<and> v_id v \<le> topic_videos_id_seq db
                          \<longrightarrow> v_id v \<in> set (named_video_ids ves)) (topic_videos db')"
proof -
  have numeric: "\<exists>(pm::module_params) db1. update_module n tid (mp_title pm) (mp_order pm) db = Done () db1
      \<and> (case me_videos e of
            None \<Rightarrow> Done (remove1 n ex) db1
          | Some videos \<Rightarrow>
              (case existing_module_videos tid n 0 videos
                      (map v_id (filter (\<lambda>v. v_module_id v = Some n) (topic_videos db1))) db1 of
                 Failed f db'' \<Rightarrow> Failed f db''
               | Done leftover db'' \<Rightarrow> Done (remove1 n ex) (delete_videos leftover db'')))
          = Done ex' db'"
    if nk: "numeric_entry_id (me_id e) = Some n" for n
  proof -
    note c = numeric_entry_reading [OF nk]
    note pk = process_module_numeric(2) [OF nk p]
    from c p obtain pm where b: "bind_module e i = Inr pm"
      by (auto simp add: process_module_def split: sum.splits)
    from c p b pk obtain db1 where
      um: "update_module n tid (mp_title pm) (mp_order pm) db = Done () db1"
      by (auto simp add: process_module_def split: outcome.splits)
    from c p b pk um have r: "(case me_videos e of
            None \<Rightarrow> Done (remove1 n ex) db1
          | Some videos \<Rightarrow>
              (case existing_module_videos tid n 0 videos
                      (map v_id (filter (\<lambda>v. v_module_id v = Some n) (topic_videos db1))) db1 of
                 Failed f db'' \<Rightarrow> Failed f db''
               | Done leftover db'' \<Rightarrow> Done (remove1 n ex) (delete_videos leftover db'')))
          = Done ex' db'"
      by (cases "me_videos e") (simp_all add: process_module_def Let_def)
    show ?thesis
      by (rule exI [of _ pm], rule exI [of _ db1], rule conjI, rule um, rule r)
  qed
  show "videos_kept db db'"
    using entry_id_cases [of "me_id e"]
  proof (elim disjE exE)
    assume n: "new_entry_id (me_id e)"
    then have c: "js_truthy (me_id e) \<and> is_new_marker (me_id e)"
      by (simp add: new_entry_id_def)
    from p c obtain pm where b: "bind_module e i = Inr pm"
      unfolding process_module_def by (auto split: sum.splits)
    from p c b obtain moduleId db1 where
      im: "insert_module tid (mp_title pm) (mp_order pm) db = Done moduleId db1"
      and r: "(case me_videos e of None \<Rightarrow> Done ex db1
             | Some videos \<Rightarrow> (case new_module_videos tid moduleId 0 videos db1 of
                 Failed f db'' \<Rightarrow> Failed f db'' | Done u db'' \<Rightarrow> Done ex db'')) = Done ex' db'"
      unfolding process_module_def by (auto split: outcome.splits)
    note k = videos_kept_insert_module [OF wf im]
    show ?thesis
    proof (cases "me_videos e")
      case None
      with r k show ?thesis by simp
    next
      case (Some videos)
      with r obtain u where nv: "new_module_videos tid moduleId 0 videos db1 = Done u db'"
        by (auto split: outcome.splits)
      from videos_kept_trans [OF k new_module_videos_kept [OF nv videos_kept_wf [OF k]]]
      show ?thesis .
    qed
  next
    assume "skipped_entry_id (me_id e)"
    from process_module_skipped [OF this, of tid i ex db] p have "db' = db" by simp
    with videos_kept_refl [OF wf] show ?thesis by simp
  next
    fix n assume nk: "numeric_entry_id (me_id e) = Some n"
    from numeric [OF nk] obtain pm :: module_params and db1 where
      um: "update_module n tid (mp_title pm) (mp_order pm) db = Done () db1"
      and p': "(case me_videos e of
            None \<Rightarrow> Done (remove1 n ex) db1
          | Some videos \<Rightarrow>
              (case existing_module_videos tid n 0 videos
                      (map v_id (filter (\<lambda>v. v_module_id v = Some n) (topic_videos db1))) db1 of
                 Failed f db'' \<Rightarrow> Failed f db''
               | Done leftover db'' \<Rightarrow> Done (remove1 n ex) (delete_videos leftover db'')))
          = Done ex' db'" by blast
    note k1 = videos_kept_update_module [OF wf um]
    show ?thesis
    proof (cases "me_videos e")
      case None
      with p' k1 show ?thesis by simp
    next
      case (Some videos)
      with p' obtain leftover db2 where
        ev: "existing_module_videos tid n 0 videos
             (map v_id (filter (\<lambda>v. v_module_id v = Some n) (topic_videos db1))) db1
           = Done leftover db2"
        and e: "db' = delete_videos leftover db2"
        by (auto split: outcome.splits)
      from existing_module_videos_kept [OF ev videos_kept_wf [OF k1]]
      have k2: "videos_kept db1 db2" by blast
      from videos_kept_delete_videos [OF videos_kept_wf [OF k2], of leftover] e
      have k3: "videos_kept db2 db'" by simp
      from videos_kept_trans [OF k1 videos_kept_trans [OF k2 k3]] show ?thesis .
    qed
  qed
next
  assume nk: "numeric_entry_id (me_id e) = Some k" and mv: "me_videos e = Some ves"
  note c = numeric_entry_reading [OF nk]
  note pk = process_module_numeric(2) [OF nk p]
  from c p obtain pm where b: "bind_module e i = Inr pm"
    by (auto simp add: process_module_def split: sum.splits)
  from c p b pk obtain db1 where
    um: "update_module k tid (mp_title pm) (mp_order pm) db = Done () db1"
    by (auto simp add: process_module_def split: outcome.splits)
  note f1 = update_module_Done [OF um]
  have tv1: "topic_videos db1 = topic_videos db"
    and s1: "topic_videos_id_seq db1 = topic_videos_id_seq db"
    using f1 by simp_all
  have wf1: "videos_wf db1" using wf by (simp add: videos_wf_def tv1 s1)
  define existing where
    "existing = map v_id (filter (\<lambda>v. v_module_id v = Some k) (topic_videos db1))"
  from c p b pk um mv obtain leftover db2 where
    ev: "existing_module_videos tid k 0 ves existing db1 = Done leftover db2"
    and e: "db' = delete_videos leftover db2"
    by (auto simp add: process_module_def Let_def existing_def split: outcome.splits)
  from existing_module_videos_kept [OF ev wf1]
  have k2: "videos_kept db1 db2" and l: "leftover = fold remove1 (named_video_ids ves) existing"
    by blast+
  have "v_id v \<in> set (named_video_ids ves)"
    if v: "v \<in> set (topic_videos db')" and m: "v_module_id v = Some k"
      and le: "v_id v \<le> topic_videos_id_seq db" for v
  proof (rule ccontr)
    assume nn: "v_id v \<notin> set (named_video_ids ves)"
    from v e have v2: "v \<in> set (topic_videos db2)" and nl: "v_id v \<notin> set leftover"
      by (simp_all add: delete_videos_table)
    from k2 v2 le have "(v_id v, v_module_id v) \<in> set (video_keys db1)"
      by (simp add: videos_kept_def list_all_iff s1)
    with m have "v_id v \<in> set existing"
      by (auto simp add: video_keys_def existing_def)
    with nn have "v_id v \<in> set existing - set (named_video_ids ves)" by simp
    with fold_remove1_superset [of existing "named_video_ids ves"] l nl show False by auto
  qed
  then show "list_all (\<lambda>v. v_module_id v = Some k \<and> v_id v \<le> topic_videos_id_seq db
                          \<longrightarrow> v_id v \<in> set (named_video_ids ves)) (topic_videos db')"
    by (simp add: list_all_iff)
qed

lemma process_modules_videos:
  "process_modules tid i es ex db = Done ex' db' \<Longrightarrow> videos_wf db \<Longrightarrow>
     videos_kept db db'
     \<and> (\<forall>e\<in>set es. \<forall>k ves. numeric_entry_id (me_id e) = Some k \<and> me_videos e = Some ves \<longrightarrow>
          list_all (\<lambda>v. v_module_id v = Some k \<and> v_id v \<le> topic_videos_id_seq db
                         \<longrightarrow> v_id v \<in> set (named_video_ids ves)) (topic_videos db'))"
proof (induction es arbitrary: i ex db)
  case Nil
  then show ?case by (simp add: videos_kept_refl)
next
  case (Cons e es)
  from Cons.prems obtain ex1 db1 where s: "process_module tid i e ex db = Done ex1 db1"
    and r: "process_modules tid (Suc i) es ex1 db1 = Done ex' db'"
    by (auto split: outcome.splits)
  note k1 = process_module_videos(1) [OF s Cons.prems(2)]
  note ih = Cons.IH [OF r videos_kept_wf [OF k1]]
  from ih have k2: "videos_kept db1 db'" by blast
  from k1 have le: "topic_videos_id_seq db \<le> topic_videos_id_seq db1"
    by (simp add: videos_kept_def)
  have hd: "v_id v \<in> set (named_video_ids ves)"
    if nk: "numeric_entry_id (me_id e) = Some k" and mv: "me_videos e = Some ves"
      and v: "v \<in> set (topic_videos db')" and m: "v_module_id v = Some k"
      and l: "v_id v \<le> topic_videos_id_seq db" for k ves v
  proof -
    from k2 v l le have "(v_id v, v_module_id v) \<in> set (video_keys db1)"
      by (simp add: videos_kept_def list_all_iff)
    then obtain w where w: "w \<in> set (topic_videos db1)" "v_id w = v_id v"
      "v_module_id w = v_module_id v" by (auto simp add: video_keys_mem)
    from process_module_videos(2) [OF s Cons.prems(2) nk mv] w m l
    show ?thesis by (auto simp add: list_all_iff)
  qed
  have tl: "v_id v \<in> set (named_video_ids ves)"
    if "e' \<in> set es" and "numeric_entry_id (me_id e') = Some k" and "me_videos e' = Some ves"
      and "v \<in> set (topic_videos db')" and "v_module_id v = Some k"
      and "v_id v \<le> topic_videos_id_seq db" for e' k ves v
    using ih that le by (auto simp add: list_all_iff)
  from hd tl videos_kept_trans [OF k1 k2] show ?case
    by (auto simp add: list_all_iff)
qed


subsection \<open>Claim C1: the modules and videos that a successful request leaves\<close>

lemma put_topic_Success:
  assumes "put_topic e id_param body db = (Success 200, db')"
    and "pt_modules body = Some es" and "pg_int4_in id_param = Inr tid"
  shows "\<exists>assignments db1. assignments \<noteq> [] \<and> update_topic e tid assignments db = Inr db1
     \<and> reconcile_modules tid es db1 = Done () db'"
  using assms unfolding put_topic_def
  by (auto split: list.splits sum.splits if_splits outcome.splits)

lemma distinct_map_eq:
  "distinct (map f xs) \<Longrightarrow> a \<in> set xs \<Longrightarrow> b \<in> set xs \<Longrightarrow> f a = f b \<Longrightarrow> a = b"
  by (auto simp add: distinct_map inj_on_def)

lemma reconcile_modules_Done:
  assumes r: "reconcile_modules tid es db = Done () db'"
    and dm: "distinct (map m_id (topic_modules db))"
  shows "set (map m_id (filter (\<lambda>m. m_topic_id m = Some tid) (topic_modules db')))
        = (set (map m_id (filter (\<lambda>m. m_topic_id m = Some tid) (topic_modules db)))
             \<inter> set (named_module_ids es))
          \<union> {topic_modules_id_seq db <.. topic_modules_id_seq db + int (new_module_count es)}"
    and "{topic_modules_id_seq db <.. topic_modules_id_seq db + int (new_module_count es)}
          \<inter> set (map m_id (topic_modules db)) = {}"
    and "\<forall>m\<in>set (topic_modules db).
           m_topic_id m = Some tid \<and> m_id m \<notin> set (named_module_ids es) \<longrightarrow>
             m_id m \<notin> set (map m_id (topic_modules db'))
             \<and> (\<forall>v\<in>set (topic_videos db'). v_module_id v \<noteq> Some (m_id m))"
proof -
  define old where "old = map m_id (filter (\<lambda>m. m_topic_id m = Some tid) (topic_modules db))"
  define minted where
    "minted = {topic_modules_id_seq db <.. topic_modules_id_seq db + int (new_module_count es)}"
  from r obtain remaining db2 where
    p: "process_modules tid 0 es old db = Done remaining db2"
    and d: "db' = delete_modules remaining db2"
    unfolding reconcile_modules_def Let_def old_def by (auto split: outcome.splits)
  from process_modules_keys [OF p]
  have keys: "set (module_keys db2) = set (module_keys db) \<union> (\<lambda>j. (j, Some tid)) ` minted"
    and rem: "remaining = fold remove1 (named_module_ids es) old"
    and fresh: "minted \<inter> set (map m_id (topic_modules db)) = {}"
    unfolding minted_def by blast+
  have "distinct old"
    unfolding old_def using dm by (rule distinct_map_filter)
  with rem have rs: "set remaining = set old - set (named_module_ids es)"
    by (simp add: fold_remove1_set)
  have oldk: "j \<in> set old \<longleftrightarrow> (j, Some tid) \<in> set (module_keys db)" for j
    by (auto simp add: old_def module_keys_def)
  have oldsub: "set old \<subseteq> set (map m_id (topic_modules db))"
    by (auto simp add: old_def)
  have lhs: "set (map m_id (filter (\<lambda>m. m_topic_id m = Some tid) (topic_modules db')))
      = {j. (j, Some tid) \<in> set (module_keys db2) \<and> j \<notin> set remaining}"
    by (auto simp add: d delete_modules_tables module_keys_def)
  have "{j. (j, Some tid) \<in> set (module_keys db2) \<and> j \<notin> set remaining}
      = (set old \<inter> set (named_module_ids es)) \<union> minted"
    unfolding keys rs using oldk oldsub fresh by auto
  with lhs show "set (map m_id (filter (\<lambda>m. m_topic_id m = Some tid) (topic_modules db')))
        = (set (map m_id (filter (\<lambda>m. m_topic_id m = Some tid) (topic_modules db)))
             \<inter> set (named_module_ids es))
          \<union> {topic_modules_id_seq db <.. topic_modules_id_seq db + int (new_module_count es)}"
    by (simp add: old_def minted_def)
  from fresh show "{topic_modules_id_seq db <..
        topic_modules_id_seq db + int (new_module_count es)}
          \<inter> set (map m_id (topic_modules db)) = {}"
    by (simp add: minted_def)
  show "\<forall>m\<in>set (topic_modules db).
           m_topic_id m = Some tid \<and> m_id m \<notin> set (named_module_ids es) \<longrightarrow>
             m_id m \<notin> set (map m_id (topic_modules db'))
             \<and> (\<forall>v\<in>set (topic_videos db'). v_module_id v \<noteq> Some (m_id m))"
  proof (intro ballI impI)
    fix m
    assume m: "m \<in> set (topic_modules db)"
      and c: "m_topic_id m = Some tid \<and> m_id m \<notin> set (named_module_ids es)"
    from m c have "m_id m \<in> set old" by (auto simp add: old_def)
    with c rs have "m_id m \<in> set remaining" by simp
    then show "m_id m \<notin> set (map m_id (topic_modules db'))
             \<and> (\<forall>v\<in>set (topic_videos db'). v_module_id v \<noteq> Some (m_id m))"
      by (auto simp add: d delete_modules_tables)
  qed
qed

lemma reconcile_modules_videos:
  assumes r: "reconcile_modules tid es db = Done () db'"
    and wf: "videos_wf db" and dv: "distinct (map v_id (topic_videos db))"
    and e: "me \<in> set es" and nk: "numeric_entry_id (me_id me) = Some k"
    and mv: "me_videos me = Some ves"
    and v: "v \<in> set (topic_videos db)" and vm: "v_module_id v = Some k"
    and nn: "v_id v \<notin> set (named_video_ids ves)"
  shows "v_id v \<notin> set (map v_id (topic_videos db'))"
proof
  assume "v_id v \<in> set (map v_id (topic_videos db'))"
  then obtain w where w: "w \<in> set (topic_videos db')" and wi: "v_id w = v_id v" by auto
  from r obtain old remaining db2 where
    p: "process_modules tid 0 es old db = Done remaining db2"
    and d: "db' = delete_modules remaining db2"
    unfolding reconcile_modules_def Let_def by (auto split: outcome.splits)
  from process_modules_videos [OF p wf]
  have k: "videos_kept db db2"
    and s: "list_all (\<lambda>v. v_module_id v = Some k \<and> v_id v \<le> topic_videos_id_seq db
                         \<longrightarrow> v_id v \<in> set (named_video_ids ves)) (topic_videos db2)"
    using e nk mv by blast+
  from w d have w2: "w \<in> set (topic_videos db2)" by (simp add: delete_modules_tables)
  from wf v have le: "v_id v \<le> topic_videos_id_seq db"
    by (simp add: videos_wf_def list_all_iff)
  from k have "\<forall>x\<in>set (topic_videos db2). v_id x \<le> topic_videos_id_seq db \<longrightarrow>
      (v_id x, v_module_id x) \<in> set (video_keys db)"
    by (simp add: videos_kept_def list_all_iff)
  from bspec [OF this w2] le wi have "(v_id w, v_module_id w) \<in> set (video_keys db)"
    by simp
  then obtain u where u: "u \<in> set (topic_videos db)" "v_id u = v_id w"
    "v_module_id u = v_module_id w" by (auto simp add: video_keys_mem)
  from distinct_map_eq [OF dv u(1) v] u(2) wi have "u = v" by simp
  with u(3) vm have "v_module_id w = Some k" by simp
  moreover from s have "\<forall>x\<in>set (topic_videos db2).
      v_module_id x = Some k \<and> v_id x \<le> topic_videos_id_seq db \<longrightarrow>
        v_id x \<in> set (named_video_ids ves)"
    by (simp add: list_all_iff)
  from bspec [OF this w2] have "v_module_id w = Some k \<and> v_id w \<le> topic_videos_id_seq db \<longrightarrow>
        v_id w \<in> set (named_video_ids ves)" .
  ultimately have "v_id w \<in> set (named_video_ids ves)"
    using le wi by simp
  with wi nn show False by simp
qed

text \<open>
  Claim C1, for the requests that reach the reconciliation and succeed. Let the request
  answer 200 with a \<open>modules\<close> array \<open>es\<close> in the body (so at least one field of the topic
  itself is updated as well), on tables whose ids are distinct and were given out by the
  sequence. Then
  \<^item> the module ids persisted for the topic are exactly the ids persisted before that an
    entry names by a number, together with one freshly minted id (the next values of the
    sequence) for each entry with the marker \<open>new-\<close>; a number that names no module of the
    topic creates nothing;
  \<^item> the minted ids were not in use;
  \<^item> every module of the topic that no entry names is deleted, and no video is left in it;
  \<^item> for each entry that names module \<open>k\<close> by a number and carries a \<open>videos\<close> array,
    every video that was in module \<open>k\<close> and that the array does not name by a number is
    deleted.

  And for a request that does not get that far: when the topic exists and the loop over
  the fields of the body finds no column to update, the answer is 400 with the message
  \<open>No valid fields to update\<close>, whatever \<open>modules\<close> holds, and the database is left as
  it was.
\<close>

theorem put_topic_modules_reconciled:
  "(put_topic e id_param body db = (Success 200, db')
   \<and> pt_modules body = Some es
   \<and> pg_int4_in id_param = Inr tid
   \<and> distinct (map m_id (topic_modules db))
   \<and> distinct (map v_id (topic_videos db))
   \<and> list_all (\<lambda>v. v_id v \<le> topic_videos_id_seq db) (topic_videos db)
   \<longrightarrow>
     set (map m_id (filter (\<lambda>m. m_topic_id m = Some tid) (topic_modules db')))
        = (set (map m_id (filter (\<lambda>m. m_topic_id m = Some tid) (topic_modules db)))
             \<inter> set (named_module_ids es))
          \<union> {topic_modules_id_seq db <.. topic_modules_id_seq db + int (new_module_count es)}
     \<and> {topic_modules_id_seq db <.. topic_modules_id_seq db + int (new_module_count es)}
          \<inter> set (map m_id (topic_modules db)) = {}
     \<and> (\<forall>m\<in>set (topic_modules db).
           m_topic_id m = Some tid \<and> m_id m \<notin> set (named_module_ids es) \<longrightarrow>
             m_id m \<notin> set (map m_id (topic_modules db'))
             \<and> (\<forall>v\<in>set (topic_videos db'). v_module_id v \<noteq> Some (m_id m)))
     \<and> (\<forall>me\<in>set es. \<forall>k ves.
           numeric_entry_id (me_id me) = Some k \<and> me_videos me = Some ves \<longrightarrow>
             (\<forall>v\<in>set (topic_videos db).
                v_module_id v = Some k \<and> v_id v \<notin> set (named_video_ids ves) \<longrightarrow>
                  v_id v \<notin> set (map v_id (topic_videos db')))))
   \<and> (pg_int4_in id_param = Inr tid
      \<and> filter (\<lambda>t. t_id t = tid) (topics db) = existing # others
      \<and> with_slug tid existing (pt_entries body) db = Inr entries
      \<and> update_fields e entries = Inr []
      \<longrightarrow> put_topic e id_param body db = (ClientError 400 ''No valid fields to update'', db))"
proof (rule conjI, goal_cases)
  case 2
  show ?case by (simp add: put_topic_def)
next
  case 1
  show ?case
  proof (intro impI, elim conjE)
  assume ok: "put_topic e id_param body db = (Success 200, db')"
    and ms: "pt_modules body = Some es" and id: "pg_int4_in id_param = Inr tid"
    and dm: "distinct (map m_id (topic_modules db))"
    and dv: "distinct (map v_id (topic_videos db))"
    and wf: "list_all (\<lambda>v. v_id v \<le> topic_videos_id_seq db) (topic_videos db)"
  from put_topic_Success [OF ok ms id] obtain assignments db1 where
    u: "update_topic e tid assignments db = Inr db1"
    and r: "reconcile_modules tid es db1 = Done () db'" by blast
  note fr = update_topic_frame [OF u]
  from dm have dm1: "distinct (map m_id (topic_modules db1))" by (simp add: fr)
  from dv have dv1: "distinct (map v_id (topic_videos db1))" by (simp add: fr)
  from wf have wf1: "videos_wf db1" by (simp add: videos_wf_def fr)
  note m = reconcile_modules_Done [OF r dm1, unfolded fr]
  have vd: "\<forall>me\<in>set es. \<forall>k ves.
           numeric_entry_id (me_id me) = Some k \<and> me_videos me = Some ves \<longrightarrow>
             (\<forall>v\<in>set (topic_videos db).
                v_module_id v = Some k \<and> v_id v \<notin> set (named_video_ids ves) \<longrightarrow>
                  v_id v \<notin> set (map v_id (topic_videos db')))"
    using reconcile_modules_videos [OF r wf1 dv1] by (simp add: fr)
  from m(1) m(2) m(3) vd
  show "set (map m_id (filter (\<lambda>m. m_topic_id m = Some tid) (topic_modules db')))
        = (set (map m_id (filter (\<lambda>m. m_topic_id m = Some tid) (topic_modules db)))
             \<inter> set (named_module_ids es))
          \<union> {topic_modules_id_seq db <.. topic_modules_id_seq db + int (new_module_count es)}
     \<and> {topic_modules_id_seq db <.. topic_modules_id_seq db + int (new_module_count es)}
          \<inter> set (map m_id (topic_modules db)) = {}
     \<and> (\<forall>m\<in>set (topic_modules db).
           m_topic_id m = Some tid \<and> m_id m \<notin> set (named_module_ids es) \<longrightarrow>
             m_id m \<notin> set (map m_id (topic_modules db'))
             \<and> (\<forall>v\<in>set (topic_videos db'). v_module_id v \<noteq> Some (m_id m)))
     \<and> (\<forall>me\<in>set es. \<forall>k ves.
           numeric_entry_id (me_id me) = Some k \<and> me_videos me = Some ves \<longrightarrow>
             (\<forall>v\<in>set (topic_videos db).
                v_module_id v = Some k \<and> v_id v \<notin> set (named_video_ids ves) \<longrightarrow>
                  v_id v \<notin> set (map v_id (topic_videos db'))))"
    by (intro conjI)
  qed
qed

definition ex_reconcile_modules :: "module_entry list" where
  "ex_reconcile_modules =
     [plain_module (JNum 1) JUndefined (Some [plain_video (JNum 1) (JNum 2) JUndefined]),
      plain_module (JStr ''new-a'') JUndefined None,
      plain_module (JNum 99) JUndefined None]"

definition ex_put_reconcile :: put_body where
  "ex_put_reconcile = \<lparr>pt_entries = [(''status'', JStr ''draft'')],
     pt_modules = Some ex_reconcile_modules\<rparr>"

definition ex_put_no_field :: put_body where
  "ex_put_no_field = \<lparr>pt_entries = [(''colour'', JStr ''red'')],
     pt_modules = Some ex_reconcile_modules\<rparr>"

definition ex_db_reconciled :: db where
  "ex_db_reconciled = ex_db_put\<lparr>
     topic_modules :=
       [\<lparr>m_id = 1, m_topic_id = Some 5, m_order_index = Some 1, m_duration_minutes = Some 0\<rparr>,
        \<lparr>m_id = 3, m_topic_id = Some 5, m_order_index = Some 2, m_duration_minutes = Some 0\<rparr>],
     topic_videos :=
       [\<lparr>v_id = 1, v_topic_id = Some 5, v_module_id = Some 1, v_duration_seconds = Some 120,
          v_order_index = Some 1\<rparr>],
     topic_modules_id_seq := 3\<rparr>"

lemma ex_put_reconcile_steps:
  "put_topic ex_env ''5'' ex_put_reconcile ex_db_put = (Success 200, ex_db_reconciled)"
  "pt_modules ex_put_reconcile = Some ex_reconcile_modules"
  "pg_int4_in ''5'' = Inr 5"
  "distinct (map m_id (topic_modules ex_db_put))"
  "distinct (map v_id (topic_videos ex_db_put))"
  "list_all (\<lambda>v. v_id v \<le> topic_videos_id_seq ex_db_put) (topic_videos ex_db_put)"
  by (auto simp add: ex_put_reconcile_def ex_reconcile_modules_def ex_db_reconciled_def
      ex_db_put_def ex_env_def put_eval_simps parse_eval_simps toLowerCase_def
      toLowerCase_char_def)

lemma ex_put_no_field_steps:
  "filter (\<lambda>t. t_id t = 5) (topics ex_db_put) = [hd (topics ex_db_put)]"
  "with_slug 5 (hd (topics ex_db_put)) (pt_entries ex_put_no_field) ex_db_put
     = Inr [(''colour'', JStr ''red'')]"
  "update_fields ex_env [(''colour'', JStr ''red'')] = Inr []"
  by (auto simp add: ex_put_no_field_def ex_db_put_def ex_env_def put_eval_simps
      parse_eval_simps toLowerCase_def toLowerCase_char_def)

lemma ex_put_reconcile_names:
  "named_module_ids ex_reconcile_modules = [1, 99]"
  "new_module_count ex_reconcile_modules = 1"
  "map m_id (filter (\<lambda>m. m_topic_id m = Some 5) (topic_modules ex_db_put)) = [1, 2]"
  "topic_modules_id_seq ex_db_put = 2"
  by (simp_all add: ex_reconcile_modules_def named_module_ids_def new_module_count_def
      numeric_entry_id_def new_entry_id_def ex_db_put_def plain_module_def plain_video_def
      List.map_filter_def parse_eval_simps)

lemma ex_put_reconcile_rows:
  "\<lparr>m_id = 2, m_topic_id = Some 5, m_order_index = Some 2, m_duration_minutes = Some 0\<rparr>
     \<in> set (topic_modules ex_db_put)"
  "plain_module (JNum 1) JUndefined (Some [plain_video (JNum 1) (JNum 2) JUndefined])
     \<in> set ex_reconcile_modules"
  "me_id (plain_module (JNum 1) JUndefined (Some [plain_video (JNum 1) (JNum 2) JUndefined]))
     = JNum 1"
  "me_videos (plain_module (JNum 1) JUndefined (Some [plain_video (JNum 1) (JNum 2) JUndefined]))
     = Some [plain_video (JNum 1) (JNum 2) JUndefined]"
  "\<lparr>v_id = 2, v_topic_id = Some 5, v_module_id = Some 1, v_duration_seconds = Some 60,
     v_order_index = Some 2\<rparr> \<in> set (topic_videos ex_db_put)"
  "numeric_entry_id (JNum 1) = Some 1"
  "named_video_ids [plain_video (JNum 1) (JNum 2) JUndefined] = [1]"
  by (simp_all add: ex_db_put_def ex_reconcile_modules_def named_video_ids_def
      numeric_entry_id_def new_entry_id_def plain_module_def plain_video_def
      List.map_filter_def parse_eval_simps)

theorem put_topic_modules_reconciled_witness:
  "put_topic ex_env ''5'' ex_put_reconcile ex_db_put = (Success 200, ex_db_reconciled)
   \<and> pt_modules ex_put_reconcile = Some ex_reconcile_modules
   \<and> pg_int4_in ''5'' = Inr 5
   \<and> distinct (map m_id (topic_modules ex_db_put))
   \<and> distinct (map v_id (topic_videos ex_db_put))
   \<and> list_all (\<lambda>v. v_id v \<le> topic_videos_id_seq ex_db_put) (topic_videos ex_db_put)
   \<and> map m_id (filter (\<lambda>m. m_topic_id m = Some 5) (topic_modules ex_db_put)) = [1, 2]
   \<and> named_module_ids ex_reconcile_modules = [1, 99]
   \<and> new_module_count ex_reconcile_modules = 1
   \<and> set (map m_id (filter (\<lambda>m. m_topic_id m = Some 5) (topic_modules ex_db_reconciled)))
        = {1, 3}
   \<and> 2 \<notin> set (map m_id (topic_modules ex_db_reconciled))
   \<and> Some 2 \<notin> set (map v_module_id (topic_videos ex_db_reconciled))
   \<and> 2 \<notin> set (map v_id (topic_videos ex_db_reconciled))
   \<and> update_fields ex_env [(''colour'', JStr ''red'')] = Inr []
   \<and> put_topic ex_env ''5'' ex_put_no_field ex_db_put
        = (ClientError 400 ''No valid fields to update'', ex_db_put)"
proof -
  note s = ex_put_reconcile_steps
  note n = ex_put_reconcile_names
  note r = ex_put_reconcile_rows
  let ?m2 = "\<lparr>m_id = 2, m_topic_id = Some 5, m_order_index = Some 2,
     m_duration_minutes = Some 0\<rparr>"
  let ?ve1 = "plain_video (JNum 1) (JNum 2) JUndefined"
  let ?e1 = "plain_module (JNum 1) JUndefined (Some [?ve1])"
  let ?v2 = "\<lparr>v_id = 2, v_topic_id = Some 5, v_module_id = Some 1, v_duration_seconds = Some 60,
     v_order_index = Some 2\<rparr>"
  have pre: "put_topic ex_env ''5'' ex_put_reconcile ex_db_put = (Success 200, ex_db_reconciled)
   \<and> pt_modules ex_put_reconcile = Some ex_reconcile_modules
   \<and> pg_int4_in ''5'' = Inr 5
   \<and> distinct (map m_id (topic_modules ex_db_put))
   \<and> distinct (map v_id (topic_videos ex_db_put))
   \<and> list_all (\<lambda>v. v_id v \<le> topic_videos_id_seq ex_db_put) (topic_videos ex_db_put)"
    using s by (intro conjI)
  note both = put_topic_modules_reconciled [where e = ex_env and id_param = "''5''"
      and body = ex_put_reconcile and db = ex_db_put and db' = ex_db_reconciled
      and es = ex_reconcile_modules and tid = 5]
  note concl = mp [OF conjunct1 [OF both] pre]
  note none = put_topic_modules_reconciled [where e = ex_env and id_param = "''5''"
      and body = ex_put_no_field and db = ex_db_put and tid = 5
      and existing = "hd (topics ex_db_put)" and others = "[]"
      and entries = "[(''colour'', JStr ''red'')]"]
  note f = ex_put_no_field_steps
  have pre4: "pg_int4_in ''5'' = Inr 5
      \<and> filter (\<lambda>t. t_id t = 5) (topics ex_db_put) = hd (topics ex_db_put) # []
      \<and> with_slug 5 (hd (topics ex_db_put)) (pt_entries ex_put_no_field) ex_db_put
           = Inr [(''colour'', JStr ''red'')]
      \<and> update_fields ex_env [(''colour'', JStr ''red'')] = Inr []"
    using s(3) f by (intro conjI)
  note c5 = mp [OF conjunct2 [OF none] pre4]
  from concl have "set (map m_id (filter (\<lambda>m. m_topic_id m = Some 5)
        (topic_modules ex_db_reconciled)))
      = (set (map m_id (filter (\<lambda>m. m_topic_id m = Some 5) (topic_modules ex_db_put)))
             \<inter> set (named_module_ids ex_reconcile_modules))
          \<union> {topic_modules_id_seq ex_db_put <..
               topic_modules_id_seq ex_db_put + int (new_module_count ex_reconcile_modules)}"
    by (rule conjunct1)
  also have "\<dots> = {1, 3}"
    unfolding n by auto
  finally have c1: "set (map m_id (filter (\<lambda>m. m_topic_id m = Some 5)
        (topic_modules ex_db_reconciled))) = {1, 3}" .
  from concl have "\<forall>m\<in>set (topic_modules ex_db_put).
           m_topic_id m = Some 5 \<and> m_id m \<notin> set (named_module_ids ex_reconcile_modules) \<longrightarrow>
             m_id m \<notin> set (map m_id (topic_modules ex_db_reconciled))
             \<and> (\<forall>v\<in>set (topic_videos ex_db_reconciled). v_module_id v \<noteq> Some (m_id m))"
    by blast
  from bspec [OF this r(1)] have "2 \<notin> set (map m_id (topic_modules ex_db_reconciled))
      \<and> (\<forall>v\<in>set (topic_videos ex_db_reconciled). v_module_id v \<noteq> Some 2)"
    by (simp add: n)
  then have c2: "2 \<notin> set (map m_id (topic_modules ex_db_reconciled))"
    and c3: "Some 2 \<notin> set (map v_module_id (topic_videos ex_db_reconciled))"
    by auto
  from concl have "\<forall>me\<in>set ex_reconcile_modules. \<forall>k ves.
           numeric_entry_id (me_id me) = Some k \<and> me_videos me = Some ves \<longrightarrow>
             (\<forall>v\<in>set (topic_videos ex_db_put).
                v_module_id v = Some k \<and> v_id v \<notin> set (named_video_ids ves) \<longrightarrow>
                  v_id v \<notin> set (map v_id (topic_videos ex_db_reconciled)))"
    by blast
  from bspec [OF this r(2)] r(3,4,6) have "\<forall>v\<in>set (topic_videos ex_db_put).
                v_module_id v = Some 1 \<and> v_id v \<notin> set (named_video_ids [?ve1]) \<longrightarrow>
                  v_id v \<notin> set (map v_id (topic_videos ex_db_reconciled))"
    by simp
  from bspec [OF this r(5)] r(7)
  have c4: "2 \<notin> set (map v_id (topic_videos ex_db_reconciled))" by simp
  from s n(3,1,2) c1 c2 c3 c4 f(3) c5 show ?thesis by (intro conjI)
qed


end
